theory Spec2Isabelle
  imports Complex_Main "HOL-Library.Multiset" "HOL-Library.Log_Nat"
begin

chapter \<open>The zoning-document pipeline and its retrieval scorer\<close>

text \<open>
  A shallow embedding of the Supabase edge functions of the Municipal-Compliance
  repository: the vector store (\<^verbatim>\<open>mongo-upsert\<close>: \<^verbatim>\<open>handleUpsert\<close>,
  \<^verbatim>\<open>handleSearch\<close>, \<^verbatim>\<open>quantizeEmbedding\<close>), the chunk normalizer
  (\<^verbatim>\<open>reducto-parse\<close>: \<^verbatim>\<open>transformPipelineResponse\<close>, \<^verbatim>\<open>cleanText\<close>),
  the embedding batcher (\<^verbatim>\<open>voyage-embed\<close>: the batch loop, \<^verbatim>\<open>enhanceQuery\<close>),
  the shared helpers (\<^verbatim>\<open>chunkArray\<close>, \<^verbatim>\<open>retryWithBackoff\<close>,
  \<^verbatim>\<open>createResponse\<close>) and the orchestrator (\<^verbatim>\<open>runPipelineSync\<close>).

  The first part holds the definitions, each translated from the TypeScript function
  of the same name; the second part holds the properties proved about them.

  Conventions of the embedding:
  \<^item> A JavaScript \<^verbatim>\<open>number\<close> is a \<open>jsnum\<close>: a real number or one of
    \<open>PosInf\<close>, \<open>NegInf\<close>, \<open>NaN\<close>. The sign of zero is not tracked;
    division by zero, infinities and \<open>NaN\<close> propagate as IEEE 754 prescribes.
    The operations \<open>js_add\<close>, \<open>js_sub\<close>, \<open>js_mul\<close>, \<open>js_div\<close> give the
    exact result on finite operands; \<open>rounded\<close> rounds it to double precision
    (to the nearest double, a tie to the even significand, overflow to an
    infinity). The quantizer is computed in double precision. The similarity score
    is computed on the exact results: the properties of the ranking hold for any
    score, and at the degenerate inputs of the score the results are exact.
    Numbers that arrive in a JSON request body are finite, so they are \<open>real\<close>.
  \<^item> A JavaScript string is a \<open>string\<close>: a list of 8-bit characters, read as
    UTF-16 code units below 256 (ASCII and Latin-1).
  \<^item> A thrown \<^verbatim>\<open>Error\<close> is the left injection of a sum type, carrying the
    message.
  \<^item> Calls to other services (the embedding API, the other edge functions, the
    clock) are parameters of the functions that make them.
\<close>

section \<open>Definitions\<close>

subsection \<open>JavaScript numbers\<close>

datatype jsnum = Num real | PosInf | NegInf | NaN

fun js_neg :: "jsnum \<Rightarrow> jsnum" where
  "js_neg (Num x) = Num (- x)"
| "js_neg PosInf = NegInf"
| "js_neg NegInf = PosInf"
| "js_neg NaN = NaN"

fun js_add :: "jsnum \<Rightarrow> jsnum \<Rightarrow> jsnum" where
  "js_add (Num x) (Num y) = Num (x + y)"
| "js_add NaN _ = NaN"
| "js_add _ NaN = NaN"
| "js_add PosInf NegInf = NaN"
| "js_add NegInf PosInf = NaN"
| "js_add PosInf _ = PosInf"
| "js_add _ PosInf = PosInf"
| "js_add NegInf _ = NegInf"
| "js_add _ NegInf = NegInf"

text \<open>Subtraction \<^verbatim>\<open>a - b\<close> is \<^verbatim>\<open>a + (-b)\<close>.\<close>

definition js_sub :: "jsnum \<Rightarrow> jsnum \<Rightarrow> jsnum" where
  "js_sub a b = js_add a (js_neg b)"

text \<open>An infinity times a finite number: \<open>NaN\<close> for zero, else the sign rule.\<close>

definition scale_inf :: "real \<Rightarrow> jsnum \<Rightarrow> jsnum" where
  "scale_inf x i = (if x = 0 then NaN else if 0 < x then i else js_neg i)"

fun js_mul :: "jsnum \<Rightarrow> jsnum \<Rightarrow> jsnum" where
  "js_mul (Num x) (Num y) = Num (x * y)"
| "js_mul NaN _ = NaN"
| "js_mul _ NaN = NaN"
| "js_mul (Num x) i = scale_inf x i"
| "js_mul i (Num y) = scale_inf y i"
| "js_mul i j = (if i = j then PosInf else NegInf)"

text \<open>
  Division: a finite non-zero number over zero is an infinity, zero over zero is
  \<open>NaN\<close>, a finite number over an infinity is zero.
\<close>

fun js_div :: "jsnum \<Rightarrow> jsnum \<Rightarrow> jsnum" where
  "js_div (Num x) (Num y) =
     (if y = 0 then (if x = 0 then NaN else if 0 < x then PosInf else NegInf)
      else Num (x / y))"
| "js_div NaN _ = NaN"
| "js_div _ NaN = NaN"
| "js_div (Num x) _ = Num 0"
| "js_div i (Num y) = (if y < 0 then js_neg i else i)"
| "js_div _ _ = NaN"

text \<open>\<^verbatim>\<open>Math.sqrt\<close>.\<close>

fun js_sqrt :: "jsnum \<Rightarrow> jsnum" where
  "js_sqrt (Num x) = (if x < 0 then NaN else Num (sqrt x))"
| "js_sqrt PosInf = PosInf"
| "js_sqrt _ = NaN"

text \<open>
  The comparisons \<^verbatim>\<open>a < b\<close> and \<^verbatim>\<open>a >= b\<close>: both are false as soon as
  one side is \<open>NaN\<close>.
\<close>

fun js_lt :: "jsnum \<Rightarrow> jsnum \<Rightarrow> bool" where
  "js_lt (Num x) (Num y) = (x < y)"
| "js_lt NaN _ = False"
| "js_lt _ NaN = False"
| "js_lt _ NegInf = False"
| "js_lt NegInf _ = True"
| "js_lt PosInf _ = False"
| "js_lt _ PosInf = True"

definition js_ge :: "jsnum \<Rightarrow> jsnum \<Rightarrow> bool" where
  "js_ge a b = (a \<noteq> NaN \<and> b \<noteq> NaN \<and> \<not> js_lt a b)"

text \<open>
  \<^verbatim>\<open>Math.round\<close> rounds to the nearest integer, a tie towards \<open>+\<infinity>\<close>.
\<close>

definition math_round :: "real \<Rightarrow> int" where
  "math_round x = \<lfloor>x + 1 / 2\<rfloor>"

fun js_round :: "jsnum \<Rightarrow> jsnum" where
  "js_round (Num x) = Num (of_int (math_round x))"
| "js_round i = i"

text \<open>
  Truthiness of a number, and \<^verbatim>\<open>a || b\<close> on numbers: zero and \<open>NaN\<close> are falsy.
\<close>

definition js_truthy :: "jsnum \<Rightarrow> bool" where
  "js_truthy a = (a \<noteq> NaN \<and> a \<noteq> Num 0)"

definition js_or :: "jsnum \<Rightarrow> jsnum \<Rightarrow> jsnum" where
  "js_or a b = (if js_truthy a then a else b)"

subsection \<open>Double precision\<close>

text \<open>
  The arithmetic of a JavaScript \<^verbatim>\<open>number\<close> is that of IEEE 754 binary64:
  the result of an operation on finite operands is the exact result rounded to
  the nearest double, a tie going to the double whose significand is even.
  \<open>rne\<close> rounds a real to the nearest integer, a tie to the even one. A double
  is an integer multiple of \<open>2 powi (e - 52)\<close>, where \<open>e\<close> is the exponent of
  its binade, at least \<open>-1022\<close> (below \<open>2 powi (-1022)\<close> the doubles are the
  multiples of \<open>2 powi (-1074)\<close>); a result that rounds to \<open>2 ^ 1024\<close> or more
  in magnitude is an infinity.
\<close>

definition rne :: "real \<Rightarrow> int" where
  "rne q =
     (let n = \<lfloor>q\<rfloor>; f = q - of_int n
      in if f < 1 / 2 then n else if 1 / 2 < f then n + 1 else if even n then n else n + 1)"

definition exponent64 :: "real \<Rightarrow> int" where
  "exponent64 x = max \<lfloor>log 2 \<bar>x\<bar>\<rfloor> (- 1022)"

definition nearest64 :: "real \<Rightarrow> real" where
  "nearest64 x =
     (if x = 0 then 0
      else of_int (rne (x / 2 powi (exponent64 x - 52))) * 2 powi (exponent64 x - 52))"

definition round64 :: "real \<Rightarrow> jsnum" where
  "round64 x =
     (let r = nearest64 x
      in if 2 ^ 1024 \<le> r then PosInf else if r \<le> - (2 ^ 1024) then NegInf else Num r)"

text \<open>
  The result of an operation in double precision: the exact result, rounded when
  it is finite.
\<close>

fun rounded :: "jsnum \<Rightarrow> jsnum" where
  "rounded (Num r) = round64 r"
| "rounded i = i"

text \<open>A real number that is a double: rounding leaves it as it is.\<close>

definition is_double :: "real \<Rightarrow> bool" where
  "is_double x = (round64 x = Num x)"

subsection \<open>The quantizer (\<^verbatim>\<open>quantizeEmbedding\<close>, mongo-upsert)\<close>

text \<open>
  \<^verbatim>\<open>
  function quantizeEmbedding(embedding: number[]): number[] {
    let min = Infinity;
    let max = -Infinity;
    for (const value of embedding) {
      if (value < min) min = value;
      if (value > max) max = value;
    }
    const range = max - min || 1;
    return embedding.map((value) => {
      const normalized = (value - min) / range;
      return Math.round(normalized * 255 - 128);
    });
  }
  \<close>
  The loop is \<open>min_max_loop\<close>, started at \<open>(PosInf, NegInf)\<close>. The input comes
  from the request body, so its components are finite. The comparisons are exact;
  the subtractions, the division and the multiplication are rounded.
  \<^verbatim>\<open>Math.round\<close> of a double is exact.
\<close>

fun min_max_loop :: "real list \<Rightarrow> jsnum \<times> jsnum \<Rightarrow> jsnum \<times> jsnum" where
  "min_max_loop [] mm = mm"
| "min_max_loop (v # rest) (mn, mx) =
     min_max_loop rest
       (if js_lt (Num v) mn then Num v else mn,
        if js_lt mx (Num v) then Num v else mx)"

definition quantizeEmbedding :: "real list \<Rightarrow> jsnum list" where
  "quantizeEmbedding embedding =
     (let (mn, mx) = min_max_loop embedding (PosInf, NegInf);
          range = js_or (rounded (js_sub mx mn)) (Num 1)
      in map (\<lambda>v. let normalized = rounded (js_div (rounded (js_sub (Num v) mn)) range)
                  in js_round (rounded (js_sub (rounded (js_mul normalized (Num 255))) (Num 128))))
             embedding)"

text \<open>
  The vocabulary of the quantizer's specification: the range that replaces a zero
  spread by 1, and the 8-bit value of one component, each operation rounded.
\<close>

definition quant_range :: "real list \<Rightarrow> jsnum" where
  "quant_range e =
     (if round64 (Max (set e) - Min (set e)) = Num 0 then Num 1
      else round64 (Max (set e) - Min (set e)))"

definition quant_entry :: "real list \<Rightarrow> real \<Rightarrow> jsnum" where
  "quant_entry e v =
     js_round (rounded (js_sub
       (rounded (js_mul (rounded (js_div (round64 (v - Min (set e))) (quant_range e))) (Num 255)))
       (Num 128)))"

subsection \<open>Stored documents and the search request\<close>

text \<open>
  A stored document is a record of the MongoDB collection \<^verbatim>\<open>document_chunks\<close>.
  Its embedding is optional: \<open>None\<close> is a document without the field. Metadata
  is an association list of JSON values, in key order.
\<close>

datatype jvalue = JString string | JBool bool | JNumber real | JNull

record bounding_box =
  bb_left :: real
  bb_top :: real
  bb_width :: real
  bb_height :: real

record stored_doc =
  doc_id :: nat
  doc_text :: string
  doc_embedding :: "jsnum list option"
  doc_embedding_dimensions :: "nat option"
  doc_file_number :: string
  doc_source_url :: string
  doc_page_number :: nat
  doc_bbox :: bounding_box
  doc_chunk_index :: nat
  doc_metadata :: "(string \<times> jvalue) list"




subsection \<open>The retrieval scorer (\<^verbatim>\<open>handleSearch\<close>, mongo-upsert)\<close>

text \<open>
  \<^verbatim>\<open>
  const cosineSim = (a: number[], b: number[]): number => {
    if (!a || !b || a.length !== b.length) return 0;
    let dot = 0, magA = 0, magB = 0;
    for (let i = 0; i < a.length; i++) {
      dot += a[i] * b[i];
      magA += a[i] * a[i];
      magB += b[i] * b[i];
    }
    return dot / (Math.sqrt(magA) * Math.sqrt(magB));
  };
  \<close>
  An argument is \<open>None\<close> when it is \<^verbatim>\<open>undefined\<close> or \<^verbatim>\<open>null\<close>, the only
  values of type \<^verbatim>\<open>number[]\<close> that \<^verbatim>\<open>!a\<close> accepts: an array, empty or
  not, is truthy.
\<close>

fun cosine_loop ::
  "jsnum list \<Rightarrow> jsnum list \<Rightarrow> jsnum \<times> jsnum \<times> jsnum \<Rightarrow> jsnum \<times> jsnum \<times> jsnum" where
  "cosine_loop (x # xs) (y # ys) (dot, magA, magB) =
     cosine_loop xs ys
       (js_add dot (js_mul x y), js_add magA (js_mul x x), js_add magB (js_mul y y))"
| "cosine_loop _ _ acc = acc"

definition cosineSim :: "jsnum list option \<Rightarrow> jsnum list option \<Rightarrow> jsnum" where
  "cosineSim a b =
     (case (a, b) of
        (Some va, Some vb) \<Rightarrow>
          if length va \<noteq> length vb then Num 0
          else (let (dot, magA, magB) = cosine_loop va vb (Num 0, Num 0, Num 0)
                in js_div dot (js_mul (js_sqrt magA) (js_sqrt magB)))
      | _ \<Rightarrow> Num 0)"



text \<open>
  \<^verbatim>\<open>xs.slice(0, end)\<close>: \<open>end\<close> is truncated towards zero; a negative \<open>end\<close>
  counts from the end of the array.
\<close>

definition to_integer :: "real \<Rightarrow> int" where
  "to_integer x = (if x < 0 then \<lceil>x\<rceil> else \<lfloor>x\<rfloor>)"

definition js_slice0 :: "real \<Rightarrow> 'a list \<Rightarrow> 'a list" where
  "js_slice0 en xs =
     (let len = int (length xs);
          relEnd = to_integer en;
          final = (if relEnd < 0 then max (len + relEnd) 0 else min relEnd len)
      in take (nat final) xs)"







text \<open>
  The vocabulary of the scorer's specification: a list of scored documents in
  descending order of score, the scored candidates that reach the threshold (in
  storage order), and a stored document with a given vector for the examples.
\<close>

definition descending :: "('a \<times> jsnum) list \<Rightarrow> bool" where
  "descending xs = sorted_wrt (\<lambda>a b. js_ge (snd a) (snd b)) xs"



subsection \<open>Strings and regular expressions\<close>

text \<open>
  Character classes of JavaScript regular expressions on code units below 256:
  \<^verbatim>\<open>\s\<close> (tab, line feed, vertical tab, form feed, carriage return, space,
  no-break space), \<^verbatim>\<open>\d\<close>, and \<^verbatim>\<open>\w\<close>, which decides the word boundary
  \<^verbatim>\<open>\b\<close>.
\<close>

definition newline :: char where
  "newline = CHR 0x0A"

definition is_space :: "char \<Rightarrow> bool" where
  "is_space c = (c \<in> set [CHR 0x09, CHR 0x0A, CHR 0x0B, CHR 0x0C, CHR 0x0D, CHR 0x20, CHR 0xA0])"

definition is_digit :: "char \<Rightarrow> bool" where
  "is_digit c = (48 \<le> (of_char c :: nat) \<and> (of_char c :: nat) \<le> 57)"

definition is_upper :: "char \<Rightarrow> bool" where
  "is_upper c = (65 \<le> (of_char c :: nat) \<and> (of_char c :: nat) \<le> 90)"

definition is_lower :: "char \<Rightarrow> bool" where
  "is_lower c = (97 \<le> (of_char c :: nat) \<and> (of_char c :: nat) \<le> 122)"

definition is_word :: "char \<Rightarrow> bool" where
  "is_word c = (is_digit c \<or> is_upper c \<or> is_lower c \<or> c = CHR ''_'')"

text \<open>
  With the flag \<^verbatim>\<open>i\<close> two characters match when their upper-case forms are
  equal; a character outside ASCII never matches an ASCII letter.
\<close>

definition ascii_upper :: "char \<Rightarrow> char" where
  "ascii_upper c = (if is_lower c then char_of ((of_char c :: nat) - 32) else c)"

definition ci_eq :: "char \<Rightarrow> char \<Rightarrow> bool" where
  "ci_eq c p = (ascii_upper c = ascii_upper p)"

text \<open>
  \<^verbatim>\<open>String.prototype.toLowerCase\<close> on code units below 256: the letters A to Z
  and the Latin-1 capitals (0xC0 to 0xDE without the multiplication sign 0xD7).
\<close>

definition lower_char :: "char \<Rightarrow> char" where
  "lower_char c =
     (let n = (of_char c :: nat)
      in if (65 \<le> n \<and> n \<le> 90) \<or> (192 \<le> n \<and> n \<le> 222 \<and> n \<noteq> 215)
         then char_of (n + 32) else c)"

definition toLowerCase :: "string \<Rightarrow> string" where
  "toLowerCase s = map lower_char s"

text \<open>\<^verbatim>\<open>String.prototype.trim\<close> and \<^verbatim>\<open>String.prototype.includes\<close>.\<close>

definition trim :: "string \<Rightarrow> string" where
  "trim s = rev (dropWhile is_space (rev (dropWhile is_space s)))"

fun starts_with :: "string \<Rightarrow> string \<Rightarrow> bool" where
  "starts_with s [] = True"
| "starts_with [] (p # ps) = False"
| "starts_with (c # cs) (p # ps) = (c = p \<and> starts_with cs ps)"

fun str_includes :: "string \<Rightarrow> string \<Rightarrow> bool" where
  "str_includes [] t = (t = [])"
| "str_includes (c # cs) t = (starts_with (c # cs) t \<or> str_includes cs t)"

text \<open>
  \<^verbatim>\<open>s.replace(/re/g, rep)\<close>. The regular expression is given by its matcher:
  from the character before the position (\<open>None\<close> at the start of the string)
  and the rest of the string, the length of the match that starts at the position,
  if there is one. The scan goes from left to right, continues behind a match, and
  never looks at the text already replaced. No expression of the source matches the
  empty string.
\<close>

function replace_all ::
  "(char option \<Rightarrow> string \<Rightarrow> nat option) \<Rightarrow> string \<Rightarrow> char option \<Rightarrow> string \<Rightarrow> string" where
  "replace_all m rep prev [] = []"
| "replace_all m rep prev (c # cs) =
     (case m prev (c # cs) of
        Some (Suc n) \<Rightarrow> rep @ replace_all m rep (Some (last (c # take n cs))) (drop n cs)
      | _ \<Rightarrow> c # replace_all m rep (Some c) cs)"
  by pat_completeness auto
termination
  by (relation "measure (\<lambda>(m, rep, prev, s). length s)") auto

text \<open>
  The pieces of the matchers: a literal compared without case, and one or more
  characters of a class (greedy). Each returns the rest of the string behind what
  it matched. In every expression below, a greedy class is followed by a character
  outside the class, so the greedy match is the only one and there is nothing to
  backtrack into.
\<close>

fun lit_ci :: "string \<Rightarrow> string \<Rightarrow> string option" where
  "lit_ci [] s = Some s"
| "lit_ci (p # ps) [] = None"
| "lit_ci (p # ps) (c # cs) = (if ci_eq c p then lit_ci ps cs else None)"

definition many1 :: "(char \<Rightarrow> bool) \<Rightarrow> string \<Rightarrow> string option" where
  "many1 P s = (case s of [] \<Rightarrow> None | c # cs \<Rightarrow> if P c then Some (dropWhile P cs) else None)"

definition matched_length :: "string \<Rightarrow> string option \<Rightarrow> nat option" where
  "matched_length s r = (case r of None \<Rightarrow> None | Some rest \<Rightarrow> Some (length s - length rest))"

text \<open>\<^verbatim>\<open>/\s+/\<close>\<close>

definition m_spaces :: "char option \<Rightarrow> string \<Rightarrow> nat option" where
  "m_spaces prev s = matched_length s (many1 is_space s)"

text \<open>\<^verbatim>\<open>/Page\s+\d+\s+of\s+\d+/i\<close>\<close>

definition m_footer :: "char option \<Rightarrow> string \<Rightarrow> nat option" where
  "m_footer prev s =
     matched_length s
       (Option.bind (Option.bind (Option.bind (Option.bind (Option.bind (Option.bind
          (lit_ci ''Page'' s) (many1 is_space)) (many1 is_digit)) (many1 is_space))
          (lit_ci ''of'')) (many1 is_space)) (many1 is_digit))"

text \<open>\<^verbatim>\<open>/\n{3,}/\<close>\<close>

definition m_newlines3 :: "char option \<Rightarrow> string \<Rightarrow> nat option" where
  "m_newlines3 prev s =
     (let n = length (takeWhile (\<lambda>c. c = newline) s) in if 3 \<le> n then Some n else None)"

text \<open>
  \<^verbatim>\<open>new RegExp(`\\b${term}\\b`, "i")\<close> for a term without regular-expression
  metacharacters (every key of the synonym table is one): the term, compared
  without case, between two word boundaries. A word boundary separates a word
  character from a character that is none, or from an end of the string.
\<close>

definition word_at :: "char option \<Rightarrow> bool" where
  "word_at c = (case c of None \<Rightarrow> False | Some d \<Rightarrow> is_word d)"

definition boundary :: "char option \<Rightarrow> char option \<Rightarrow> bool" where
  "boundary l r = (word_at l \<noteq> word_at r)"

definition first_char :: "string \<Rightarrow> char option" where
  "first_char s = (case s of [] \<Rightarrow> None | c # cs \<Rightarrow> Some c)"

definition last_char :: "string \<Rightarrow> char option" where
  "last_char s = (case rev s of [] \<Rightarrow> None | c # cs \<Rightarrow> Some c)"

definition m_word :: "string \<Rightarrow> char option \<Rightarrow> string \<Rightarrow> nat option" where
  "m_word abbr prev s =
     (case lit_ci abbr s of
        None \<Rightarrow> None
      | Some rest \<Rightarrow>
          if boundary prev (first_char s)
             \<and> boundary (last_char (take (length abbr) s)) (first_char rest)
          then Some (length abbr) else None)"

subsection \<open>Text cleaning (\<^verbatim>\<open>cleanText\<close>, reducto-parse)\<close>

text \<open>
  \<^verbatim>\<open>
  function cleanText(content: string): string {
    return content
      .replace(/\s+/g, " ")
      .replace(/Page\s+\d+\s+of\s+\d+/gi, "")
      .replace(/\n{3,}/g, "\n\n")
      .trim();
  }
  \<close>
\<close>

definition cleanText :: "string \<Rightarrow> string" where
  "cleanText content =
     trim (replace_all m_newlines3 [newline, newline] None
            (replace_all m_footer [] None
              (replace_all m_spaces '' '' None content)))"

subsection \<open>Query enrichment (\<^verbatim>\<open>enhanceQuery\<close>, voyage-embed)\<close>

text \<open>
  \<^verbatim>\<open>
  function enhanceQuery(query: string): string {
    const zoningTerms: Record<string, string> = { "rto": "RTO Residential Transit Oriented", ... };
    let enhancedQuery = query.toLowerCase();
    for (const [term, expansion] of Object.entries(zoningTerms)) {
      if (enhancedQuery.includes(term)) {
        enhancedQuery = enhancedQuery.replace(new RegExp(`\\b${term}\\b`, "gi"), expansion);
      }
    }
    return enhancedQuery;
  }
  \<close>
  \<^verbatim>\<open>Object.entries\<close> lists the keys in the order of the literal.
\<close>

definition zoningTerms :: "(string \<times> string) list" where
  "zoningTerms =
     [(''rto'', ''RTO Residential Transit Oriented''),
      (''rto-c'', ''RTO-C Residential Transit Oriented Commercial''),
      (''rto-m'', ''RTO-M Residential Transit Oriented Mixed''),
      (''nc'', ''NC Neighborhood Commercial''),
      (''rm'', ''RM Residential Mixed''),
      (''rh'', ''RH Residential House''),
      (''c-3'', ''C-3 Downtown Commercial''),
      (''soma'', ''South of Market SOMA''),
      (''builder's remedy'', ''Builder's Remedy Housing Accountability Act HAA''),
      (''housing element'', ''Housing Element General Plan''),
      (''ceqa'', ''California Environmental Quality Act CEQA''),
      (''eir'', ''Environmental Impact Report EIR'')]"

definition expand_term :: "string \<Rightarrow> string \<times> string \<Rightarrow> string" where
  "expand_term enhancedQuery te =
     (if str_includes enhancedQuery (fst te)
      then replace_all (m_word (fst te)) (snd te) None enhancedQuery
      else enhancedQuery)"

definition enhanceQuery :: "string \<Rightarrow> string" where
  "enhanceQuery query = foldl expand_term (toLowerCase query) zoningTerms"

subsection \<open>The chunk normalizer (\<^verbatim>\<open>transformPipelineResponse\<close>, reducto-parse)\<close>

text \<open>
  The canonical chunk (\<^verbatim>\<open>ReductoChunk\<close>) and the raw shapes of the extraction
  response that the normalizer reads. A field that may be missing is an option.
  A top-level chunk is an arbitrary JSON object: the record keeps its
  \<^verbatim>\<open>content\<close>, its \<^verbatim>\<open>text\<close> and its serialisation \<^verbatim>\<open>JSON.stringify(chunk)\<close>.
\<close>

record chunk =
  chunk_text :: string
  page_number :: nat
  bbox :: bounding_box
  chunk_index :: nat
  chunk_section :: "string option"
  table_detected :: bool

record raw_bbox =
  rb_left :: "real option"
  rb_top :: "real option"
  rb_width :: "real option"
  rb_height :: "real option"
  rb_page :: "nat option"

record block =
  block_type :: "string option"
  block_content :: "string option"
  block_text :: "string option"
  block_bbox :: "raw_bbox option"

record result_chunk =
  rc_content :: "string option"
  rc_blocks :: "block list option"

record toplevel_chunk =
  tc_content :: "string option"
  tc_text :: "string option"
  tc_json :: string

record reducto_result =
  res_chunks :: "result_chunk list option"
  res_blocks :: "block list option"
  res_markdown :: "string option"
  res_text :: "string option"

record pipeline_response =
  pr_result :: "reducto_result option"
  pr_chunks :: "toplevel_chunk list option"
  pr_markdown :: "string option"
  pr_text :: "string option"

text \<open>
  \<^verbatim>\<open>detectSection\<close> and \<^verbatim>\<open>detectTableContent\<close> are pattern matches on the raw
  text that only fill the metadata of a chunk. They are parameters of the
  normalizer here: everything proved below holds for every pair of detectors.
\<close>

record detectors =
  detectSection :: "string \<Rightarrow> string option"
  detectTableContent :: "string \<Rightarrow> bool"

text \<open>
  \<^verbatim>\<open>a || b\<close> on optional strings and numbers: a missing value, the empty string
  and zero are falsy.
\<close>

definition truthy_str :: "string option \<Rightarrow> bool" where
  "truthy_str s = (case s of None \<Rightarrow> False | Some t \<Rightarrow> t \<noteq> [])"

definition str_or :: "string option \<Rightarrow> string option \<Rightarrow> string option" where
  "str_or a b = (if truthy_str a then a else b)"

definition str_of :: "string option \<Rightarrow> string" where
  "str_of s = (case s of None \<Rightarrow> [] | Some t \<Rightarrow> t)"

definition real_or :: "real option \<Rightarrow> real \<Rightarrow> real" where
  "real_or a d = (case a of None \<Rightarrow> d | Some v \<Rightarrow> if v = 0 then d else v)"

definition nat_or :: "nat option \<Rightarrow> nat \<Rightarrow> nat" where
  "nat_or a d = (case a of None \<Rightarrow> d | Some v \<Rightarrow> if v = 0 then d else v)"

definition full_page :: bounding_box where
  "full_page = \<lparr>bb_left = 0, bb_top = 0, bb_width = 612, bb_height = 792\<rparr>"

text \<open>
  \<^verbatim>\<open>
  function createChunkFromBlock(block, index) {
    const bboxData = block.bbox;
    const bbox = bboxData
      ? { left: bboxData.left || 0, top: bboxData.top || 0,
          width: bboxData.width || 612, height: bboxData.height || 792 }
      : { left: 0, top: 0, width: 612, height: 792 };
    const content = String(block.content || block.text || "");
    const pageNumber = bboxData?.page || 1;
    return { text: cleanText(content), page_number: pageNumber, bbox: bbox, chunk_index: index,
             metadata: { section: detectSection(content),
                         table_detected: block.type === "table" || detectTableContent(content) } };
  }
  \<close>
\<close>

definition createChunkFromBlock :: "detectors \<Rightarrow> block \<Rightarrow> nat \<Rightarrow> chunk" where
  "createChunkFromBlock det b i =
     (let bbox' = (case block_bbox b of
                     Some bd \<Rightarrow> \<lparr>bb_left = real_or (rb_left bd) 0, bb_top = real_or (rb_top bd) 0,
                                 bb_width = real_or (rb_width bd) 612,
                                 bb_height = real_or (rb_height bd) 792\<rparr>
                   | None \<Rightarrow> full_page);
          content = str_of (str_or (block_content b) (block_text b));
          pageNumber = (case block_bbox b of Some bd \<Rightarrow> nat_or (rb_page bd) 1 | None \<Rightarrow> 1)
      in \<lparr>chunk_text = cleanText content, page_number = pageNumber, bbox = bbox',
          chunk_index = i, chunk_section = detectSection det content,
          table_detected = (block_type b = Some ''table'' \<or> detectTableContent det content)\<rparr>)"

definition createChunkFromText :: "detectors \<Rightarrow> string \<Rightarrow> nat \<Rightarrow> chunk" where
  "createChunkFromText det t i =
     \<lparr>chunk_text = cleanText t, page_number = 1, bbox = full_page, chunk_index = i,
      chunk_section = detectSection det t, table_detected = detectTableContent det t\<rparr>"

text \<open>
  The loops of \<^verbatim>\<open>transformPipelineResponse\<close> push onto \<^verbatim>\<open>chunks\<close> and count
  \<^verbatim>\<open>chunkIndex\<close> up; the state of a loop is the pair of both.

  Format 1, \<^verbatim>\<open>result.chunks[].blocks[]\<close>:
  \<^verbatim>\<open>
  for (const chunk of response.result.chunks) {
    for (const block of chunk.blocks || []) {
      chunks.push(createChunkFromBlock(block, chunkIndex++));
    }
    if (chunk.content && (!chunk.blocks || chunk.blocks.length === 0)) {
      chunks.push(createChunkFromText(chunk.content, chunkIndex++));
    }
  }
  \<close>
\<close>

fun push_blocks :: "detectors \<Rightarrow> block list \<Rightarrow> chunk list \<times> nat \<Rightarrow> chunk list \<times> nat" where
  "push_blocks det [] st = st"
| "push_blocks det (b # bs) (chunks, chunkIndex) =
     push_blocks det bs (chunks @ [createChunkFromBlock det b chunkIndex], Suc chunkIndex)"

definition push_text :: "detectors \<Rightarrow> string \<Rightarrow> chunk list \<times> nat \<Rightarrow> chunk list \<times> nat" where
  "push_text det t st = (fst st @ [createChunkFromText det t (snd st)], Suc (snd st))"

fun result_chunks_loop ::
  "detectors \<Rightarrow> result_chunk list \<Rightarrow> chunk list \<times> nat \<Rightarrow> chunk list \<times> nat" where
  "result_chunks_loop det [] st = st"
| "result_chunks_loop det (c # cs) st =
     (let st1 = push_blocks det (case rc_blocks c of None \<Rightarrow> [] | Some bs \<Rightarrow> bs) st;
          st2 = (if truthy_str (rc_content c) \<and> (rc_blocks c = None \<or> rc_blocks c = Some [])
                 then push_text det (str_of (rc_content c)) st1 else st1)
      in result_chunks_loop det cs st2)"

text \<open>
  Format 3, top-level chunks:
  \<^verbatim>\<open>
  for (const chunk of response.chunks) {
    const text = chunk.content || chunk.text || JSON.stringify(chunk);
    chunks.push(createChunkFromText(String(text), chunkIndex++));
  }
  \<close>
\<close>

fun toplevel_chunks_loop ::
  "detectors \<Rightarrow> toplevel_chunk list \<Rightarrow> chunk list \<times> nat \<Rightarrow> chunk list \<times> nat" where
  "toplevel_chunks_loop det [] st = st"
| "toplevel_chunks_loop det (c # cs) st =
     toplevel_chunks_loop det cs
       (push_text det (str_of (str_or (str_or (tc_content c) (tc_text c)) (Some (tc_json c)))) st)"

text \<open>
  Format 4, markdown or text: \<^verbatim>\<open>text.split(/\n\n+/)\<close> cuts the text at every run
  of two or more line feeds (an empty piece stands before a run at the start and
  behind a run at the end), and
  \<^verbatim>\<open>
  for (const para of paragraphs) {
    if (para.trim().length > 10) {
      chunks.push(createChunkFromText(para.trim(), chunkIndex++));
    }
  }
  \<close>
\<close>

function split_blank_lines :: "string \<Rightarrow> string \<Rightarrow> string list" where
  "split_blank_lines piece [] = [rev piece]"
| "split_blank_lines piece (c # cs) =
     (if c = newline \<and> starts_with cs [newline]
      then rev piece # split_blank_lines [] (dropWhile (\<lambda>d. d = newline) cs)
      else split_blank_lines (c # piece) cs)"
  by pat_completeness auto
termination
  by (relation "measure (\<lambda>(piece, s). length s)")
     (auto simp: le_imp_less_Suc length_dropWhile_le)

fun paragraphs_loop :: "detectors \<Rightarrow> string list \<Rightarrow> chunk list \<times> nat \<Rightarrow> chunk list \<times> nat" where
  "paragraphs_loop det [] st = st"
| "paragraphs_loop det (para # paras) st =
     paragraphs_loop det paras
       (if 10 < length (trim para) then push_text det (trim para) st else st)"

text \<open>The four strategies, each on the part of the response it reads.\<close>

definition from_result_chunks :: "detectors \<Rightarrow> result_chunk list \<Rightarrow> chunk list" where
  "from_result_chunks det cs = fst (result_chunks_loop det cs ([], 0))"

definition from_result_blocks :: "detectors \<Rightarrow> block list \<Rightarrow> chunk list" where
  "from_result_blocks det bs = fst (push_blocks det bs ([], 0))"

definition from_toplevel_chunks :: "detectors \<Rightarrow> toplevel_chunk list \<Rightarrow> chunk list" where
  "from_toplevel_chunks det cs = fst (toplevel_chunks_loop det cs ([], 0))"

definition from_markdown :: "detectors \<Rightarrow> string \<Rightarrow> chunk list" where
  "from_markdown det t = fst (paragraphs_loop det (split_blank_lines [] t) ([], 0))"

text \<open>
  \<^verbatim>\<open>
  if (response.result?.chunks && response.result.chunks.length > 0) { ... }
  else if (response.result?.blocks && response.result.blocks.length > 0) { ... }
  else if (response.chunks && Array.isArray(response.chunks)) { ... }
  else if (response.result?.markdown || response.result?.text || response.markdown || response.text) {
    const text = response.result?.markdown || response.result?.text || response.markdown || response.text || "";
    ...
  }
  else { console.warn(...) }
  return chunks;
  \<close>
  \<open>pr_chunks\<close> is \<open>None\<close> when \<^verbatim>\<open>response.chunks\<close> is missing or is no array.
\<close>

definition result_field :: "pipeline_response \<Rightarrow> (reducto_result \<Rightarrow> 'a option) \<Rightarrow> 'a option" where
  "result_field response f = (case pr_result response of None \<Rightarrow> None | Some r \<Rightarrow> f r)"

definition markdown_or_text :: "pipeline_response \<Rightarrow> string option" where
  "markdown_or_text response =
     str_or (str_or (str_or (result_field response res_markdown) (result_field response res_text))
                    (pr_markdown response))
            (pr_text response)"

definition transformPipelineResponse :: "detectors \<Rightarrow> pipeline_response \<Rightarrow> chunk list" where
  "transformPipelineResponse det response =
     (case result_field response res_chunks of
        Some (c # cs) \<Rightarrow> from_result_chunks det (c # cs)
      | _ \<Rightarrow>
        (case result_field response res_blocks of
           Some (b # bs) \<Rightarrow> from_result_blocks det (b # bs)
         | _ \<Rightarrow>
           (case pr_chunks response of
              Some tcs \<Rightarrow> from_toplevel_chunks det tcs
            | None \<Rightarrow>
                if truthy_str (markdown_or_text response)
                then from_markdown det (str_of (markdown_or_text response))
                else [])))"

text \<open>Detectors that find nothing, for the examples.\<close>

definition no_detectors :: detectors where
  "no_detectors = \<lparr>detectSection = (\<lambda>t. None), detectTableContent = (\<lambda>t. False)\<rparr>"

text \<open>
  The vocabulary of the normalizer's specification: an array field is populated
  when it is present and not empty.
\<close>

definition populated :: "'a list option \<Rightarrow> bool" where
  "populated xs = (case xs of Some (y # ys) \<Rightarrow> True | _ \<Rightarrow> False)"

subsection \<open>Shared helpers (\<^verbatim>\<open>_shared/utils.ts\<close>)\<close>

text \<open>
  \<^verbatim>\<open>
  export function chunkArray<T>(array: T[], size: number): T[][] {
    const chunks: T[][] = [];
    for (let i = 0; i < array.length; i += size) {
      chunks.push(array.slice(i, i + size));
    }
    return chunks;
  }
  \<close>
  With size 0 and a non-empty array the loop never ends: \<open>chunkArray\<close> is
  \<open>None\<close> there. \<open>chunks_of\<close> is the loop for a positive size.
\<close>

function chunks_of :: "'a list \<Rightarrow> nat \<Rightarrow> 'a list list" where
  "chunks_of array sz =
     (if array = [] \<or> sz = 0 then []
      else take sz array # chunks_of (drop sz array) sz)"
  by pat_completeness auto
termination
  by (relation "measure (\<lambda>(array, sz). length array)") auto

declare chunks_of.simps [simp del]

definition chunkArray :: "'a list \<Rightarrow> nat \<Rightarrow> 'a list list option" where
  "chunkArray array sz =
     (if sz = 0 \<and> array \<noteq> [] then None else Some (chunks_of array sz))"

subsection \<open>The upsert engine (\<^verbatim>\<open>handleUpsert\<close>, mongo-upsert)\<close>

text \<open>
  A document of the upsert request. \<^verbatim>\<open>metadata\<close> is optional.
\<close>

record upsert_doc =
  ud_text :: string
  ud_embedding :: "real list"
  ud_file_number :: string
  ud_source_url :: string
  ud_page_number :: nat
  ud_bbox :: bounding_box
  ud_chunk_index :: nat
  ud_metadata :: "(string \<times> jvalue) list option"

definition BATCH_SIZE :: nat where
  "BATCH_SIZE = 100"

text \<open>
  The object \<^verbatim>\<open>{ ...m, key: v }\<close>: the key keeps its place when \<^verbatim>\<open>m\<close> has it
  and is added last otherwise.
\<close>

fun obj_set :: "string \<Rightarrow> 'v \<Rightarrow> (string \<times> 'v) list \<Rightarrow> (string \<times> 'v) list" where
  "obj_set k v [] = [(k, v)]"
| "obj_set k v (kv # kvs) = (if fst kv = k then (k, v) # kvs else kv # obj_set k v kvs)"

text \<open>
  One bulk operation of \<^verbatim>\<open>handleUpsert\<close> for a document \<open>doc\<close>, prepared when
  the clock reads \<open>now\<close> (\<^verbatim>\<open>new Date().toISOString()\<close>):
  \<^verbatim>\<open>
  updateOne: {
    filter: { source_url: doc.source_url, chunk_index: doc.chunk_index },
    update: { $set: { text: doc.text, embedding: quantizeEmbedding(doc.embedding),
                      embedding_dimensions: doc.embedding.length, file_number: doc.file_number,
                      source_url: doc.source_url, page_number: doc.page_number, bbox: doc.bbox,
                      chunk_index: doc.chunk_index,
                      metadata: { ...doc.metadata, embedded_at: new Date().toISOString() } } },
    upsert: true }
  \<close>
  \<open>op_filter\<close> is the filter and \<open>op_set\<close> the effect of \<^verbatim>\<open>$set\<close> on a stored
  document.
\<close>

definition doc_key :: "stored_doc \<Rightarrow> string \<times> nat" where
  "doc_key d = (doc_source_url d, doc_chunk_index d)"

definition upsert_key :: "upsert_doc \<Rightarrow> string \<times> nat" where
  "upsert_key doc = (ud_source_url doc, ud_chunk_index doc)"

definition op_filter :: "upsert_doc \<Rightarrow> stored_doc \<Rightarrow> bool" where
  "op_filter doc d = (doc_source_url d = ud_source_url doc \<and> doc_chunk_index d = ud_chunk_index doc)"

definition op_set :: "upsert_doc \<Rightarrow> string \<Rightarrow> stored_doc \<Rightarrow> stored_doc" where
  "op_set doc now d =
     d\<lparr>doc_text := ud_text doc,
       doc_embedding := Some (quantizeEmbedding (ud_embedding doc)),
       doc_embedding_dimensions := Some (length (ud_embedding doc)),
       doc_file_number := ud_file_number doc,
       doc_source_url := ud_source_url doc,
       doc_page_number := ud_page_number doc,
       doc_bbox := ud_bbox doc,
       doc_chunk_index := ud_chunk_index doc,
       doc_metadata := obj_set ''embedded_at'' (JString now)
                         (case ud_metadata doc of None \<Rightarrow> [] | Some m \<Rightarrow> m)\<rparr>"

text \<open>
  MongoDB's \<^verbatim>\<open>updateOne\<close> with \<^verbatim>\<open>upsert: true\<close> on the collection, a list of
  documents in storage order. The first document that matches the filter is
  updated; it counts as modified only when the update changes it. When no
  document matches, a new one is inserted with a fresh \<^verbatim>\<open>_id\<close> and counts as
  upserted.
\<close>

fun update_first ::
  "(stored_doc \<Rightarrow> bool) \<Rightarrow> (stored_doc \<Rightarrow> stored_doc) \<Rightarrow> stored_doc list
     \<Rightarrow> (stored_doc list \<times> nat) option" where
  "update_first P f [] = None"
| "update_first P f (d # ds) =
     (if P d then Some (f d # ds, if f d = d then 0 else 1)
      else (case update_first P f ds of
              None \<Rightarrow> None
            | Some (ds', m) \<Rightarrow> Some (d # ds', m)))"

definition fresh_id :: "stored_doc list \<Rightarrow> nat" where
  "fresh_id store = Suc (fold max (map doc_id store) 0)"

definition blank_doc :: "nat \<Rightarrow> stored_doc" where
  "blank_doc i =
     \<lparr>doc_id = i, doc_text = [], doc_embedding = None, doc_embedding_dimensions = None,
      doc_file_number = [], doc_source_url = [], doc_page_number = 0,
      doc_bbox = \<lparr>bb_left = 0, bb_top = 0, bb_width = 0, bb_height = 0\<rparr>,
      doc_chunk_index = 0, doc_metadata = []\<rparr>"

record write_result =
  upsertedCount :: nat
  modifiedCount :: nat

definition updateOne :: "stored_doc list \<Rightarrow> upsert_doc \<times> string \<Rightarrow> stored_doc list \<times> write_result" where
  "updateOne store op =
     (case update_first (op_filter (fst op)) (op_set (fst op) (snd op)) store of
        Some (store', m) \<Rightarrow> (store', \<lparr>upsertedCount = 0, modifiedCount = m\<rparr>)
      | None \<Rightarrow>
          (store @ [op_set (fst op) (snd op) (blank_doc (fresh_id store))],
           \<lparr>upsertedCount = 1, modifiedCount = 0\<rparr>))"

text \<open>\<^verbatim>\<open>collection.bulkWrite(bulkOps)\<close>: the operations in order, the counts added up.\<close>

fun bulkWrite :: "stored_doc list \<Rightarrow> (upsert_doc \<times> string) list \<Rightarrow> stored_doc list \<times> write_result" where
  "bulkWrite store [] = (store, \<lparr>upsertedCount = 0, modifiedCount = 0\<rparr>)"
| "bulkWrite store (op # ops) =
     (let (s1, r1) = updateOne store op;
          (s2, r2) = bulkWrite s1 ops
      in (s2, \<lparr>upsertedCount = upsertedCount r1 + upsertedCount r2,
                modifiedCount = modifiedCount r1 + modifiedCount r2\<rparr>))"

text \<open>
  \<^verbatim>\<open>
  const batches = chunkArray(documents, BATCH_SIZE);
  for (let i = 0; i < batches.length; i++) {
    const bulkOps = batches[i].map((doc) => ({ updateOne: ... }));
    const result = await collection.bulkWrite(bulkOps);
    totalUpserted += result.upsertedCount;
    totalModified += result.modifiedCount;
  }
  return { upserted_count: totalUpserted, modified_count: totalModified };
  \<close>
  Each document of the request comes with the reading of the clock taken when its
  operation is prepared. The function returns the response and leaves the
  collection changed; the model returns both.
\<close>

record upsert_response =
  upserted_count :: nat
  modified_count :: nat

fun upsert_batches ::
  "stored_doc list \<Rightarrow> (upsert_doc \<times> string) list list \<Rightarrow> nat \<times> nat
     \<Rightarrow> stored_doc list \<times> nat \<times> nat" where
  "upsert_batches store [] totals = (store, totals)"
| "upsert_batches store (batch # batches) (totalUpserted, totalModified) =
     (let (store', result) = bulkWrite store batch
      in upsert_batches store' batches
           (totalUpserted + upsertedCount result, totalModified + modifiedCount result))"

definition handleUpsert ::
  "stored_doc list \<Rightarrow> (upsert_doc \<times> string) list \<Rightarrow> (stored_doc list \<times> upsert_response) option" where
  "handleUpsert store documents =
     (case chunkArray documents BATCH_SIZE of
        None \<Rightarrow> None
      | Some batches \<Rightarrow>
          (let (store', totalUpserted, totalModified) = upsert_batches store batches (0, 0)
           in Some (store', \<lparr>upserted_count = totalUpserted, modified_count = totalModified\<rparr>)))"

text \<open>
  The vocabulary of the upsert's specification: the records of the store under a
  key, and a request document for the examples.
\<close>

definition records_for :: "stored_doc list \<Rightarrow> string \<times> nat \<Rightarrow> stored_doc list" where
  "records_for store k = filter (\<lambda>d. doc_key d = k) store"

definition example_upsert :: "nat \<Rightarrow> upsert_doc" where
  "example_upsert i =
     \<lparr>ud_text = ''Zoning districts'', ud_embedding = [1 / 2, 1 / 2], ud_file_number = ''250700'',
      ud_source_url = ''https://example.org/a.pdf'', ud_page_number = 1, ud_bbox = full_page,
      ud_chunk_index = i, ud_metadata = None\<rparr>"

text \<open>
  A store with two records under the key of \<open>example_upsert 0\<close>.
\<close>

definition duplicate_store :: "stored_doc list" where
  "duplicate_store =
     [(blank_doc 1)\<lparr>doc_source_url := ''https://example.org/a.pdf''\<rparr>,
      (blank_doc 2)\<lparr>doc_source_url := ''https://example.org/a.pdf''\<rparr>]"

subsection \<open>Responses and retries (\<^verbatim>\<open>_shared/utils.ts\<close>)\<close>

text \<open>
  \<^verbatim>\<open>
  export function createResponse<T>(data: T | null, error: string | null, startTime: number): Response {
    const response: APIResponse<T> = { success: !error, metadata: { ... } };
    if (data) response.data = data;
    if (error) response.error = error;
    return new Response(JSON.stringify(response), { status: error ? 500 : 200, ... });
  }
  \<close>
  The timing metadata is left out. An empty error message is falsy.
\<close>

record 'a api_response =
  success :: bool
  data :: "'a option"
  resp_error :: "string option"
  http_status :: nat

definition createResponse :: "'a option \<Rightarrow> string option \<Rightarrow> 'a api_response" where
  "createResponse d e =
     \<lparr>success = (\<not> truthy_str e), data = d,
      resp_error = (if truthy_str e then e else None),
      http_status = (if truthy_str e then 500 else 200)\<rparr>"

text \<open>
  \<^verbatim>\<open>
  export async function retryWithBackoff<T>(operation, maxRetries = 3, baseDelayMs = 1000): Promise<T> {
    let lastError: Error | null = null;
    for (let attempt = 0; attempt < maxRetries; attempt++) {
      try { return await operation(); }
      catch (error) {
        lastError = error as Error;
        if (attempt < maxRetries - 1) { await new Promise(...delay...); }
      }
    }
    throw lastError;
  }
  \<close>
  The operation calls an external service: \<open>operation n\<close> is the outcome of the
  call when \<open>n\<close> calls have been made before, \<open>Inl\<close> the message of the error
  it throws. The function returns its outcome (\<open>Inl\<close> what it throws) and the
  number of calls made so far. The second argument counts the attempts left; the
  delays take time only.
\<close>

fun retryWithBackoff ::
  "(nat \<Rightarrow> string + 'a) \<Rightarrow> nat \<Rightarrow> nat \<Rightarrow> string option \<Rightarrow> (string option + 'a) \<times> nat" where
  "retryWithBackoff operation 0 n lastError = (Inl lastError, n)"
| "retryWithBackoff operation (Suc attempts) n lastError =
     (case operation n of
        Inr v \<Rightarrow> (Inr v, Suc n)
      | Inl e \<Rightarrow> retryWithBackoff operation attempts (Suc n) (Some e))"

subsection \<open>The embedding batcher (voyage-embed)\<close>

text \<open>
  The chunks of an embedding request carry the metadata the orchestrator added
  (\<^verbatim>\<open>discovered_at\<close>, \<^verbatim>\<open>parsed_at\<close>). An embedded chunk is
  \<^verbatim>\<open>{ ...originalChunk, embedding, file_number, source_url }\<close>, where
  \<^verbatim>\<open>originalChunk = batch[item.index]\<close> is missing when the index is out of range.
\<close>

record request_chunk =
  rq_chunk :: chunk
  rq_discovered_at :: string
  rq_parsed_at :: "string option"

record embed_request =
  er_chunks :: "request_chunk list"
  er_file_number :: string
  er_source_url :: string
  er_input_type :: "string option"

record voyage_item =
  item_embedding :: "real list"
  item_index :: nat

record voyage_response =
  vr_data :: "voyage_item list"
  vr_total_tokens :: nat

record embedded_chunk =
  ec_original :: "request_chunk option"
  ec_embedding :: "real list"
  ec_file_number :: string
  ec_source_url :: string

record embed_response =
  em_chunks :: "embedded_chunk list"
  em_total_tokens :: nat
  em_model :: string

text \<open>
  The environment of the function: the API key, and the Voyage API. \<open>voyage_api n
  texts input_type\<close> is the outcome of the request body of
  \<^verbatim>\<open>retryWithBackoff\<close> (the fetch, the status check and the JSON decoding) when
  \<open>n\<close> requests have been made before: \<open>Inl\<close> the message of the error thrown.
\<close>

record voyage_env =
  VOYAGE_API_KEY :: "string option"
  voyage_api :: "nat \<Rightarrow> string list \<Rightarrow> string \<Rightarrow> string + voyage_response"

definition VOYAGE_BATCH_SIZE :: nat where
  "VOYAGE_BATCH_SIZE = 128"

definition VOYAGE_MODEL :: string where
  "VOYAGE_MODEL = ''voyage-law-2''"

text \<open>The decimal digits of a page number, for \<^verbatim>\<open>`[Page ${chunk.page_number}]`\<close>.\<close>

function string_of_nat :: "nat \<Rightarrow> string" where
  "string_of_nat n =
     (if n < 10 then [char_of (48 + n)]
      else string_of_nat (n div 10) @ [char_of (48 + n mod 10)])"
  by pat_completeness auto
termination
  by (relation "measure (\<lambda>n. n)") auto

declare string_of_nat.simps [simp del]

fun join_with :: "string \<Rightarrow> string list \<Rightarrow> string" where
  "join_with sep [] = []"
| "join_with sep [p] = p"
| "join_with sep (p # q # ps) = p @ sep @ join_with sep (q # ps)"

text \<open>
  \<^verbatim>\<open>
  function prepareTextForEmbedding(chunk: ReductoChunk): string {
    const parts: string[] = [];
    if (chunk.metadata.section) parts.push(`[Section: ${chunk.metadata.section}]`);
    parts.push(`[Page ${chunk.page_number}]`);
    if (chunk.metadata.table_detected) parts.push("[Contains tabular data]");
    parts.push(chunk.text);
    return parts.join(" ");
  }
  \<close>
\<close>

definition prepareTextForEmbedding :: "chunk \<Rightarrow> string" where
  "prepareTextForEmbedding c =
     join_with '' ''
       ((if truthy_str (chunk_section c) then [''[Section: '' @ str_of (chunk_section c) @ '']''] else [])
        @ [''[Page '' @ string_of_nat (page_number c) @ '']'']
        @ (if table_detected c then [''[Contains tabular data]''] else [])
        @ [chunk_text c])"

definition nth_opt :: "'a list \<Rightarrow> nat \<Rightarrow> 'a option" where
  "nth_opt xs i = (if i < length xs then Some (xs ! i) else None)"

definition thrown_message :: "string option \<Rightarrow> string" where
  "thrown_message e = (case e of Some m \<Rightarrow> m | None \<Rightarrow> ''Internal Server Error'')"

text \<open>
  The batch loop of the handler:
  \<^verbatim>\<open>
  for (let batchIndex = 0; batchIndex < batches.length; batchIndex++) {
    const batch = batches[batchIndex];
    const texts = batch.map((chunk) => prepareTextForEmbedding(chunk));
    const voyageResponse = await retryWithBackoff(async () => { ... });
    for (const item of voyageResponse.data) {
      const originalChunk = batch[item.index];
      embeddedChunks.push({ ...originalChunk, embedding: item.embedding,
                            file_number: file_number, source_url: source_url });
    }
    totalTokens += voyageResponse.usage.total_tokens;
    if (batchIndex < batches.length - 1) { await new Promise(...100 ms...); }
  }
  \<close>
  \<^verbatim>\<open>retryWithBackoff\<close> is called with its default of three attempts. What it
  throws is not caught in the loop: it leaves the loop and reaches the handler's
  \<^verbatim>\<open>catch\<close>. (With no attempt at all it would throw \<^verbatim>\<open>null\<close>, which three
  attempts exclude.)
\<close>

definition batch_texts :: "request_chunk list \<Rightarrow> string list" where
  "batch_texts batch = map (\<lambda>c. prepareTextForEmbedding (rq_chunk c)) batch"

definition input_type_of :: "embed_request \<Rightarrow> string" where
  "input_type_of body = (case er_input_type body of None \<Rightarrow> ''document'' | Some t \<Rightarrow> t)"

fun embed_batches ::
  "voyage_env \<Rightarrow> embed_request \<Rightarrow> request_chunk list list \<Rightarrow> nat
     \<Rightarrow> embedded_chunk list \<times> nat \<Rightarrow> (string + embedded_chunk list \<times> nat) \<times> nat" where
  "embed_batches env body [] n acc = (Inr acc, n)"
| "embed_batches env body (batch # batches) n (embeddedChunks, totalTokens) =
     (let texts = batch_texts batch;
          input_type = input_type_of body
      in case retryWithBackoff (\<lambda>k. voyage_api env k texts input_type) 3 n None of
           (Inl e, n') \<Rightarrow> (Inl (thrown_message e), n')
         | (Inr voyageResponse, n') \<Rightarrow>
             embed_batches env body batches n'
               (embeddedChunks @
                  map (\<lambda>item. \<lparr>ec_original = nth_opt batch (item_index item),
                                ec_embedding = item_embedding item,
                                ec_file_number = er_file_number body,
                                ec_source_url = er_source_url body\<rparr>)
                      (vr_data voyageResponse),
                totalTokens + vr_total_tokens voyageResponse))"

text \<open>
  The handler, for a POST request: a missing API key and an empty chunk list are
  answered with an error; so is anything the batch loop throws
  (\<^verbatim>\<open>catch (error) { return createResponse(null, error.message, startTime) }\<close>).
  The result is the response and the number of requests made to the Voyage API;
  \<open>None\<close> stands for a handler that does not return.
\<close>

definition voyage_embed ::
  "voyage_env \<Rightarrow> nat \<Rightarrow> embed_request \<Rightarrow> (embed_response api_response \<times> nat) option" where
  "voyage_embed env n body =
     (if \<not> truthy_str (VOYAGE_API_KEY env)
      then Some (createResponse None (Some ''Missing required environment variable: VOYAGE_API_KEY''), n)
      else if er_chunks body = []
      then Some (createResponse None (Some ''Missing or empty chunks array''), n)
      else (case chunkArray (er_chunks body) VOYAGE_BATCH_SIZE of
              None \<Rightarrow> None
            | Some batches \<Rightarrow>
                (case embed_batches env body batches n ([], 0) of
                   (Inl e, n') \<Rightarrow> Some (createResponse None (Some e), n')
                 | (Inr (embeddedChunks, totalTokens), n') \<Rightarrow>
                     Some (createResponse
                             (Some \<lparr>em_chunks = embeddedChunks, em_total_tokens = totalTokens,
                                    em_model = VOYAGE_MODEL\<rparr>)
                             None, n'))))"

subsection \<open>The orchestrator (\<^verbatim>\<open>runPipelineSync\<close>, orchestrate)\<close>

text \<open>
  The job record, and what a \<^verbatim>\<open>fetch\<close> of another edge function can do: throw
  (the network failed), answer with a status that is not OK (the body is a text),
  or answer OK with a body that \<^verbatim>\<open>response.json()\<close> decodes or rejects. The
  decoded body is given by the part the orchestrator reads from it.
\<close>

datatype job_status = Pending | Discovering | Parsing | Embedding | Upserting | Completed | Failed

record discovered_pdf =
  pdf_url :: string
  pdf_title :: string
  pdf_file_number :: string
  pdf_attachment_type :: string
  pdf_discovered_at :: string

record pipeline_job =
  job_id :: string
  status :: job_status
  job_file_numbers :: "string list"
  discovered_pdfs :: "discovered_pdf list"
  parsed_chunks :: nat
  embedded_chunks :: nat
  upserted_chunks :: nat
  started_at :: string
  completed_at :: "string option"
  job_error :: "string option"

datatype 'a fetched = FetchThrew string | NotOk string | OkJson 'a | OkBadJson string

record pipeline_request =
  rq_file_numbers :: "string list option"
  rq_search_terms :: "string list option"
  rq_max_credits :: "nat option"
  rq_pdf_limit :: "nat option"

record discover_request =
  dr_file_numbers :: "string list option"
  dr_search_terms :: "string list"
  dr_limit :: nat

record parse_request =
  pq_pdf_url :: string
  pq_file_number :: string

record parse_data =
  pd_chunks :: "chunk list option"
  pd_parsed_at :: "string option"

text \<open>
  An element of \<^verbatim>\<open>allChunks\<close>: the parsed chunk with the file number and URL of
  its PDF and the two timestamps added to its metadata.
\<close>

record pipeline_chunk =
  pc_chunk :: chunk
  pc_file_number :: string
  pc_source_url :: string
  pc_discovered_at :: string
  pc_parsed_at :: "string option"

text \<open>
  The environment of a run: the four edge functions the orchestrator fetches (the
  parse and the embed function are called several times; the number counts the
  calls made before), the job id drawn at the start, and the two readings of the
  clock. The orchestrator passes the embedded chunks on as it receives them, so
  their type \<open>'e\<close> is a parameter.
\<close>

record 'e pipeline_env =
  env_discover :: "discover_request \<Rightarrow> discovered_pdf list option fetched"
  env_parse :: "nat \<Rightarrow> parse_request \<Rightarrow> parse_data option fetched"
  env_embed :: "nat \<Rightarrow> embed_request \<Rightarrow> 'e list option fetched"
  env_upsert :: "'e list \<Rightarrow> nat option fetched"
  env_job_id :: string
  env_started_at :: string
  env_completed_at :: string

text \<open>The calls a run makes, in order: the trace of its fetches.\<close>

datatype 'e call =
  CallDiscover discover_request | CallParse parse_request | CallEmbed embed_request
  | CallUpsert "'e list"

record pipeline_data =
  rd_job :: pipeline_job
  rd_message :: "string option"

text \<open>
  Step 2 of \<^verbatim>\<open>runPipelineSync\<close>. The state of the run is the job and the trace;
  an error thrown inside the \<^verbatim>\<open>try\<close> block is returned with the state it
  leaves.
  \<^verbatim>\<open>
  for (const pdf of job.discovered_pdfs) {
    const parseResponse = await fetch(`${baseUrl}/functions/v1/reducto-parse`, ...);
    if (!parseResponse.ok) { console.error(...); continue; }
    const parseResult = await parseResponse.json();
    const chunks = parseResult.data?.chunks || [];
    for (const chunk of chunks) {
      allChunks.push({ text: chunk.text, file_number: pdf.file_number, source_url: pdf.url,
                       page_number: chunk.page_number, bbox: chunk.bbox, chunk_index: chunk.chunk_index,
                       metadata: { ...chunk.metadata, discovered_at: pdf.discovered_at,
                                   parsed_at: parseResult.data?.parsed_at } });
    }
    job.parsed_chunks = allChunks.length;
  }
  \<close>
\<close>

definition parsed_chunks_of :: "discovered_pdf \<Rightarrow> parse_data option \<Rightarrow> pipeline_chunk list" where
  "parsed_chunks_of pdf d =
     map (\<lambda>c. \<lparr>pc_chunk = c, pc_file_number = pdf_file_number pdf, pc_source_url = pdf_url pdf,
               pc_discovered_at = pdf_discovered_at pdf,
               pc_parsed_at = (case d of None \<Rightarrow> None | Some pd \<Rightarrow> pd_parsed_at pd)\<rparr>)
         (case d of None \<Rightarrow> [] | Some pd \<Rightarrow> (case pd_chunks pd of None \<Rightarrow> [] | Some cs \<Rightarrow> cs))"

fun parse_loop ::
  "'e pipeline_env \<Rightarrow> discovered_pdf list \<Rightarrow> nat \<Rightarrow> pipeline_chunk list
     \<Rightarrow> pipeline_job \<times> 'e call list
     \<Rightarrow> (string + pipeline_chunk list) \<times> pipeline_job \<times> 'e call list" where
  "parse_loop env [] i allChunks st = (Inr allChunks, st)"
| "parse_loop env (pdf # pdfs) i allChunks (job, calls) =
     (let rq = \<lparr>pq_pdf_url = pdf_url pdf, pq_file_number = pdf_file_number pdf\<rparr>;
          calls' = calls @ [CallParse rq]
      in case env_parse env i rq of
           FetchThrew e \<Rightarrow> (Inl e, job, calls')
         | NotOk body \<Rightarrow> parse_loop env pdfs (Suc i) allChunks (job, calls')
         | OkBadJson e \<Rightarrow> (Inl e, job, calls')
         | OkJson d \<Rightarrow>
             (let allChunks' = allChunks @ parsed_chunks_of pdf d
              in parse_loop env pdfs (Suc i) allChunks'
                   (job\<lparr>parsed_chunks := length allChunks'\<rparr>, calls')))"

text \<open>
  Step 3: the chunks are grouped by \<^verbatim>\<open>`${chunk.file_number}:${chunk.source_url}`\<close>
  in a \<^verbatim>\<open>Map\<close>, which keeps the keys in the order of their first insertion, and
  each group is sent to voyage-embed. The key is split again at its first colon.
  \<^verbatim>\<open>
  for (const [key, chunks] of chunksBySource) {
    const [fileNumber, ...sourceUrlParts] = key.split(":");
    const sourceUrl = sourceUrlParts.join(":");
    const embedResponse = await fetch(`${baseUrl}/functions/v1/voyage-embed`, ...);
    if (!embedResponse.ok) { console.error(...); continue; }
    const embedResult = await embedResponse.json();
    const embedded = embedResult.data?.chunks || [];
    for (const chunk of embedded) { embeddedChunks.push({ ...chunk, embedding: chunk.embedding }); }
    job.embedded_chunks = embeddedChunks.length;
  }
  \<close>
\<close>

definition group_key :: "pipeline_chunk \<Rightarrow> string" where
  "group_key c = pc_file_number c @ '':'' @ pc_source_url c"

fun group_push :: "string \<Rightarrow> 'c \<Rightarrow> (string \<times> 'c list) list \<Rightarrow> (string \<times> 'c list) list" where
  "group_push k c [] = [(k, [c])]"
| "group_push k c (g # gs) = (if fst g = k then (k, snd g @ [c]) # gs else g # group_push k c gs)"

definition chunksBySource :: "pipeline_chunk list \<Rightarrow> (string \<times> pipeline_chunk list) list" where
  "chunksBySource allChunks = foldl (\<lambda>m c. group_push (group_key c) c m) [] allChunks"

definition embed_request_of :: "string \<times> pipeline_chunk list \<Rightarrow> embed_request" where
  "embed_request_of g =
     \<lparr>er_chunks = map (\<lambda>c. \<lparr>rq_chunk = pc_chunk c, rq_discovered_at = pc_discovered_at c,
                             rq_parsed_at = pc_parsed_at c\<rparr>) (snd g),
      er_file_number = takeWhile (\<lambda>c. c \<noteq> CHR '':'') (fst g),
      er_source_url = drop 1 (dropWhile (\<lambda>c. c \<noteq> CHR '':'') (fst g)),
      er_input_type = None\<rparr>"

fun embed_loop ::
  "'e pipeline_env \<Rightarrow> (string \<times> pipeline_chunk list) list \<Rightarrow> nat \<Rightarrow> 'e list
     \<Rightarrow> pipeline_job \<times> 'e call list
     \<Rightarrow> (string + 'e list) \<times> pipeline_job \<times> 'e call list" where
  "embed_loop env [] i embeddedChunks st = (Inr embeddedChunks, st)"
| "embed_loop env (g # gs) i embeddedChunks (job, calls) =
     (let rq = embed_request_of g;
          calls' = calls @ [CallEmbed rq]
      in case env_embed env i rq of
           FetchThrew e \<Rightarrow> (Inl e, job, calls')
         | NotOk body \<Rightarrow> embed_loop env gs (Suc i) embeddedChunks (job, calls')
         | OkBadJson e \<Rightarrow> (Inl e, job, calls')
         | OkJson d \<Rightarrow>
             (let embeddedChunks' = embeddedChunks @ (case d of None \<Rightarrow> [] | Some cs \<Rightarrow> cs)
              in embed_loop env gs (Suc i) embeddedChunks'
                   (job\<lparr>embedded_chunks := length embeddedChunks'\<rparr>, calls')))"

text \<open>
  Step 4 and the end of the \<^verbatim>\<open>try\<close> block:
  \<^verbatim>\<open>
  job.status = "upserting";
  const upsertResponse = await fetch(`${baseUrl}/functions/v1/mongo-upsert`, ...);
  if (!upsertResponse.ok) { throw new Error(`Upsert failed: ${await upsertResponse.text()}`); }
  const upsertResult = await upsertResponse.json();
  job.upserted_chunks = upsertResult.data?.upserted_count || 0;
  job.status = "completed";
  job.completed_at = new Date().toISOString();
  return createResponse({ job, message: `Pipeline complete! Processed ... PDFs, ... chunks stored.` }, null, startTime);
  \<close>
  The result of a stage that returns is the message of the response.
\<close>

definition upsert_stage ::
  "'e pipeline_env \<Rightarrow> 'e list \<Rightarrow> pipeline_job \<times> 'e call list
     \<Rightarrow> (string + string) \<times> pipeline_job \<times> 'e call list" where
  "upsert_stage env embeddedChunks st =
     (let job = (fst st)\<lparr>status := Upserting\<rparr>;
          calls' = snd st @ [CallUpsert embeddedChunks]
      in case env_upsert env embeddedChunks of
           FetchThrew e \<Rightarrow> (Inl e, job, calls')
         | NotOk body \<Rightarrow> (Inl (''Upsert failed: '' @ body), job, calls')
         | OkBadJson e \<Rightarrow> (Inl e, job, calls')
         | OkJson d \<Rightarrow>
             (let job' = job\<lparr>upserted_chunks := nat_or d 0, status := Completed,
                             completed_at := Some (env_completed_at env)\<rparr>
              in (Inr (''Pipeline complete! Processed '' @ string_of_nat (length (discovered_pdfs job'))
                       @ '' PDFs, '' @ string_of_nat (upserted_chunks job') @ '' chunks stored.''),
                  job', calls')))"

definition embed_stage ::
  "'e pipeline_env \<Rightarrow> pipeline_chunk list \<Rightarrow> pipeline_job \<times> 'e call list
     \<Rightarrow> (string + string) \<times> pipeline_job \<times> 'e call list" where
  "embed_stage env allChunks st =
     (case embed_loop env (chunksBySource allChunks) 0 [] ((fst st)\<lparr>status := Embedding\<rparr>, snd st) of
        (Inl e, st') \<Rightarrow> (Inl e, st')
      | (Inr embeddedChunks, st') \<Rightarrow> upsert_stage env embeddedChunks st')"

text \<open>
  Step 2 with its exit: no chunk at all completes the job.
\<close>

definition parse_stage ::
  "'e pipeline_env \<Rightarrow> pipeline_job \<times> 'e call list \<Rightarrow> (string + string) \<times> pipeline_job \<times> 'e call list" where
  "parse_stage env st =
     (case parse_loop env (discovered_pdfs (fst st)) 0 [] ((fst st)\<lparr>status := Parsing\<rparr>, snd st) of
        (Inl e, st') \<Rightarrow> (Inl e, st')
      | (Inr allChunks, job, calls) \<Rightarrow>
          if allChunks = []
          then (Inr ''Pipeline complete. No chunks extracted from PDFs.'',
                job\<lparr>status := Completed, completed_at := Some (env_completed_at env)\<rparr>, calls)
          else embed_stage env allChunks (job, calls))"

text \<open>
  Step 1 and its exit:
  \<^verbatim>\<open>
  job.status = "discovering";
  const discoverResponse = await fetch(`${baseUrl}/functions/v1/firecrawl-discover`, ...);
  if (!discoverResponse.ok) { throw new Error(`Discovery failed: ${await discoverResponse.text()}`); }
  const discoverResult = await discoverResponse.json();
  job.discovered_pdfs = discoverResult.data?.discovered_pdfs || [];
  if (job.discovered_pdfs.length === 0) {
    job.status = "completed";
    job.completed_at = new Date().toISOString();
    return createResponse({ job, message: "Pipeline complete. No PDFs found to process." }, null, startTime);
  }
  \<close>
\<close>

definition default_search_terms :: "string list" where
  "default_search_terms =
     [''housing development'', ''zoning amendment'', ''environmental impact report'', ''EIR'',
      ''residential project'']"

definition discover_request_of :: "pipeline_request \<Rightarrow> discover_request" where
  "discover_request_of request =
     \<lparr>dr_file_numbers = rq_file_numbers request,
      dr_search_terms = (case rq_search_terms request of None \<Rightarrow> default_search_terms | Some ts \<Rightarrow> ts),
      dr_limit = nat_or (rq_pdf_limit request) 3\<rparr>"

definition try_block ::
  "'e pipeline_env \<Rightarrow> pipeline_request \<Rightarrow> pipeline_job \<times> 'e call list
     \<Rightarrow> (string + string) \<times> pipeline_job \<times> 'e call list" where
  "try_block env request st =
     (let job = (fst st)\<lparr>status := Discovering\<rparr>;
          rq = discover_request_of request;
          calls' = snd st @ [CallDiscover rq]
      in case env_discover env rq of
           FetchThrew e \<Rightarrow> (Inl e, job, calls')
         | NotOk body \<Rightarrow> (Inl (''Discovery failed: '' @ body), job, calls')
         | OkBadJson e \<Rightarrow> (Inl e, job, calls')
         | OkJson d \<Rightarrow>
             (let job' = job\<lparr>discovered_pdfs := (case d of None \<Rightarrow> [] | Some pdfs \<Rightarrow> pdfs)\<rparr>
              in if discovered_pdfs job' = []
                 then (Inr ''Pipeline complete. No PDFs found to process.'',
                       job'\<lparr>status := Completed, completed_at := Some (env_completed_at env)\<rparr>,
                       calls')
                 else parse_stage env (job', calls')))"

text \<open>
  The whole function: the job is created, the \<^verbatim>\<open>try\<close> block runs, and
  \<^verbatim>\<open>
  catch (error) {
    job.status = "failed";
    job.error = (error as Error).message;
    job.completed_at = new Date().toISOString();
    return createResponse<PipelineResponse>({ job }, (error as Error).message, startTime);
  }
  \<close>
  The result is the response and the trace of the calls made.
\<close>

definition new_job :: "'e pipeline_env \<Rightarrow> pipeline_request \<Rightarrow> pipeline_job" where
  "new_job env request =
     \<lparr>job_id = env_job_id env, status = Discovering,
      job_file_numbers = (case rq_file_numbers request of None \<Rightarrow> [] | Some fs \<Rightarrow> fs),
      discovered_pdfs = [], parsed_chunks = 0, embedded_chunks = 0, upserted_chunks = 0,
      started_at = env_started_at env, completed_at = None, job_error = None\<rparr>"

definition runPipelineSync ::
  "'e pipeline_env \<Rightarrow> pipeline_request \<Rightarrow> pipeline_data api_response \<times> 'e call list" where
  "runPipelineSync env request =
     (case try_block env request (new_job env request, []) of
        (Inr message, job, calls) \<Rightarrow>
          (createResponse (Some \<lparr>rd_job = job, rd_message = Some message\<rparr>) None, calls)
      | (Inl e, job, calls) \<Rightarrow>
          (createResponse
             (Some \<lparr>rd_job = job\<lparr>status := Failed, job_error := Some e,
                                   completed_at := Some (env_completed_at env)\<rparr>,
                    rd_message = None\<rparr>)
             (Some e), calls))"

text \<open>
  The orchestrator in front of the embedding function of this repository: the
  \<open>i\<close>-th embed request is handled by \<open>voyage_embed\<close> in the environment
  \<open>venv i\<close>, and its response is read as the orchestrator reads it (a status other
  than 200 is not OK). A handler that does not return is a fetch that fails.
\<close>

definition embed_via_voyage ::
  "(nat \<Rightarrow> voyage_env) \<Rightarrow> nat \<Rightarrow> embed_request \<Rightarrow> embedded_chunk list option fetched" where
  "embed_via_voyage venv i rq =
     (case voyage_embed (venv i) 0 rq of
        None \<Rightarrow> FetchThrew ''timeout''
      | Some (r, n) \<Rightarrow>
          if http_status r = 200
          then OkJson (case data r of None \<Rightarrow> None | Some d \<Rightarrow> Some (em_chunks d))
          else NotOk (str_of (resp_error r)))"

text \<open>
  The vocabulary of the orchestrator's specification: an environment for the
  examples in which every service fails unless said otherwise, the outcomes of the
  embed requests of a list of groups, the chunks an outcome contributes, and the
  outcomes that throw.
\<close>

definition failing_env :: "'e pipeline_env" where
  "failing_env =
     \<lparr>env_discover = (\<lambda>rq. FetchThrew ''discover unreachable''),
      env_parse = (\<lambda>i rq. FetchThrew ''parse unreachable''),
      env_embed = (\<lambda>i rq. FetchThrew ''embed unreachable''),
      env_upsert = (\<lambda>docs. FetchThrew ''upsert unreachable''),
      env_job_id = ''job_1'', env_started_at = ''2026-01-01T00:00:00.000Z'',
      env_completed_at = ''2026-01-01T00:05:00.000Z''\<rparr>"

definition example_pdf :: "nat \<Rightarrow> discovered_pdf" where
  "example_pdf i =
     \<lparr>pdf_url = ''https://example.org/'' @ string_of_nat i @ ''.pdf'', pdf_title = ''Staff report'',
      pdf_file_number = ''250700'', pdf_attachment_type = ''Staff Report'',
      pdf_discovered_at = ''2026-01-01T00:00:01.000Z''\<rparr>"

definition example_chunk :: "nat \<Rightarrow> chunk" where
  "example_chunk i =
     \<lparr>chunk_text = ''Zoning districts'', page_number = 1, bbox = full_page, chunk_index = i,
      chunk_section = None, table_detected = False\<rparr>"

fun embed_outcomes ::
  "'e pipeline_env \<Rightarrow> (string \<times> pipeline_chunk list) list \<Rightarrow> nat \<Rightarrow> 'e list option fetched list" where
  "embed_outcomes env [] i = []"
| "embed_outcomes env (g # gs) i = env_embed env i (embed_request_of g) # embed_outcomes env gs (Suc i)"

definition kept :: "'e list option fetched \<Rightarrow> 'e list" where
  "kept r = (case r of OkJson (Some cs) \<Rightarrow> cs | _ \<Rightarrow> [])"

definition throws :: "'a fetched \<Rightarrow> bool" where
  "throws r = (case r of FetchThrew e \<Rightarrow> True | OkBadJson e \<Rightarrow> True | _ \<Rightarrow> False)"

text \<open>
  A Voyage API that answers the first request of a handler and rejects every
  later one, and the request chunk and the chunk of the orchestrator built from an
  example chunk.
\<close>

definition rate_limited_voyage :: voyage_env where
  "rate_limited_voyage =
     \<lparr>VOYAGE_API_KEY = Some ''key'',
      voyage_api = (\<lambda>n texts input_type.
         if n = 0
         then Inr \<lparr>vr_data = map (\<lambda>i. \<lparr>item_embedding = [1], item_index = i\<rparr>) [0..<length texts],
                   vr_total_tokens = length texts\<rparr>
         else Inl ''Voyage API error: 429 - rate limited'')\<rparr>"

definition example_request_chunk :: request_chunk where
  "example_request_chunk =
     \<lparr>rq_chunk = example_chunk 0, rq_discovered_at = ''2026-01-01T00:00:01.000Z'',
      rq_parsed_at = None\<rparr>"

definition example_pipeline_chunk :: "string \<Rightarrow> pipeline_chunk" where
  "example_pipeline_chunk url =
     \<lparr>pc_chunk = example_chunk 0, pc_file_number = ''250700'', pc_source_url = url,
      pc_discovered_at = ''2026-01-01T00:00:01.000Z'', pc_parsed_at = None\<rparr>"

text \<open>
  A request of 129 chunks (two batches), a request to the orchestrator with no
  option set, an environment whose first embed request is refused and whose second
  is answered with two chunks, and an environment where one PDF of 129 chunks is
  embedded by the embedding function behind the rate-limited API.
\<close>

definition example_embed_request :: embed_request where
  "example_embed_request =
     \<lparr>er_chunks = replicate 129 example_request_chunk, er_file_number = ''250700'',
      er_source_url = ''https://example.org/0.pdf'', er_input_type = None\<rparr>"

definition default_request :: pipeline_request where
  "default_request =
     \<lparr>rq_file_numbers = None, rq_search_terms = None, rq_max_credits = None, rq_pdf_limit = None\<rparr>"

definition two_group_env :: "nat pipeline_env" where
  "two_group_env =
     failing_env
       \<lparr>env_embed := (\<lambda>i rq. if i = 0 then NotOk ''rate limited'' else OkJson (Some [7, 8])),
        env_upsert := (\<lambda>docs. OkJson (Some (length docs)))\<rparr>"

definition long_document_env :: "embedded_chunk pipeline_env" where
  "long_document_env =
     failing_env
       \<lparr>env_discover := (\<lambda>rq. OkJson (Some [example_pdf 0])),
        env_parse := (\<lambda>i rq. OkJson (Some \<lparr>pd_chunks = Some (replicate 129 (example_chunk 0)),
                                              pd_parsed_at = None\<rparr>)),
        env_embed := embed_via_voyage (\<lambda>i. rate_limited_voyage),
        env_upsert := (\<lambda>docs. OkJson (Some (length docs)))\<rparr>"

section \<open>Properties\<close>

subsection \<open>Rounding to double precision\<close>

lemma rne_of_int: "rne (of_int k) = k"
  by (simp add: rne_def)

lemma rne_bounds: "real_of_int (rne q) \<le> q + 1 / 2 \<and> q - 1 / 2 \<le> real_of_int (rne q)"
  unfolding rne_def Let_def by (auto; linarith)

lemma rne_floor: "\<lfloor>q\<rfloor> \<le> rne q \<and> rne q \<le> \<lfloor>q\<rfloor> + 1"
  unfolding rne_def Let_def by auto

lemma rne_mono: "x \<le> y \<Longrightarrow> rne x \<le> rne y"
proof -
  assume xy: "x \<le> y"
  have f: "\<lfloor>x\<rfloor> \<le> \<lfloor>y\<rfloor>" using xy by (rule floor_mono)
  show ?thesis
  proof (cases "\<lfloor>x\<rfloor> = \<lfloor>y\<rfloor>")
    case True
    then show ?thesis using xy unfolding rne_def Let_def by auto
  next
    case False
    then have "\<lfloor>x\<rfloor> + 1 \<le> \<lfloor>y\<rfloor>" using f by simp
    then show ?thesis using rne_floor[of x] rne_floor[of y] by linarith
  qed
qed

lemma rne_minus: "rne (- x) = - rne x"
proof (cases "x \<in> \<int>")
  case True
  then obtain k where "x = of_int k" by (auto elim: Ints_cases)
  then show ?thesis by (simp add: rne_of_int flip: of_int_minus)
next
  case False
  then have nz: "x \<noteq> of_int \<lfloor>x\<rfloor>" by (metis Ints_of_int)
  then have fl: "\<lfloor>- x\<rfloor> = - \<lfloor>x\<rfloor> - 1"
    by (simp add: floor_minus ceiling_altdef)
  show ?thesis
    unfolding rne_def Let_def fl using nz by auto
qed

lemma exponent64_minus: "exponent64 (- x) = exponent64 x"
  by (simp add: exponent64_def)

lemma nearest64_minus: "nearest64 (- x) = - nearest64 x"
  by (simp add: nearest64_def exponent64_minus rne_minus)

lemma round64_0: "round64 0 = Num 0"
  by (simp add: round64_def nearest64_def)

lemma exponent64_eq:
  assumes "2 powi e \<le> \<bar>x\<bar>" and "\<bar>x\<bar> < 2 powi (e + 1)" and "- 1022 \<le> e"
  shows "exponent64 x = e"
proof -
  have pos: "0 < \<bar>x\<bar>" using assms(1) by (smt (verit) zero_less_power_int)
  have p: "2 powr (real_of_int e + 1) = 2 powi (e + 1)"
    using powr_real_of_int'[of 2 "e + 1"] by simp
  have "\<lfloor>log 2 \<bar>x\<bar>\<rfloor> = e"
    using assms(1,2) pos by (simp add: floor_log_eq_powr_iff powr_real_of_int' p)
  then show ?thesis using assms(3) by (simp add: exponent64_def)
qed

lemma floor_log2_eq:
  assumes "2 powi e \<le> \<bar>x\<bar>" and "\<bar>x\<bar> < 2 powi (e + 1)"
  shows "\<lfloor>log 2 \<bar>x\<bar>\<rfloor> = e"
proof -
  have pos: "0 < \<bar>x\<bar>" using assms(1) by (smt (verit) zero_less_power_int)
  have p: "2 powr (real_of_int e + 1) = 2 powi (e + 1)"
    using powr_real_of_int'[of 2 "e + 1"] by simp
  show ?thesis
    using assms pos by (simp add: floor_log_eq_powr_iff powr_real_of_int' p)
qed

lemma floor_log2_large:
  assumes "1 \<le> a"
  shows "\<lfloor>log 2 \<bar>a\<bar>\<rfloor> = bitlen \<lfloor>a\<rfloor> - 1"
proof -
  let ?n = "\<lfloor>a\<rfloor>"
  have n: "0 < ?n" using assms by simp
  have b: "2 ^ nat (bitlen ?n - 1) \<le> ?n" "?n < 2 ^ nat (bitlen ?n)"
    using bitlen_bounds[OF n] by simp_all
  have k: "1 \<le> bitlen ?n" using n by (simp add: bitlen_alt_def)
  have "real_of_int (2 ^ nat (bitlen ?n - 1)) \<le> real_of_int ?n"
    using b(1) by (simp only: of_int_le_iff)
  moreover have "real_of_int ?n \<le> a" by simp
  ultimately have "real_of_int (2 ^ nat (bitlen ?n - 1)) \<le> a" by linarith
  then have 1: "2 powi (bitlen ?n - 1) \<le> \<bar>a\<bar>"
    using k assms by (simp add: power_int_nonneg_exp)
  have "?n + 1 \<le> 2 ^ nat (bitlen ?n)" using b(2) by simp
  then have "real_of_int (?n + 1) \<le> real_of_int (2 ^ nat (bitlen ?n))"
    by (simp only: of_int_le_iff)
  moreover have "a < real_of_int (?n + 1)" by simp
  ultimately have "a < real_of_int (2 ^ nat (bitlen ?n))" by linarith
  then have 2: "\<bar>a\<bar> < 2 powi (bitlen ?n - 1 + 1)"
    using k assms by (simp add: power_int_nonneg_exp)
  show ?thesis by (rule floor_log2_eq[OF 1 2])
qed

lemma floor_log2_small:
  assumes "0 < a" and "a < 1"
  shows "\<lfloor>log 2 \<bar>a\<bar>\<rfloor> = - bitlen (\<lceil>1 / a\<rceil> - 1)"
proof -
  define y where "y = 1 / a"
  define m where "m = \<lceil>y\<rceil> - 1"
  define j where "j = bitlen m"
  have y1: "1 < y" using assms by (simp add: y_def)
  have a: "a = 1 / y" using assms by (simp add: y_def)
  have m: "0 < m" using y1 by (simp add: m_def)
  have my: "real_of_int m < y" "y \<le> real_of_int m + 1"
    unfolding m_def by linarith+
  have b: "2 ^ nat (j - 1) \<le> m" "m < 2 ^ nat j"
    using bitlen_bounds[OF m] by (simp_all add: j_def)
  have j1: "1 \<le> j" using m by (simp add: j_def bitlen_alt_def)
  have "real_of_int (2 ^ nat (j - 1)) \<le> real_of_int m" using b(1) by (simp only: of_int_le_iff)
  then have "real_of_int (2 ^ nat (j - 1)) < y" using my(1) by linarith
  then have lo: "2 ^ nat (j - 1) < y" by simp
  have "m + 1 \<le> 2 ^ nat j" using b(2) by simp
  then have "real_of_int (m + 1) \<le> real_of_int (2 ^ nat j)" by (simp only: of_int_le_iff)
  then have "y \<le> real_of_int (2 ^ nat j)" using my(2) by simp
  then have hi: "y \<le> 2 ^ nat j" by simp
  have y0: "0 < y" using y1 by simp
  have p1: "(2::real) powi (- j) = 1 / 2 ^ nat j"
    using j1 by (simp add: power_int_minus_divide power_int_nonneg_exp)
  have p2: "(2::real) powi (- j + 1) = 1 / 2 ^ nat (j - 1)"
    using j1 power_int_minus_divide[of "2::real" "j - 1"] by (simp add: power_int_nonneg_exp)
  have 1: "2 powi (- j) \<le> \<bar>a\<bar>"
    unfolding p1 a using hi y0 by (simp add: frac_le)
  have 2: "\<bar>a\<bar> < 2 powi (- j + 1)"
    unfolding p2 a using lo y0 by (simp add: frac_less2)
  show ?thesis
    using floor_log2_eq[OF 1 2] by (simp add: j_def m_def y_def)
qed

text \<open>
  The exponent by the bit length of an integer, an equation that computes.
\<close>

lemma exponent64_code [code]:
  "exponent64 x =
     (if x = 0 then 0
      else if 1 \<le> \<bar>x\<bar> then max (bitlen \<lfloor>\<bar>x\<bar>\<rfloor> - 1) (- 1022)
      else max (- bitlen (\<lceil>1 / \<bar>x\<bar>\<rceil> - 1)) (- 1022))"
proof -
  have "\<lfloor>log 2 \<bar>x\<bar>\<rfloor> = bitlen \<lfloor>\<bar>x\<bar>\<rfloor> - 1" if "1 \<le> \<bar>x\<bar>"
    using floor_log2_large[OF that] by simp
  moreover have "\<lfloor>log 2 \<bar>x\<bar>\<rfloor> = - bitlen (\<lceil>1 / \<bar>x\<bar>\<rceil> - 1)" if "x \<noteq> 0" "\<not> 1 \<le> \<bar>x\<bar>"
    using floor_log2_small[of "\<bar>x\<bar>"] that by simp
  moreover have "\<lfloor>log 2 (0::real)\<rfloor> = 0" by (simp add: log_def)
  ultimately show ?thesis by (simp add: exponent64_def)
qed

lemma nearest64_eval:
  assumes "2 powi e \<le> \<bar>x\<bar>" and "\<bar>x\<bar> < 2 powi (e + 1)" and "- 1022 \<le> e"
    and "rne (x / 2 powi (e - 52)) = m"
  shows "nearest64 x = of_int m * 2 powi (e - 52)"
proof -
  have "x \<noteq> 0" using assms(1) by (smt (verit) zero_less_power_int)
  then show ?thesis
    by (simp add: nearest64_def exponent64_eq[OF assms(1-3)] assms(4))
qed


lemma rne_0: "rne 0 = 0"
  using rne_of_int[of 0] by simp

lemma exponent64_bounds:
  assumes "x \<noteq> 0"
  shows "- 1022 \<le> exponent64 x" and "\<bar>x\<bar> < 2 powi (exponent64 x + 1)"
    and "- 1022 < exponent64 x \<Longrightarrow> 2 powi (exponent64 x) \<le> \<bar>x\<bar>"
proof -
  let ?l = "\<lfloor>log 2 \<bar>x\<bar>\<rfloor>"
  have pos: "0 < \<bar>x\<bar>" using assms by simp
  have "2 powr ?l \<le> \<bar>x\<bar> \<and> \<bar>x\<bar> < 2 powr (?l + 1)"
    using floor_log_eq_powr_iff[of "\<bar>x\<bar>" 2 ?l] pos by simp
  then have l: "2 powi ?l \<le> \<bar>x\<bar>" "\<bar>x\<bar> < 2 powi (?l + 1)"
    using powr_real_of_int'[of 2 ?l] powr_real_of_int'[of 2 "?l + 1"] by simp_all
  show "- 1022 \<le> exponent64 x" by (simp add: exponent64_def)
  have "2 powi (?l + 1) \<le> (2::real) powi (exponent64 x + 1)"
    by (rule power_int_increasing) (simp_all add: exponent64_def)
  then show "\<bar>x\<bar> < 2 powi (exponent64 x + 1)" using l(2) by linarith
  show "2 powi (exponent64 x) \<le> \<bar>x\<bar>" if "- 1022 < exponent64 x"
  proof -
    have "exponent64 x = ?l" using that by (simp add: exponent64_def max_def split: if_splits)
    then show ?thesis using l(1) by simp
  qed
qed

lemma exponent64_mono:
  assumes "0 < x" and "x \<le> y"
  shows "exponent64 x \<le> exponent64 y"
proof -
  have "log 2 \<bar>x\<bar> \<le> log 2 \<bar>y\<bar>" using assms by simp
  then have "\<lfloor>log 2 \<bar>x\<bar>\<rfloor> \<le> \<lfloor>log 2 \<bar>y\<bar>\<rfloor>" by (rule floor_mono)
  then show ?thesis by (simp add: exponent64_def)
qed

lemma ulp_pos: "0 < (2::real) powi k"
  by (rule zero_less_power_int) simp

lemma nearest64_nonneg: "0 \<le> x \<Longrightarrow> 0 \<le> nearest64 x"
proof -
  assume x: "0 \<le> x"
  have "0 \<le> x / 2 powi (exponent64 x - 52)" using x ulp_pos[of "exponent64 x - 52"] by simp
  then have "0 \<le> rne (x / 2 powi (exponent64 x - 52))" using rne_mono[of 0] by (simp add: rne_0)
  then show ?thesis using ulp_pos[of "exponent64 x - 52"] by (simp add: nearest64_def)
qed

lemma ulp_scale: "2 ^ 53 * (2::real) powi (e - 52) = 2 powi (e + 1)"
  and ulp_scale': "2 ^ 52 * (2::real) powi (e - 52) = 2 powi e"
proof -
  have "(2::real) powi 53 * 2 powi (e - 52) = 2 powi (53 + (e - 52))"
    by (rule power_int_add[symmetric]) simp
  then show "2 ^ 53 * (2::real) powi (e - 52) = 2 powi (e + 1)" by (simp add: algebra_simps)
  have "(2::real) powi 52 * 2 powi (e - 52) = 2 powi (52 + (e - 52))"
    by (rule power_int_add[symmetric]) simp
  then show "2 ^ 52 * (2::real) powi (e - 52) = 2 powi e" by simp
qed

lemma nearest64_upper:
  assumes "0 < x"
  shows "nearest64 x \<le> 2 powi (exponent64 x + 1)"
proof -
  let ?u = "(2::real) powi (exponent64 x - 52)"
  have u: "0 < ?u" by (rule ulp_pos)
  have "x < 2 powi (exponent64 x + 1)" using exponent64_bounds(2)[of x] assms by simp
  then have "x < 2 ^ 53 * ?u" by (simp only: ulp_scale)
  then have "x / ?u \<le> 2 ^ 53" using u by (simp add: divide_le_eq)
  then have "rne (x / ?u) \<le> rne (of_int (2 ^ 53))" by (intro rne_mono) simp
  then have "rne (x / ?u) \<le> 2 ^ 53" by (simp only: rne_of_int)
  then have "real_of_int (rne (x / ?u)) \<le> real_of_int (2 ^ 53)" by (simp only: of_int_le_iff)
  then have "real_of_int (rne (x / ?u)) \<le> 2 ^ 53" by simp
  then have "real_of_int (rne (x / ?u)) * ?u \<le> 2 ^ 53 * ?u" using u by (simp add: mult_right_mono)
  then have "real_of_int (rne (x / ?u)) * ?u \<le> 2 powi (exponent64 x + 1)" by (simp only: ulp_scale)
  then show ?thesis using assms by (simp add: nearest64_def)
qed

lemma nearest64_lower:
  assumes "0 < x" and "- 1022 < exponent64 x"
  shows "2 powi (exponent64 x) \<le> nearest64 x"
proof -
  let ?u = "(2::real) powi (exponent64 x - 52)"
  have u: "0 < ?u" by (rule ulp_pos)
  have "2 powi (exponent64 x) \<le> x" using exponent64_bounds(3)[of x] assms by simp
  then have "2 ^ 52 * ?u \<le> x" by (simp only: ulp_scale')
  then have "2 ^ 52 \<le> x / ?u" using u by (simp add: le_divide_eq)
  then have "rne (of_int (2 ^ 52)) \<le> rne (x / ?u)" by (intro rne_mono) simp
  then have "2 ^ 52 \<le> rne (x / ?u)" by (simp only: rne_of_int)
  then have "real_of_int (2 ^ 52) \<le> real_of_int (rne (x / ?u))" by (simp only: of_int_le_iff)
  then have "2 ^ 52 \<le> real_of_int (rne (x / ?u))" by simp
  then have "2 ^ 52 * ?u \<le> real_of_int (rne (x / ?u)) * ?u" using u by (simp add: mult_right_mono)
  then have "2 powi (exponent64 x) \<le> real_of_int (rne (x / ?u)) * ?u" by (simp only: ulp_scale')
  then show ?thesis using assms by (simp add: nearest64_def)
qed

lemma nearest64_mono_pos:
  assumes "0 < x" and "x \<le> y"
  shows "nearest64 x \<le> nearest64 y"
proof (cases "exponent64 x = exponent64 y")
  case True
  let ?u = "(2::real) powi (exponent64 y - 52)"
  have u: "0 < ?u" by (rule ulp_pos)
  have "x / ?u \<le> y / ?u" using assms u by (simp add: divide_right_mono)
  then have "rne (x / ?u) \<le> rne (y / ?u)" by (rule rne_mono)
  then have "real_of_int (rne (x / ?u)) * ?u \<le> real_of_int (rne (y / ?u)) * ?u"
    using u by (simp add: mult_right_mono)
  then show ?thesis using assms by (simp add: nearest64_def True)
next
  case False
  then have lt: "exponent64 x < exponent64 y" using exponent64_mono[OF assms] by simp
  have y: "0 < y" using assms by simp
  have "- 1022 \<le> exponent64 x" using exponent64_bounds(1)[of x] assms by simp
  then have "- 1022 < exponent64 y" using lt by simp
  then have 1: "2 powi (exponent64 y) \<le> nearest64 y" by (rule nearest64_lower[OF y])
  have 2: "nearest64 x \<le> 2 powi (exponent64 x + 1)" by (rule nearest64_upper[OF assms(1)])
  have "(2::real) powi (exponent64 x + 1) \<le> 2 powi (exponent64 y)"
    by (rule power_int_increasing) (use lt in simp_all)
  then show ?thesis using 1 2 by linarith
qed

lemma nearest64_mono: "x \<le> y \<Longrightarrow> nearest64 x \<le> nearest64 y"
proof -
  assume xy: "x \<le> y"
  consider "0 < x" | "x \<le> 0" "0 \<le> y" | "y < 0" by linarith
  then show ?thesis
  proof cases
    case 1
    then show ?thesis using xy by (rule nearest64_mono_pos)
  next
    case 2
    have "0 \<le> nearest64 (- x)" using 2 by (intro nearest64_nonneg) simp
    then have "nearest64 x \<le> 0" by (simp add: nearest64_minus)
    then show ?thesis using nearest64_nonneg[OF 2(2)] by linarith
  next
    case 3
    have "nearest64 (- y) \<le> nearest64 (- x)"
      by (rule nearest64_mono_pos) (use 3 xy in simp_all)
    then show ?thesis by (simp add: nearest64_minus)
  qed
qed

text \<open>Every rounded value is a multiple of the smallest positive double.\<close>

lemma nearest64_grid: "\<exists>k::int. nearest64 x = of_int k * 2 powi (- 1074)"
proof (cases "x = 0")
  case True
  then show ?thesis by (intro exI[of _ 0]) (simp add: nearest64_def)
next
  case False
  let ?e = "exponent64 x"
  have e: "- 1022 \<le> ?e" by (rule exponent64_bounds(1)[OF False])
  have "(2::real) powi (?e - 52) = 2 powi (?e + 1022) * 2 powi (- 1074)"
    using power_int_add[of "2::real" "?e + 1022" "- 1074"] by simp
  also have "(2::real) powi (?e + 1022) = 2 ^ nat (?e + 1022)"
    using e by (simp add: power_int_nonneg_exp)
  finally have "nearest64 x = of_int (rne (x / 2 powi (?e - 52)) * 2 ^ nat (?e + 1022)) * 2 powi (- 1074)"
    using False by (simp add: nearest64_def)
  then show ?thesis by blast
qed

lemma nearest64_nonzero:
  assumes "2 powi (- 1074) \<le> \<bar>x\<bar>"
  shows "nearest64 x \<noteq> 0"
proof -
  have pos_case: "nearest64 z \<noteq> 0" if z: "2 powi (- 1074) \<le> z" for z
  proof -
    have z0: "0 < z" using z ulp_pos[of "- 1074"] by linarith
    let ?u = "(2::real) powi (exponent64 z - 52)"
    have u: "0 < ?u" by (rule ulp_pos)
    have "?u \<le> z"
    proof (cases "- 1022 < exponent64 z")
      case True
      have "?u \<le> 2 powi (exponent64 z)" by (rule power_int_increasing) simp_all
      then show ?thesis using exponent64_bounds(3)[of z] True z0 by simp
    next
      case False
      then have "exponent64 z = - 1022" using exponent64_bounds(1)[of z] z0 by simp
      then show ?thesis using z by simp
    qed
    then have "1 \<le> z / ?u" using u by (simp add: le_divide_eq)
    then have "rne (of_int 1) \<le> rne (z / ?u)" by (intro rne_mono) simp
    then have "1 \<le> rne (z / ?u)" by (simp only: rne_of_int)
    then have "0 < real_of_int (rne (z / ?u)) * ?u" using u by simp
    moreover have "nearest64 z = real_of_int (rne (z / ?u)) * ?u" using z0 by (simp add: nearest64_def)
    ultimately show ?thesis by linarith
  qed
  show ?thesis
  proof (cases "0 \<le> x")
    case True
    then show ?thesis using pos_case[of x] assms by simp
  next
    case False
    then have "nearest64 (- x) \<noteq> 0" using pos_case[of "- x"] assms by simp
    then show ?thesis by (simp add: nearest64_minus)
  qed
qed

lemma is_double_nearest: "is_double x \<Longrightarrow> nearest64 x = x"
  by (simp add: is_double_def round64_def Let_def split: if_splits)

lemma grid_gap:
  assumes "0 < (g::real)" and "k \<noteq> (l::int)"
  shows "g \<le> \<bar>of_int k * g - of_int l * g\<bar>"
proof -
  have 1: "1 \<le> \<bar>real_of_int (k - l)\<bar>" using assms(2) by linarith
  have "of_int k * g - of_int l * g = real_of_int (k - l) * g" by (simp add: algebra_simps)
  then have "\<bar>of_int k * g - of_int l * g\<bar> = \<bar>real_of_int (k - l)\<bar> * g"
    using assms(1) by (simp add: abs_mult)
  moreover have "1 * g \<le> \<bar>real_of_int (k - l)\<bar> * g"
    using 1 assms(1) by (intro mult_right_mono) simp_all
  ultimately show ?thesis by simp
qed

lemma round64_difference:
  assumes "is_double x" and "is_double y" and "x \<noteq> y"
  shows "round64 (x - y) \<noteq> Num 0" and "round64 (x - y) \<noteq> NaN"
proof -
  obtain k where k: "x = of_int k * 2 powi (- 1074)"
    using nearest64_grid[of x] is_double_nearest[OF assms(1)] by auto
  obtain l where l: "y = of_int l * 2 powi (- 1074)"
    using nearest64_grid[of y] is_double_nearest[OF assms(2)] by auto
  have "k \<noteq> l" using assms(3) k l by auto
  then have "(2::real) powi (- 1074) \<le> \<bar>of_int k * 2 powi (- 1074) - of_int l * 2 powi (- 1074)\<bar>"
    by (rule grid_gap[OF ulp_pos])
  then have "2 powi (- 1074) \<le> \<bar>x - y\<bar>"
    unfolding k[symmetric] l[symmetric] .
  then have "nearest64 (x - y) \<noteq> 0" by (rule nearest64_nonzero)
  then show "round64 (x - y) \<noteq> Num 0" by (simp add: round64_def Let_def)
  show "round64 (x - y) \<noteq> NaN" by (simp add: round64_def Let_def)
qed

lemma round64_not_NaN: "round64 x \<noteq> NaN"
  by (simp add: round64_def Let_def)

text \<open>
  A multiple \<open>m * 2 powi k\<close> of a power of two with \<open>\<bar>m\<bar> < 2 ^ 53\<close> and
  \<open>- 1074 \<le> k \<le> 971\<close> is a double.
\<close>

lemma is_double_dyadic:
  assumes "\<bar>m\<bar> < 2 ^ 53" and "- 1074 \<le> k" and "k \<le> 971"
  shows "is_double (of_int m * 2 powi k)"
proof (cases "m = 0")
  case True
  then show ?thesis by (simp add: is_double_def round64_0)
next
  case False
  define x where "x = real_of_int m * 2 powi k"
  define ee where "ee = exponent64 x"
  have pk: "0 < (2::real) powi k" by (rule ulp_pos)
  have x0: "x \<noteq> 0" using False pk by (simp add: x_def)
  have "\<bar>real_of_int m\<bar> < real_of_int (2 ^ 53)"
    using assms(1) by (simp only: of_int_less_iff flip: of_int_abs)
  then have m53: "\<bar>real_of_int m\<bar> < 2 ^ 53" by simp
  have ax: "\<bar>x\<bar> = \<bar>real_of_int m\<bar> * 2 powi k" using pk by (simp add: abs_mult x_def)
  have s53: "2 ^ 53 * (2::real) powi k = 2 powi (k + 53)"
    using power_int_add[of "2::real" 53 k] by (simp add: add.commute)
  have "\<bar>real_of_int m\<bar> * 2 powi k < 2 ^ 53 * 2 powi k"
    using m53 pk by (intro mult_strict_right_mono)
  then have lt: "\<bar>x\<bar> < 2 powi (k + 53)"
    unfolding ax s53 .
  have e: "ee \<le> k + 52"
  proof (rule ccontr)
    assume "\<not> ee \<le> k + 52"
    then have ge: "k + 53 \<le> ee" by simp
    then have "- 1022 < exponent64 x" using assms(2) by (simp add: ee_def)
    then have "2 powi ee \<le> \<bar>x\<bar>" unfolding ee_def by (rule exponent64_bounds(3)[OF x0])
    moreover have "(2::real) powi (k + 53) \<le> 2 powi ee"
      by (rule power_int_increasing[OF ge]) simp
    ultimately show False using lt by linarith
  qed
  define j where "j = nat (k + 52 - ee)"
  have j: "k = int j + (ee - 52)" using e by (simp add: j_def)
  have "(2::real) powi (int j + (ee - 52)) = 2 powi (int j) * 2 powi (ee - 52)"
    by (rule power_int_add) simp
  then have pkj: "(2::real) powi k = 2 ^ j * 2 powi (ee - 52)"
    unfolding j[symmetric] by simp
  have u: "(2::real) powi (ee - 52) \<noteq> 0" using ulp_pos[of "ee - 52"] by simp
  have "x / 2 powi (ee - 52) = real_of_int (m * 2 ^ j)"
    unfolding x_def pkj using u by simp
  then have "rne (x / 2 powi (ee - 52)) = m * 2 ^ j"
    by (simp only: rne_of_int)
  then have "nearest64 x = real_of_int (m * 2 ^ j) * 2 powi (ee - 52)"
    using x0 by (simp add: nearest64_def ee_def)
  also have "\<dots> = x" unfolding x_def pkj by simp
  finally have n: "nearest64 x = x" .
  have "(2::real) powi (k + 53) \<le> 2 powi 1024"
    by (rule power_int_increasing) (use assms(3) in simp_all)
  then have "\<bar>x\<bar> < 2 ^ 1024" using lt by simp
  then have "is_double x"
    unfolding is_double_def round64_def Let_def n by (simp add: abs_less_iff)
  then show ?thesis unfolding x_def .
qed

lemma is_double_int:
  assumes "\<bar>m\<bar> < 2 ^ 53"
  shows "round64 (of_int m) = Num (of_int m)"
  using is_double_dyadic[OF assms, of 0] by (simp add: is_double_def)

lemma is_double_half:
  assumes "\<bar>m\<bar> < 2 ^ 53"
  shows "round64 (of_int m / 2) = Num (of_int m / 2)"
  using is_double_dyadic[OF assms, of "- 1"] by (simp add: is_double_def)

text \<open>
  Rounding is monotone and leaves a double as it is: a real between two doubles
  rounds to a double between them.
\<close>

lemma round64_between:
  assumes "is_double c" and "is_double d" and "c \<le> x" and "x \<le> d"
  shows "round64 x = Num (nearest64 x) \<and> c \<le> nearest64 x \<and> nearest64 x \<le> d"
proof -
  have c: "nearest64 c = c" and cb: "- (2 ^ 1024) < c"
    using assms(1) by (simp_all add: is_double_def round64_def Let_def not_le split: if_splits)
  have d: "nearest64 d = d" and db: "d < 2 ^ 1024"
    using assms(2) by (simp_all add: is_double_def round64_def Let_def not_le split: if_splits)
  have 1: "c \<le> nearest64 x" using nearest64_mono[OF assms(3)] c by simp
  have 2: "nearest64 x \<le> d" using nearest64_mono[OF assms(4)] d by simp
  show ?thesis using 1 2 cb db by (simp add: round64_def Let_def)
qed

subsection \<open>The quantizer\<close>

lemma min_max_loop_Num:
  "min_max_loop xs (Num a, Num b) = (Num (fold min xs a), Num (fold max xs b))"
  by (induction xs arbitrary: a b) (auto simp: min_def max_def)

lemma js_sub_Num: "js_sub (Num x) (Num y) = Num (x - y)"
  by (simp add: js_sub_def)

lemma min_max_loop_nonempty:
  assumes "e \<noteq> []"
  shows "min_max_loop e (PosInf, NegInf) = (Num (Min (set e)), Num (Max (set e)))"
proof -
  obtain x xs where e: "e = x # xs" using assms by (cases e) auto
  have "min_max_loop e (PosInf, NegInf) = (Num (fold min xs x), Num (fold max xs x))"
    by (simp add: e min_max_loop_Num)
  moreover have "fold min xs x = Min (set e)"
    unfolding e by (rule Min.set_eq_fold[symmetric])
  moreover have "fold max xs x = Max (set e)"
    unfolding e by (rule Max.set_eq_fold[symmetric])
  ultimately show ?thesis by simp
qed

lemma js_or_round64: "js_or (round64 d) (Num 1) = (if round64 d = Num 0 then Num 1 else round64 d)"
  by (simp add: js_or_def js_truthy_def round64_not_NaN)

lemma quantize_nonempty:
  assumes "e \<noteq> []"
  shows "quantizeEmbedding e = map (quant_entry e) e"
  unfolding quantizeEmbedding_def min_max_loop_nonempty[OF assms]
  by (simp add: js_sub_Num js_or_round64 quant_entry_def quant_range_def Let_def)

lemma round64_minus_128: "round64 (- 128) = Num (- 128)"
  using is_double_int[of "- 128"] by simp

lemma round64_eval:
  assumes "2 powi e \<le> \<bar>x\<bar>" and "\<bar>x\<bar> < 2 powi (e + 1)" and "- 1022 \<le> e"
    and "rne (x / 2 powi (e - 52)) = m"
    and "\<bar>real_of_int m * 2 powi (e - 52)\<bar> < 2 ^ 1024"
  shows "round64 x = Num (of_int m * 2 powi (e - 52))"
  unfolding round64_def Let_def nearest64_eval[OF assms(1-4)]
  using assms(5) by (simp add: abs_less_iff)

lemma quant_entry_steps:
  assumes "round64 (v - Min (set e)) = Num a" and "quant_range e = Num r" and "r \<noteq> 0"
    and "round64 (a / r) = Num n" and "round64 (n * 255) = Num p" and "round64 (p - 128) = Num s"
  shows "quant_entry e v = Num (of_int (math_round s))"
  by (simp add: quant_entry_def assms js_sub_Num)

lemma math_round_bounds:
  assumes "- 128 \<le> s" and "s \<le> 127"
  shows "- 128 \<le> math_round s \<and> math_round s \<le> 127"
proof -
  have "- 128 \<le> \<lfloor>s + 1 / 2\<rfloor>" using assms(1) by (simp add: le_floor_iff)
  moreover have "\<lfloor>s + 1 / 2\<rfloor> < 128" using assms(2) by (simp add: floor_less_iff)
  ultimately show ?thesis by (simp add: math_round_def)
qed

text \<open>
  When the spread \<open>max - min\<close> does not overflow, every entry is an integer of the
  signed 8-bit range.
\<close>

lemma quant_entry_in_range:
  assumes "v \<in> set e" and "round64 (Max (set e) - Min (set e)) \<noteq> PosInf"
  shows "\<exists>k::int. quant_entry e v = Num (of_int k) \<and> - 128 \<le> k \<and> k \<le> 127"
proof -
  let ?mn = "Min (set e)" and ?mx = "Max (set e)"
  have lo: "?mn \<le> v" and hi: "v \<le> ?mx" using assms(1) by simp_all
  define r where "r = nearest64 (?mx - ?mn)"
  define a where "a = nearest64 (v - ?mn)"
  have r0: "0 \<le> r" unfolding r_def using lo hi by (intro nearest64_nonneg) simp
  have rb: "r < 2 ^ 1024"
    using assms(2) by (simp add: round64_def Let_def r_def not_le split: if_splits)
  have R: "round64 (?mx - ?mn) = Num r"
    using r0 rb by (simp add: round64_def Let_def r_def)
  have a0: "0 \<le> a" unfolding a_def using lo by (intro nearest64_nonneg) simp
  have ar: "a \<le> r" unfolding a_def r_def using hi by (intro nearest64_mono) simp
  have A: "round64 (v - ?mn) = Num a"
    using a0 ar rb by (simp add: round64_def Let_def a_def)
  define \<rho> where "\<rho> = (if r = 0 then 1 else r)"
  have Q: "quant_range e = Num \<rho>" by (simp add: quant_range_def R \<rho>_def)
  have \<rho>0: "0 < \<rho>" using r0 by (simp add: \<rho>_def)
  have a\<rho>: "a \<le> \<rho>" using ar a0 by (simp add: \<rho>_def)
  have d0: "is_double 0" using is_double_dyadic[of 0 0] by simp
  have d1: "is_double 1" using is_double_dyadic[of 1 0] by simp
  have d255: "is_double 255" using is_double_dyadic[of 255 0] by simp
  have d127: "is_double 127" using is_double_dyadic[of 127 0] by simp
  have d128: "is_double (- 128)" using is_double_dyadic[of "- 128" 0] by simp
  have t: "0 \<le> a / \<rho>" "a / \<rho> \<le> 1" using a0 a\<rho> \<rho>0 by simp_all
  define n where "n = nearest64 (a / \<rho>)"
  have N: "round64 (a / \<rho>) = Num n" and n: "0 \<le> n" "n \<le> 1"
    using round64_between[OF d0 d1 t] by (simp_all add: n_def)
  define p where "p = nearest64 (n * 255)"
  have P: "round64 (n * 255) = Num p" and p: "0 \<le> p" "p \<le> 255"
    using round64_between[OF d0 d255, of "n * 255"] n by (simp_all add: p_def)
  define s where "s = nearest64 (p - 128)"
  have S: "round64 (p - 128) = Num s" and s: "- 128 \<le> s" "s \<le> 127"
    using round64_between[OF d128 d127, of "p - 128"] p by (simp_all add: s_def)
  have "quant_entry e v = Num (of_int (math_round s))"
    using \<rho>0 by (intro quant_entry_steps[OF A Q _ N P S]) simp
  then show ?thesis using math_round_bounds[OF s] by blast
qed

lemma quantizeEmbedding_in_range:
  assumes "round64 (Max (set e) - Min (set e)) \<noteq> PosInf"
  shows "\<forall>q \<in> set (quantizeEmbedding e). \<exists>k::int. q = Num (of_int k) \<and> - 128 \<le> k \<and> k \<le> 127"
proof (cases "e = []")
  case True
  then show ?thesis by (simp add: quantizeEmbedding_def)
next
  case False
  show ?thesis
    unfolding quantize_nonempty[OF False] using quant_entry_in_range[OF _ assms] by auto
qed

text \<open>
  Claim C4. For every input vector the quantizer returns a vector of the same
  length. It takes the minimum and the maximum of the components, uses the range 1
  when their difference is zero and the difference otherwise, and maps each
  component \<open>v\<close> to \<open>round(((v - min) / range) * 255 - 128)\<close>, each operation
  in double precision. For components that are doubles the difference is zero
  exactly when the maximum equals the minimum. Unless the difference overflows,
  every entry of the result is an integer of the signed 8-bit range. A vector of
  \<open>n\<close> identical values \<open>c\<close> (all 0.5, say) is mapped to \<open>n\<close> times \<open>-128\<close>:
  every entry is a number of the signed 8-bit range, none is \<open>NaN\<close>.
\<close>

theorem quantizeEmbedding_spec:
  "length (quantizeEmbedding e) = length e
   \<and> quantizeEmbedding e =
        map (\<lambda>v. js_round (rounded (js_sub
               (rounded (js_mul
                  (rounded (js_div
                     (rounded (js_sub (Num v) (Num (Min (set e)))))
                     (if rounded (js_sub (Num (Max (set e))) (Num (Min (set e)))) = Num 0 then Num 1
                      else rounded (js_sub (Num (Max (set e))) (Num (Min (set e)))))))
                  (Num 255)))
               (Num 128)))) e
   \<and> (e \<noteq> [] \<and> (\<forall>v \<in> set e. is_double v) \<longrightarrow>
        (rounded (js_sub (Num (Max (set e))) (Num (Min (set e)))) = Num 0
           \<longleftrightarrow> Max (set e) = Min (set e)))
   \<and> (rounded (js_sub (Num (Max (set e))) (Num (Min (set e)))) \<noteq> PosInf \<longrightarrow>
        (\<forall>q \<in> set (quantizeEmbedding e). \<exists>k::int. q = Num (of_int k) \<and> - 128 \<le> k \<and> k \<le> 127))
   \<and> quantizeEmbedding (replicate n c) = replicate n (Num (- 128))"
proof (intro conjI impI)
  show "length (quantizeEmbedding e) = length e"
    by (simp add: quantizeEmbedding_def split: prod.splits)
next
  show "quantizeEmbedding e =
        map (\<lambda>v. js_round (rounded (js_sub
               (rounded (js_mul
                  (rounded (js_div
                     (rounded (js_sub (Num v) (Num (Min (set e)))))
                     (if rounded (js_sub (Num (Max (set e))) (Num (Min (set e)))) = Num 0 then Num 1
                      else rounded (js_sub (Num (Max (set e))) (Num (Min (set e)))))))
                  (Num 255)))
               (Num 128)))) e"
  proof (cases "e = []")
    case True
    then show ?thesis by (simp add: quantizeEmbedding_def)
  next
    case False
    then show ?thesis
      by (simp add: quantize_nonempty quant_entry_def quant_range_def js_sub_Num)
  qed
next
  assume a: "e \<noteq> [] \<and> (\<forall>v \<in> set e. is_double v)"
  then have mx: "is_double (Max (set e))" and mn: "is_double (Min (set e))"
    by simp_all
  show "rounded (js_sub (Num (Max (set e))) (Num (Min (set e)))) = Num 0
           \<longleftrightarrow> Max (set e) = Min (set e)"
    using round64_difference(1)[OF mx mn] by (auto simp: js_sub_Num round64_0)
next
  assume "rounded (js_sub (Num (Max (set e))) (Num (Min (set e)))) \<noteq> PosInf"
  then have "round64 (Max (set e) - Min (set e)) \<noteq> PosInf" by (simp add: js_sub_Num)
  then show "\<forall>q \<in> set (quantizeEmbedding e). \<exists>k::int. q = Num (of_int k) \<and> - 128 \<le> k \<and> k \<le> 127"
    by (rule quantizeEmbedding_in_range)
next
  show "quantizeEmbedding (replicate n c) = replicate n (Num (- 128))"
  proof (cases n)
    case 0
    then show ?thesis by (simp add: quantizeEmbedding_def)
  next
    case (Suc m)
    then have ne: "replicate n c \<noteq> []" by simp
    have s: "set (replicate n c) = {c}" by (rule set_replicate) (simp add: Suc)
    have q: "quant_entry (replicate n c) c = Num (- 128)"
      by (simp add: quant_entry_def quant_range_def s round64_0 js_sub_Num round64_minus_128
          math_round_def)
    show ?thesis
      by (simp add: quantize_nonempty[OF ne] q map_replicate_const)
  qed
qed

lemma round64_examples:
  "round64 (1 / 2) = Num (1 / 2)" "round64 1 = Num 1" "round64 (255 / 2) = Num (255 / 2)"
  "round64 255 = Num 255" "round64 127 = Num 127" "round64 (- (1 / 2)) = Num (- (1 / 2))"
  using is_double_half[of 1] is_double_int[of 1] is_double_half[of 255] is_double_int[of 255]
    is_double_int[of 127] is_double_half[of "- 1"]
  by simp_all

text \<open>
  The theorem at \<open>[0.5, 0.5, 0.5]\<close> (all identical) and at \<open>[0, 0.5, 1]\<close>
  (doubles; the ends of the 8-bit range are reached; 127.5 - 128 rounds up to 0).
\<close>

theorem quantizeEmbedding_spec_witness:
  "quantizeEmbedding [1 / 2, 1 / 2, 1 / 2] = [Num (- 128), Num (- 128), Num (- 128)]
   \<and> quantizeEmbedding [0, 1 / 2, 1] = [Num (- 128), Num 0, Num 127]
   \<and> is_double 0 \<and> is_double (1 / 2) \<and> is_double 1
   \<and> rounded (js_sub (Num (Max (set [0, 1 / 2, 1]))) (Num (Min (set [0, 1 / 2, 1])))) \<noteq> Num 0
   \<and> rounded (js_sub (Num (Max (set [0, 1 / 2, 1]))) (Num (Min (set [0, 1 / 2, 1])))) \<noteq> PosInf
   \<and> (\<exists>k::int. quantizeEmbedding [0, 1 / 2, 1] ! 1 = Num (of_int k) \<and> - 128 \<le> k \<and> k \<le> 127)"
proof -
  note T = quantizeEmbedding_spec[of "[0, 1 / 2, 1]" "Suc (Suc (Suc 0))" "1 / 2"]
  have d: "is_double 0 \<and> is_double (1 / 2) \<and> is_double 1"
    using is_double_dyadic[of 0 0] is_double_dyadic[of 1 "- 1"] is_double_dyadic[of 1 0]
    by (simp add: power_int_minus)
  have r: "rounded (js_sub (Num (Max (set [0, 1 / 2, 1]))) (Num (Min (set [0, 1 / 2, 1])))) = Num 1"
    by (simp add: js_sub_Num round64_examples)
  have 1: "quantizeEmbedding [1 / 2, 1 / 2, 1 / 2] = [Num (- 128), Num (- 128), Num (- 128)]"
    using T by simp
  have 2: "quantizeEmbedding [0, 1 / 2, 1] = [Num (- 128), Num 0, Num 127]"
    using conjunct1[OF conjunct2[OF T]]
    by (simp add: js_sub_Num round64_examples round64_0 round64_minus_128 math_round_def)
  have 3: "rounded (js_sub (Num (Max (set [0, 1 / 2, 1]))) (Num (Min (set [0, 1 / 2, 1])))) \<noteq> Num 0"
    using mp[OF conjunct1[OF conjunct2[OF conjunct2[OF T]]]] d by simp
  have 5: "rounded (js_sub (Num (Max (set [0, 1 / 2, 1]))) (Num (Min (set [0, 1 / 2, 1])))) \<noteq> PosInf"
    using r by simp
  have "\<forall>q \<in> set (quantizeEmbedding [0, 1 / 2, 1]).
         \<exists>k::int. q = Num (of_int k) \<and> - 128 \<le> k \<and> k \<le> 127"
    by (rule mp[OF conjunct1[OF conjunct2[OF conjunct2[OF conjunct2[OF T]]]] 5])
  moreover have "quantizeEmbedding [0, 1 / 2, 1] ! 1 \<in> set (quantizeEmbedding [0, 1 / 2, 1])"
    by (rule nth_mem) (simp add: conjunct1[OF T])
  ultimately have 4: "\<exists>k::int. quantizeEmbedding [0, 1 / 2, 1] ! 1 = Num (of_int k) \<and> - 128 \<le> k \<and> k \<le> 127"
    by blast
  show ?thesis using 1 2 d 3 5 4 by blast
qed

text \<open>
  The rounding of the operations shows in the result. In \<open>[0, x, 45620]\<close> with
  \<open>x\<close> the double written \<^verbatim>\<open>1520.6666666666665\<close>, the exact value of
  \<open>x / 45620 * 255\<close> lies just below 8.5 and in double precision it is 8.5:
  the quantizer returns -119 where the formula on the reals gives -120.
\<close>

lemma quantizeEmbedding_rounds:
  "quantizeEmbedding [0, 3343981363942741 / 2199023255552, 45620]
     = [Num (- 128), Num (- 119), Num 127]
   \<and> math_round ((3343981363942741 / 2199023255552 - 0) / (45620 - 0) * 255 - 128) = - 120"
proof -
  let ?x = "3343981363942741 / 2199023255552 :: real"
  let ?e = "[0, ?x, 45620]"
  have ne: "?e \<noteq> []" by simp
  have mn: "Min (set ?e) = 0" and mx: "Max (set ?e) = 45620" by simp_all
  have R: "quant_range ?e = Num 45620"
    unfolding quant_range_def mn mx using is_double_int[of 45620] by simp
  have r0: "(45620::real) \<noteq> 0" by simp
  have x: "round64 (?x - 0) = Num ?x"
    using is_double_dyadic[of 3343981363942741 "- 41"] by (simp add: is_double_def power_int_minus)
  have n: "round64 (?x / 45620) = Num (4803839602528529 / 144115188075855872)"
    using round64_eval[of "- 5" "?x / 45620" 4803839602528529]
    by (simp add: power_int_minus rne_def)
  have p: "round64 (4803839602528529 / 144115188075855872 * 255) = Num (17 / 2)"
    using round64_eval[of 3 "4803839602528529 / 144115188075855872 * 255" 4785074604081152]
    by (simp add: power_int_minus rne_def)
  have s: "round64 (17 / 2 - 128) = Num (- (239 / 2))"
    using is_double_half[of "- 239"] by simp
  have a: "quant_entry ?e ?x = Num (of_int (math_round (- (239 / 2))))"
    by (rule quant_entry_steps[OF _ R r0 n p s]) (simp only: mn x)
  have z0: "round64 (0 - 0) = Num 0" "round64 (0 / 45620) = Num 0" "round64 (0 * 255) = Num 0"
    "round64 (0 - 128) = Num (- 128)"
    by (simp_all add: round64_0 round64_minus_128)
  have b: "quant_entry ?e 0 = Num (of_int (math_round (- 128)))"
    by (rule quant_entry_steps[OF _ R r0 z0(2) z0(3) z0(4)]) (simp only: mn z0(1))
  have z1: "round64 (45620 - 0) = Num 45620" "round64 (45620 / 45620) = Num 1"
    "round64 (1 * 255) = Num 255" "round64 (255 - 128) = Num 127"
    using is_double_int[of 45620] by (simp_all add: round64_examples)
  have c: "quant_entry ?e 45620 = Num (of_int (math_round 127))"
    by (rule quant_entry_steps[OF _ R r0 z1(2) z1(3) z1(4)]) (simp only: mn z1(1))
  have "quantizeEmbedding ?e = [Num (- 128), Num (- 119), Num 127]"
    unfolding quantize_nonempty[OF ne] by (simp add: a b c math_round_def)
  moreover have "math_round ((?x - 0) / (45620 - 0) * 255 - 128) = - 120"
    by (simp add: math_round_def)
  ultimately show ?thesis by simp
qed

text \<open>
  When the difference \<open>max - min\<close> overflows, the range is infinite and the
  component at the maximum is mapped to \<open>NaN\<close>.
\<close>

lemma round64_overflow: "round64 (2 ^ 1024) = PosInf"
proof -
  have "nearest64 (2 ^ 1024) = real_of_int (2 ^ 52) * 2 powi (1024 - 52)"
    by (rule nearest64_eval) (simp_all add: rne_def)
  then show ?thesis by (simp add: round64_def)
qed

lemma quantizeEmbedding_overflow:
  "quantizeEmbedding [- (2 ^ 1023), 2 ^ 1023] = [Num (- 128), NaN]"
proof -
  let ?e = "[- (2 ^ 1023), 2 ^ 1023] :: real list"
  have ne: "?e \<noteq> []" by simp
  have mn: "Min (set ?e) = - (2 ^ 1023)" and mx: "Max (set ?e) = 2 ^ 1023" by simp_all
  have d: "2 ^ 1023 - - (2 ^ 1023) = (2::real) ^ 1024" by simp
  have z: "- (2 ^ 1023) - - (2 ^ 1023) = (0::real)" by simp
  have R: "quant_range ?e = PosInf"
    unfolding quant_range_def mn mx d round64_overflow by simp
  have a: "quant_entry ?e (- (2 ^ 1023)) = Num (- 128)"
    unfolding quant_entry_def R mn z round64_0
    by (simp add: round64_0 js_sub_Num round64_minus_128 math_round_def)
  have b: "quant_entry ?e (2 ^ 1023) = NaN"
    unfolding quant_entry_def R mn d round64_overflow
    by (simp add: js_sub_def)
  show ?thesis
    unfolding quantize_nonempty[OF ne] using a b by simp
qed

subsection \<open>The retrieval scorer\<close>






lemma js_ge_not_NaN: "js_ge a b \<Longrightarrow> a \<noteq> NaN"
  by (simp add: js_ge_def)









lemma js_slice0_take:
  "0 \<le> lmt \<Longrightarrow> js_slice0 lmt xs = take (nat \<lfloor>lmt\<rfloor>) xs"
  by (auto simp: js_slice0_def to_integer_def Let_def min_def)

lemma js_slice0_length:
  assumes "0 \<le> lmt"
  shows "real (length (js_slice0 lmt xs)) \<le> lmt"
proof -
  have "real (length (js_slice0 lmt xs)) \<le> real (nat \<lfloor>lmt\<rfloor>)"
    by (simp add: js_slice0_take[OF assms])
  also have "\<dots> \<le> lmt" using assms by simp
  finally show ?thesis .
qed

lemma descending_take: "descending xs \<Longrightarrow> descending (take n xs)"
  unfolding descending_def by (rule sorted_wrt_take)










text \<open>
  Claim C2 says that the similarity is exactly 0 whenever a vector is empty or has
  zero magnitude. The guard of \<^verbatim>\<open>cosineSim\<close> covers a missing vector and
  differing lengths only; for a zero vector, and for two empty vectors, the
  function divides 0 by 0 and returns \<open>NaN\<close>.
\<close>

theorem cosineSim_zero_magnitude:
  "cosineSim (Some [Num 0, Num 0]) (Some [Num 1, Num 2]) = NaN
   \<and> cosineSim (Some []) (Some []) = NaN"
  by (simp add: cosineSim_def)

subsection \<open>Text cleaning and query enrichment\<close>

text \<open>
  Claim C10 says that the cleaned text has no two consecutive whitespace characters
  and no remaining \<open>Page N of M\<close> footer. The code collapses the whitespace first
  and removes the footers afterwards, in one pass: a footer between two words
  leaves the two spaces around it side by side, and a footer inside the numbers of
  another one leaves a text that is a footer again.
\<close>

theorem cleanText_leaves_double_space:
  "cleanText ''a Page 1 of 2 b'' = ''a  b''
   \<and> cleanText ''Page 1 Page 2 of 3 of 4'' = ''Page 1  of 4''
   \<and> m_footer None ''Page 1  of 4'' = Some 12"
  by code_simp

text \<open>
  Claim C9 says that every abbreviation of the synonym table that occurs as a whole
  word is expanded, \<^verbatim>\<open>RTO-C\<close> in particular. The table is applied in the order
  of its keys, and \<^verbatim>\<open>rto\<close> comes first: the hyphen is a word boundary, so
  \<^verbatim>\<open>\brto\b\<close> matches inside \<^verbatim>\<open>rto-c\<close>, and the entry for \<^verbatim>\<open>rto-c\<close> no longer
  finds its key in the query.
\<close>

theorem enhanceQuery_rto_c:
  "enhanceQuery ''RTO-C'' = ''RTO Residential Transit Oriented-c''
   \<and> \<not> str_includes (enhanceQuery ''RTO-C'') ''Residential Transit Oriented Commercial''
   \<and> enhanceQuery ''parking in RTO-C zones''
       = ''parking in RTO Residential Transit Oriented-c zones''"
  by code_simp

subsection \<open>The chunk normalizer\<close>

lemma populated_iff: "populated xs = (\<exists>y ys. xs = Some (y # ys))"
  by (auto simp: populated_def split: option.splits list.splits)

lemma not_populated_cases: "\<not> populated xs \<Longrightarrow> xs = None \<or> xs = Some []"
  by (auto simp: populated_def split: option.splits list.splits)

lemma transform_result_chunks:
  "result_field r res_chunks = Some cs \<Longrightarrow> cs \<noteq> [] \<Longrightarrow>
   transformPipelineResponse det r = from_result_chunks det cs"
  by (cases cs) (simp_all add: transformPipelineResponse_def)

lemma transform_result_blocks:
  "\<not> populated (result_field r res_chunks) \<Longrightarrow> result_field r res_blocks = Some bs \<Longrightarrow> bs \<noteq> [] \<Longrightarrow>
   transformPipelineResponse det r = from_result_blocks det bs"
  by (cases bs) (auto simp: transformPipelineResponse_def dest!: not_populated_cases)

lemma transform_toplevel_chunks:
  "\<not> populated (result_field r res_chunks) \<Longrightarrow> \<not> populated (result_field r res_blocks) \<Longrightarrow>
   pr_chunks r = Some tcs \<Longrightarrow>
   transformPipelineResponse det r = from_toplevel_chunks det tcs"
  by (auto simp: transformPipelineResponse_def dest!: not_populated_cases)

lemma transform_markdown:
  "\<not> populated (result_field r res_chunks) \<Longrightarrow> \<not> populated (result_field r res_blocks) \<Longrightarrow>
   pr_chunks r = None \<Longrightarrow> markdown_or_text r = Some md \<Longrightarrow> md \<noteq> [] \<Longrightarrow>
   transformPipelineResponse det r = from_markdown det md"
  by (auto simp: transformPipelineResponse_def truthy_str_def str_of_def dest!: not_populated_cases)

lemma transform_nothing:
  "\<not> populated (result_field r res_chunks) \<Longrightarrow> \<not> populated (result_field r res_blocks) \<Longrightarrow>
   pr_chunks r = None \<Longrightarrow> \<not> truthy_str (markdown_or_text r) \<Longrightarrow>
   transformPipelineResponse det r = []"
  by (auto simp: transformPipelineResponse_def dest!: not_populated_cases)

lemma from_markdown_two_paragraphs:
  "split_blank_lines [] md = [p1, p2] \<Longrightarrow> 10 < length (trim p1) \<Longrightarrow> 10 < length (trim p2) \<Longrightarrow>
   from_markdown det md = [createChunkFromText det (trim p1) 0, createChunkFromText det (trim p2) 1]"
  by (simp add: from_markdown_def push_text_def)

lemma split_blank_lines_nonempty: "split_blank_lines piece s \<noteq> []"
  by (induction piece s rule: split_blank_lines.induct) auto

text \<open>
  Claim C5, with the strategies chosen as the code chooses them and the paragraph
  example under the condition the code applies to a paragraph. Exactly one strategy
  produces the chunks, and the other parts of the response are not read:
  \<^item> a populated \<^verbatim>\<open>result.chunks\<close> array is normalized alone, whatever else the
    response carries (a markdown field is ignored);
  \<^item> otherwise a populated \<^verbatim>\<open>result.blocks\<close> array is normalized alone;
  \<^item> otherwise a populated top-level \<^verbatim>\<open>chunks\<close> array is normalized alone;
  \<^item> otherwise, when the response has no top-level \<^verbatim>\<open>chunks\<close> array, the first
    non-empty text among \<^verbatim>\<open>result.markdown\<close>, \<^verbatim>\<open>result.text\<close>,
    \<^verbatim>\<open>markdown\<close> and \<^verbatim>\<open>text\<close> is split into paragraphs; without one the result is
    empty;
  \<^item> a markdown text that one run of blank lines cuts into two paragraphs, each
    longer than 10 characters after trimming, yields exactly 2 chunks, numbered 0
    and 1.
\<close>

theorem transformPipelineResponse_strategy:
  "(result_field r res_chunks = Some cs \<and> cs \<noteq> [] \<longrightarrow>
      transformPipelineResponse det r = from_result_chunks det cs)
   \<and> (\<not> populated (result_field r res_chunks) \<and> result_field r res_blocks = Some bs \<and> bs \<noteq> [] \<longrightarrow>
      transformPipelineResponse det r = from_result_blocks det bs)
   \<and> (\<not> populated (result_field r res_chunks) \<and> \<not> populated (result_field r res_blocks)
      \<and> pr_chunks r = Some tcs \<and> tcs \<noteq> [] \<longrightarrow>
      transformPipelineResponse det r = from_toplevel_chunks det tcs)
   \<and> (\<not> populated (result_field r res_chunks) \<and> \<not> populated (result_field r res_blocks)
      \<and> pr_chunks r = None \<and> markdown_or_text r = Some md \<and> md \<noteq> [] \<longrightarrow>
      transformPipelineResponse det r = from_markdown det md)
   \<and> (\<not> populated (result_field r res_chunks) \<and> \<not> populated (result_field r res_blocks)
      \<and> pr_chunks r = None \<and> \<not> truthy_str (markdown_or_text r) \<longrightarrow>
      transformPipelineResponse det r = [])
   \<and> (\<not> populated (result_field r res_chunks) \<and> \<not> populated (result_field r res_blocks)
      \<and> pr_chunks r = None \<and> markdown_or_text r = Some md
      \<and> split_blank_lines [] md = [p1, p2] \<and> 10 < length (trim p1) \<and> 10 < length (trim p2) \<longrightarrow>
      transformPipelineResponse det r =
        [createChunkFromText det (trim p1) 0, createChunkFromText det (trim p2) 1])"
proof (intro conjI impI)
  assume "result_field r res_chunks = Some cs \<and> cs \<noteq> []"
  then show "transformPipelineResponse det r = from_result_chunks det cs"
    by (simp add: transform_result_chunks)
next
  assume "\<not> populated (result_field r res_chunks) \<and> result_field r res_blocks = Some bs \<and> bs \<noteq> []"
  then show "transformPipelineResponse det r = from_result_blocks det bs"
    by (simp add: transform_result_blocks)
next
  assume "\<not> populated (result_field r res_chunks) \<and> \<not> populated (result_field r res_blocks)
      \<and> pr_chunks r = Some tcs \<and> tcs \<noteq> []"
  then show "transformPipelineResponse det r = from_toplevel_chunks det tcs"
    by (simp add: transform_toplevel_chunks)
next
  assume "\<not> populated (result_field r res_chunks) \<and> \<not> populated (result_field r res_blocks)
      \<and> pr_chunks r = None \<and> markdown_or_text r = Some md \<and> md \<noteq> []"
  then show "transformPipelineResponse det r = from_markdown det md"
    by (simp add: transform_markdown)
next
  assume "\<not> populated (result_field r res_chunks) \<and> \<not> populated (result_field r res_blocks)
      \<and> pr_chunks r = None \<and> \<not> truthy_str (markdown_or_text r)"
  then show "transformPipelineResponse det r = []"
    by (simp add: transform_nothing)
next
  assume a: "\<not> populated (result_field r res_chunks) \<and> \<not> populated (result_field r res_blocks)
      \<and> pr_chunks r = None \<and> markdown_or_text r = Some md
      \<and> split_blank_lines [] md = [p1, p2] \<and> 10 < length (trim p1) \<and> 10 < length (trim p2)"
  then have "md \<noteq> []" by auto
  then have "transformPipelineResponse det r = from_markdown det md"
    using a by (simp add: transform_markdown)
  then show "transformPipelineResponse det r =
        [createChunkFromText det (trim p1) 0, createChunkFromText det (trim p2) 1]"
    using a by (simp add: from_markdown_two_paragraphs)
qed

text \<open>
  The theorem at a response that carries a populated \<^verbatim>\<open>result.chunks\<close> array and
  two markdown fields (one chunk results, from the array), and at a response that
  carries only a markdown text of 500 characters, 249 on each side of one blank line
  (two chunks result).
\<close>

theorem transformPipelineResponse_strategy_witness:
  "transformPipelineResponse no_detectors
     \<lparr>pr_result = Some \<lparr>res_chunks = Some [\<lparr>rc_content = Some ''Zoning districts'', rc_blocks = None\<rparr>],
                        res_blocks = None, res_markdown = Some ''markdown of the result'',
                        res_text = None\<rparr>,
      pr_chunks = None, pr_markdown = Some ''markdown of the response'', pr_text = None\<rparr>
   = [\<lparr>chunk_text = ''Zoning districts'', page_number = 1, bbox = full_page, chunk_index = 0,
       chunk_section = None, table_detected = False\<rparr>]
   \<and> map chunk_text (transformPipelineResponse no_detectors
        \<lparr>pr_result = None, pr_chunks = None,
         pr_markdown = Some (replicate 249 CHR ''a'' @ [newline, newline] @ replicate 249 CHR ''b''),
         pr_text = None\<rparr>)
     = [replicate 249 CHR ''a'', replicate 249 CHR ''b'']"
proof -
  let ?r1 = "\<lparr>pr_result = Some \<lparr>res_chunks = Some [\<lparr>rc_content = Some ''Zoning districts'', rc_blocks = None\<rparr>],
                        res_blocks = None, res_markdown = Some ''markdown of the result'',
                        res_text = None\<rparr>,
      pr_chunks = None, pr_markdown = Some ''markdown of the response'', pr_text = None\<rparr>"
  let ?cs = "[\<lparr>rc_content = Some ''Zoning districts'', rc_blocks = None\<rparr>]"
  let ?md = "replicate 249 CHR ''a'' @ [newline, newline] @ replicate 249 CHR ''b''"
  let ?r2 = "\<lparr>pr_result = None, pr_chunks = None, pr_markdown = Some ?md, pr_text = None\<rparr>"
  have h1: "result_field ?r1 res_chunks = Some ?cs \<and> ?cs \<noteq> []"
    by (simp add: result_field_def)
  have e1: "from_result_chunks no_detectors ?cs
            = [\<lparr>chunk_text = ''Zoning districts'', page_number = 1, bbox = full_page, chunk_index = 0,
                chunk_section = None, table_detected = False\<rparr>]"
    by code_simp
  have s: "split_blank_lines [] ?md = [replicate 249 CHR ''a'', replicate 249 CHR ''b'']"
    by code_simp
  have t: "trim (replicate 249 CHR ''a'') = replicate 249 CHR ''a''"
          "trim (replicate 249 CHR ''b'') = replicate 249 CHR ''b''"
    by code_simp+
  have h2: "\<not> populated (result_field ?r2 res_chunks) \<and> \<not> populated (result_field ?r2 res_blocks)
      \<and> pr_chunks ?r2 = None \<and> markdown_or_text ?r2 = Some ?md
      \<and> split_blank_lines [] ?md = [replicate 249 CHR ''a'', replicate 249 CHR ''b'']
      \<and> 10 < length (trim (replicate 249 CHR ''a'')) \<and> 10 < length (trim (replicate 249 CHR ''b''))"
    unfolding s t
    by (simp add: populated_def result_field_def markdown_or_text_def str_or_def truthy_str_def)
  have c: "cleanText (replicate 249 CHR ''a'') = replicate 249 CHR ''a''"
          "cleanText (replicate 249 CHR ''b'') = replicate 249 CHR ''b''"
    by code_simp+
  have A: "transformPipelineResponse no_detectors ?r1 = from_result_chunks no_detectors ?cs"
    using transformPipelineResponse_strategy[of ?r1 ?cs no_detectors] h1 by blast
  have B: "transformPipelineResponse no_detectors ?r2 =
            [createChunkFromText no_detectors (trim (replicate 249 CHR ''a'')) 0,
             createChunkFromText no_detectors (trim (replicate 249 CHR ''b'')) 1]"
    using transformPipelineResponse_strategy[of ?r2 _ no_detectors _ _ ?md
             "replicate 249 CHR ''a''" "replicate 249 CHR ''b''"] h2 by blast
  show ?thesis
    unfolding A B e1 t by (simp add: c createChunkFromText_def)
qed

text \<open>
  The claim fails as stated at two inputs. An empty top-level \<^verbatim>\<open>chunks\<close> array
  is taken as the strategy although it yields nothing, and the markdown beside it,
  which alone would yield a chunk, is not read. And a markdown text of 500
  characters with one blank line in the middle yields one chunk, not two, when one
  half is no longer than 10 characters after trimming (here: 249 spaces).
\<close>

theorem transformPipelineResponse_not_first_nonempty:
  "(\<forall>det. transformPipelineResponse det
       \<lparr>pr_result = None, pr_chunks = Some [],
        pr_markdown = Some ''A paragraph that is long enough.'', pr_text = None\<rparr> = []
     \<and> map chunk_text (from_markdown det ''A paragraph that is long enough.'')
        = [''A paragraph that is long enough.''])
   \<and> (\<forall>det. map chunk_text (transformPipelineResponse det
       \<lparr>pr_result = None, pr_chunks = None,
        pr_markdown = Some (replicate 249 CHR '' '' @ [newline, newline] @ replicate 249 CHR ''b''),
        pr_text = None\<rparr>) = [replicate 249 CHR ''b''])"
proof (intro conjI allI)
  fix det
  show "transformPipelineResponse det
       \<lparr>pr_result = None, pr_chunks = Some [],
        pr_markdown = Some ''A paragraph that is long enough.'', pr_text = None\<rparr> = []"
    by (simp add: transformPipelineResponse_def result_field_def from_toplevel_chunks_def)
next
  fix det
  have s: "split_blank_lines [] ''A paragraph that is long enough.'' = [''A paragraph that is long enough.'']"
    by code_simp
  have t: "trim ''A paragraph that is long enough.'' = ''A paragraph that is long enough.''"
    by code_simp
  have c: "cleanText ''A paragraph that is long enough.'' = ''A paragraph that is long enough.''"
    by code_simp
  show "map chunk_text (from_markdown det ''A paragraph that is long enough.'')
        = [''A paragraph that is long enough.'']"
    unfolding from_markdown_def s
    by (simp add: t c push_text_def createChunkFromText_def)
next
  fix det
  let ?md = "replicate 249 CHR '' '' @ [newline, newline] @ replicate 249 CHR ''b''"
  let ?r = "\<lparr>pr_result = None, pr_chunks = None, pr_markdown = Some ?md, pr_text = None\<rparr>"
  have s: "split_blank_lines [] ?md = [replicate 249 CHR '' '', replicate 249 CHR ''b'']"
    by code_simp
  have t: "trim (replicate 249 CHR '' '') = []"
          "trim (replicate 249 CHR ''b'') = replicate 249 CHR ''b''"
    by code_simp+
  have c: "cleanText (replicate 249 CHR ''b'') = replicate 249 CHR ''b''"
    by code_simp
  have m: "markdown_or_text ?r = Some ?md"
    by (simp add: markdown_or_text_def result_field_def str_or_def truthy_str_def)
  have "transformPipelineResponse det ?r = from_markdown det ?md"
    by (rule transform_markdown[OF _ _ _ m])
       (simp_all add: populated_def result_field_def)
  then show "map chunk_text (transformPipelineResponse det ?r) = [replicate 249 CHR ''b'']"
    unfolding from_markdown_def s
    by (simp add: t c push_text_def createChunkFromText_def)
qed

subsection \<open>The upsert engine\<close>

lemma concat_chunks_of: "0 < n \<Longrightarrow> concat (chunks_of xs n) = xs"
proof (induction xs n rule: chunks_of.induct)
  case (1 array sz)
  show ?case
  proof (cases "array = []")
    case True
    then show ?thesis by (subst chunks_of.simps) simp
  next
    case False
    then have "concat (chunks_of (drop sz array) sz) = drop sz array"
      using 1 by simp
    then show ?thesis using False 1(2) by (subst chunks_of.simps) simp
  qed
qed

lemma chunkArray_positive: "0 < n \<Longrightarrow> chunkArray xs n = Some (chunks_of xs n)"
  by (simp add: chunkArray_def)

lemma op_set_key: "doc_key (op_set doc now d) = upsert_key doc"
  by (simp add: doc_key_def upsert_key_def op_set_def)

lemma op_filter_key: "op_filter doc d = (doc_key d = upsert_key doc)"
  by (auto simp: op_filter_def doc_key_def upsert_key_def)

lemma update_first_None: "update_first P f ds = None \<longleftrightarrow> (\<forall>d \<in> set ds. \<not> P d)"
  by (induction ds) (auto split: option.splits)

lemma update_first_keys:
  assumes "update_first P f ds = Some (ds', m)" and "\<And>d. P d \<Longrightarrow> doc_key (f d) = doc_key d"
  shows "map doc_key ds' = map doc_key ds"
  using assms
  by (induction ds arbitrary: ds' m) (auto split: if_splits option.splits)

lemma updateOne_keys:
  "map doc_key (fst (updateOne store op)) =
     (if upsert_key (fst op) \<in> set (map doc_key store) then map doc_key store
      else map doc_key store @ [upsert_key (fst op)])"
proof (cases "update_first (op_filter (fst op)) (op_set (fst op) (snd op)) store")
  case None
  then have "\<forall>d \<in> set store. doc_key d \<noteq> upsert_key (fst op)"
    by (simp add: update_first_None op_filter_key)
  then have "upsert_key (fst op) \<notin> set (map doc_key store)" by auto
  then show ?thesis using None by (simp add: updateOne_def op_set_key)
next
  case (Some a)
  obtain ds' m where a: "a = (ds', m)" by (cases a)
  have ex: "\<exists>d \<in> set store. op_filter (fst op) d"
    using Some update_first_None[of "op_filter (fst op)" "op_set (fst op) (snd op)" store] by auto
  then have "upsert_key (fst op) \<in> set (map doc_key store)"
    by (auto simp: op_filter_key intro: rev_image_eqI)
  moreover have "map doc_key ds' = map doc_key store"
    by (rule update_first_keys[OF Some[unfolded a]]) (simp add: op_filter_key op_set_key)
  ultimately show ?thesis using Some a by (simp add: updateOne_def)
qed

lemma updateOne_counts:
  "length (fst (updateOne store op)) = length store + upsertedCount (snd (updateOne store op))"
proof (cases "update_first (op_filter (fst op)) (op_set (fst op) (snd op)) store")
  case None
  then show ?thesis by (simp add: updateOne_def)
next
  case (Some a)
  obtain ds' m where a: "a = (ds', m)" by (cases a)
  have "map doc_key ds' = map doc_key store"
    by (rule update_first_keys[OF Some[unfolded a]]) (simp add: op_filter_key op_set_key)
  then have "length ds' = length store" by (metis length_map)
  then show ?thesis using Some a by (simp add: updateOne_def)
qed

text \<open>The keys of the store after a bulk write: each new key is added once, at the end.\<close>

lemma bulkWrite_distinct:
  "distinct (map doc_key store) \<Longrightarrow> distinct (map doc_key (fst (bulkWrite store ops)))"
proof (induction ops arbitrary: store)
  case Nil
  then show ?case by simp
next
  case (Cons op ops)
  have "distinct (map doc_key (fst (updateOne store op)))"
    using Cons.prems by (simp add: updateOne_keys)
  then have "distinct (map doc_key (fst (bulkWrite (fst (updateOne store op)) ops)))"
    by (rule Cons.IH)
  then show ?case by (simp add: split_beta Let_def)
qed

lemma bulkWrite_key_set:
  "set (map doc_key (fst (bulkWrite store ops))) = set (map doc_key store) \<union> upsert_key ` fst ` set ops"
proof (induction ops arbitrary: store)
  case Nil
  then show ?case by simp
next
  case (Cons op ops)
  have "set (map doc_key (fst (updateOne store op))) = insert (upsert_key (fst op)) (set (map doc_key store))"
    by (auto simp: updateOne_keys)
  then show ?case using Cons.IH[of "fst (updateOne store op)"]
    by (simp add: split_beta Let_def)
qed

lemma bulkWrite_length:
  "length (fst (bulkWrite store ops)) = length store + upsertedCount (snd (bulkWrite store ops))"
proof (induction ops arbitrary: store)
  case Nil
  then show ?case by simp
next
  case (Cons op ops)
  show ?case
    using Cons.IH[of "fst (updateOne store op)"] updateOne_counts[of store op]
    by (simp add: split_beta Let_def)
qed

lemma bulkWrite_append:
  "fst (bulkWrite store (xs @ ys)) = fst (bulkWrite (fst (bulkWrite store xs)) ys)
   \<and> upsertedCount (snd (bulkWrite store (xs @ ys))) =
       upsertedCount (snd (bulkWrite store xs))
       + upsertedCount (snd (bulkWrite (fst (bulkWrite store xs)) ys))
   \<and> modifiedCount (snd (bulkWrite store (xs @ ys))) =
       modifiedCount (snd (bulkWrite store xs))
       + modifiedCount (snd (bulkWrite (fst (bulkWrite store xs)) ys))"
  by (induction xs arbitrary: store) (simp_all add: split_beta Let_def)

lemma upsert_batches_bulk:
  "upsert_batches store batches (tu, tm) =
     (fst (bulkWrite store (concat batches)),
      tu + upsertedCount (snd (bulkWrite store (concat batches))),
      tm + modifiedCount (snd (bulkWrite store (concat batches))))"
  by (induction batches arbitrary: store tu tm)
     (simp_all add: bulkWrite_append split_beta Let_def)

lemma handleUpsert_bulk:
  "handleUpsert store documents =
     Some (fst (bulkWrite store documents),
           \<lparr>upserted_count = upsertedCount (snd (bulkWrite store documents)),
            modified_count = modifiedCount (snd (bulkWrite store documents))\<rparr>)"
  by (simp add: handleUpsert_def BATCH_SIZE_def chunkArray_positive upsert_batches_bulk
      concat_chunks_of)

lemma records_for_distinct:
  "distinct (map doc_key store) \<Longrightarrow> k \<in> set (map doc_key store) \<Longrightarrow>
   length (records_for store k) = 1"
proof (induction store)
  case Nil
  then show ?case by simp
next
  case (Cons d ds)
  show ?case
  proof (cases "doc_key d = k")
    case True
    then have "k \<notin> set (map doc_key ds)" using Cons.prems by auto
    then have "filter (\<lambda>x. doc_key x = k) ds = []"
      by (auto simp: filter_empty_conv)
    then show ?thesis using True by (simp add: records_for_def)
  next
    case False
    then have "k \<in> set (map doc_key ds)" using Cons.prems by auto
    then have "length (records_for ds k) = 1" using Cons by simp
    then show ?thesis using False by (simp add: records_for_def)
  qed
qed

lemma records_for_length:
  "length (records_for store k) = count_list (map doc_key store) k"
  unfolding records_for_def by (induction store) auto

lemma obj_set_inject: "obj_set k v m = obj_set k v' m \<Longrightarrow> v = v'"
  by (induction m) (auto split: if_splits)

lemma op_set_again:
  "op_set doc t2 (op_set doc t1 d) = op_set doc t1 d \<longleftrightarrow> t1 = t2"
proof
  assume "op_set doc t2 (op_set doc t1 d) = op_set doc t1 d"
  then have "doc_metadata (op_set doc t2 (op_set doc t1 d)) = doc_metadata (op_set doc t1 d)"
    by simp
  then have "JString t2 = JString t1"
    unfolding op_set_def by (auto dest: obj_set_inject)
  then show "t1 = t2" by simp
next
  assume "t1 = t2"
  then show "op_set doc t2 (op_set doc t1 d) = op_set doc t1 d"
    by (simp add: op_set_def)
qed

text \<open>
  After one upsert of \<open>doc\<close> at time \<open>t1\<close> the first record under its key is the
  result of \<open>op_set doc t1\<close>; a second upsert changes it when its time is another
  one, and only then.
\<close>

lemma update_first_again:
  assumes "update_first (op_filter doc) (op_set doc t1) store = Some (s1, m1)"
  shows "\<exists>s2. update_first (op_filter doc) (op_set doc t2) s1 = Some (s2, if t1 = t2 then 0 else 1)"
  using assms
proof (induction store arbitrary: s1 m1)
  case Nil
  then show ?case by simp
next
  case (Cons d ds)
  show ?case
  proof (cases "op_filter doc d")
    case True
    then have s1: "s1 = op_set doc t1 d # ds" using Cons.prems by auto
    have "op_filter doc (op_set doc t1 d)" by (simp add: op_filter_key op_set_key)
    then show ?thesis using s1 by (simp add: op_set_again)
  next
    case False
    then obtain ds' where u: "update_first (op_filter doc) (op_set doc t1) ds = Some (ds', m1)"
      and s1: "s1 = d # ds'"
      using Cons.prems by (auto split: option.splits)
    from Cons.IH[OF u] obtain s2
      where "update_first (op_filter doc) (op_set doc t2) ds' = Some (s2, if t1 = t2 then 0 else 1)"
      by blast
    then show ?thesis using s1 False by simp
  qed
qed

lemma update_first_append_new:
  "\<forall>d \<in> set ds. \<not> P d \<Longrightarrow> P x \<Longrightarrow>
   update_first P f (ds @ [x]) = Some (ds @ [f x], if f x = x then 0 else 1)"
  by (induction ds) auto

lemma updateOne_twice:
  "snd (updateOne (fst (updateOne store (doc, t1))) (doc, t2))
     = \<lparr>upsertedCount = 0, modifiedCount = (if t1 = t2 then 0 else 1)\<rparr>"
proof (cases "update_first (op_filter doc) (op_set doc t1) store")
  case None
  let ?new = "op_set doc t1 (blank_doc (fresh_id store))"
  have s1: "fst (updateOne store (doc, t1)) = store @ [?new]"
    using None by (simp add: updateOne_def)
  have no: "\<forall>d \<in> set store. \<not> op_filter doc d"
    using None by (simp add: update_first_None)
  have "op_filter doc ?new" by (simp add: op_filter_key op_set_key)
  then have u: "update_first (op_filter doc) (op_set doc t2) (store @ [?new])
        = Some (store @ [op_set doc t2 ?new], if t1 = t2 then 0 else 1)"
    using update_first_append_new[OF no, of ?new "op_set doc t2"]
    by (simp add: op_set_again)
  show ?thesis unfolding s1 by (simp add: updateOne_def u)
next
  case (Some a)
  obtain s1 m1 where a: "a = (s1, m1)" by (cases a)
  from update_first_again[OF Some[unfolded a], of t2] obtain s2
    where u: "update_first (op_filter doc) (op_set doc t2) s1 = Some (s2, if t1 = t2 then 0 else 1)"
    by blast
  have s1: "fst (updateOne store (doc, t1)) = s1"
    using Some a by (simp add: updateOne_def)
  show ?thesis unfolding s1 by (simp add: updateOne_def u)
qed

lemma records_for_member:
  "k \<in> set (map doc_key store) \<Longrightarrow> 1 \<le> length (records_for store k)"
  by (induction store) (auto simp: records_for_def)

lemma records_for_not_member:
  "k \<notin> set (map doc_key store) \<Longrightarrow> records_for store k = []"
  by (induction store) (auto simp: records_for_def)

lemma records_for_updateOne:
  "length (records_for (fst (updateOne store (doc, t))) (upsert_key doc))
     = max 1 (length (records_for store (upsert_key doc)))"
proof (cases "upsert_key doc \<in> set (map doc_key store)")
  case True
  then have "map doc_key (fst (updateOne store (doc, t))) = map doc_key store"
    by (simp add: updateOne_keys)
  then have "length (records_for (fst (updateOne store (doc, t))) (upsert_key doc))
             = length (records_for store (upsert_key doc))"
    by (simp add: records_for_length)
  then show ?thesis using records_for_member[OF True] by simp
next
  case False
  then have "map doc_key (fst (updateOne store (doc, t))) = map doc_key store @ [upsert_key doc]"
    by (simp add: updateOne_keys)
  then have "length (records_for (fst (updateOne store (doc, t))) (upsert_key doc))
             = length (records_for store (upsert_key doc)) + 1"
    by (simp add: records_for_length)
  then show ?thesis using records_for_not_member[OF False] by simp
qed

text \<open>
  A bulk write whose keys are all in the store inserts nothing and leaves the keys
  of the store as they are.
\<close>

lemma bulkWrite_known_keys:
  assumes "upsert_key ` fst ` set ops \<subseteq> set (map doc_key store)"
  shows "map doc_key (fst (bulkWrite store ops)) = map doc_key store
         \<and> upsertedCount (snd (bulkWrite store ops)) = 0"
  using assms
proof (induction ops arbitrary: store)
  case Nil
  then show ?case by simp
next
  case (Cons op ops)
  have k: "map doc_key (fst (updateOne store op)) = map doc_key store"
    using Cons.prems by (simp add: updateOne_keys)
  then have "length (fst (updateOne store op)) = length store" by (metis length_map)
  then have u: "upsertedCount (snd (updateOne store op)) = 0"
    using updateOne_counts[of store op] by simp
  have "upsert_key ` fst ` set ops \<subseteq> set (map doc_key (fst (updateOne store op)))"
    using Cons.prems unfolding k by simp
  from Cons.IH[OF this] show ?case
    using k u by (simp add: split_beta Let_def)
qed

text \<open>
  Claim C3, with the two conditions it depends on. Upserting the same payload
  twice: both calls return, the second call inserts nothing, it reports one
  modified record when the two readings of the clock differ and none when they
  are equal (the update then changes nothing), and the store then holds under the
  key the records it held before the first call, or one record if it held none:
  exactly one on a store with at most one record under the key. Upserting the
  documents of a batch again, at any readings of the clock, inserts nothing and
  leaves the keys of the store as they are. On a store whose keys
  \<open>(source_url, chunk_index)\<close> are distinct, an upsert of any batch returns and
  leaves the keys distinct: every document of the batch has exactly one record, the
  keys of the store are the old keys and those of the batch, and the store grows by
  the reported number of inserted records.
\<close>

theorem handleUpsert_idempotent:
  "(\<exists>s1 r1 s2 r2.
      handleUpsert store [(doc, t1)] = Some (s1, r1)
      \<and> handleUpsert s1 [(doc, t2)] = Some (s2, r2)
      \<and> upserted_count r2 = 0
      \<and> modified_count r2 = (if t1 = t2 then 0 else 1)
      \<and> length (records_for s2 (upsert_key doc)) = max 1 (length (records_for store (upsert_key doc))))
   \<and> (map fst again = map fst batch \<longrightarrow>
      (\<exists>s1 r1 s2 r2.
         handleUpsert store batch = Some (s1, r1)
         \<and> handleUpsert s1 again = Some (s2, r2)
         \<and> upserted_count r2 = 0
         \<and> map doc_key s2 = map doc_key s1))
   \<and> (distinct (map doc_key store) \<longrightarrow>
      (\<exists>s' r.
         handleUpsert store batch = Some (s', r)
         \<and> distinct (map doc_key s')
         \<and> (\<forall>d \<in> fst ` set batch. length (records_for s' (upsert_key d)) = 1)
         \<and> set (map doc_key s') = set (map doc_key store) \<union> upsert_key ` fst ` set batch
         \<and> length s' = length store + upserted_count r))"
proof (intro conjI impI)
  let ?s1 = "fst (updateOne store (doc, t1))"
  let ?s2 = "fst (updateOne ?s1 (doc, t2))"
  let ?r2 = "\<lparr>upserted_count = 0, modified_count = (if t1 = t2 then 0 else 1)\<rparr>"
  have b1: "fst (bulkWrite store [(doc, t1)]) = ?s1"
    by (simp add: split_beta)
  have b2: "fst (bulkWrite ?s1 [(doc, t2)]) = ?s2"
    and c2: "snd (bulkWrite ?s1 [(doc, t2)])
               = \<lparr>upsertedCount = 0, modifiedCount = (if t1 = t2 then 0 else 1)\<rparr>"
    by (simp_all add: split_beta updateOne_twice)
  have two: "length (records_for ?s2 (upsert_key doc)) = max 1 (length (records_for store (upsert_key doc)))"
    by (simp add: records_for_updateOne)
  have H1: "handleUpsert store [(doc, t1)] =
              Some (?s1, \<lparr>upserted_count = upsertedCount (snd (bulkWrite store [(doc, t1)])),
                          modified_count = modifiedCount (snd (bulkWrite store [(doc, t1)]))\<rparr>)"
    unfolding handleUpsert_bulk b1 by (rule refl)
  have H2: "handleUpsert ?s1 [(doc, t2)] = Some (?s2, ?r2)"
    unfolding handleUpsert_bulk b2 c2 by simp
  have "handleUpsert ?s1 [(doc, t2)] = Some (?s2, ?r2)
         \<and> upserted_count ?r2 = 0
         \<and> modified_count ?r2 = (if t1 = t2 then 0 else 1)
         \<and> length (records_for ?s2 (upsert_key doc)) = max 1 (length (records_for store (upsert_key doc)))"
    using H2 two by simp
  with H1 show "\<exists>s1 r1 s2 r2.
      handleUpsert store [(doc, t1)] = Some (s1, r1)
      \<and> handleUpsert s1 [(doc, t2)] = Some (s2, r2)
      \<and> upserted_count r2 = 0
      \<and> modified_count r2 = (if t1 = t2 then 0 else 1)
      \<and> length (records_for s2 (upsert_key doc)) = max 1 (length (records_for store (upsert_key doc)))"
    by blast
next
  assume same: "map fst again = map fst batch"
  let ?s1 = "fst (bulkWrite store batch)"
  have "fst ` set again = fst ` set batch"
    using same by (metis set_map)
  then have "upsert_key ` fst ` set again \<subseteq> set (map doc_key ?s1)"
    unfolding bulkWrite_key_set by blast
  from bulkWrite_known_keys[OF this]
  have k: "map doc_key (fst (bulkWrite ?s1 again)) = map doc_key ?s1"
    and u: "upsertedCount (snd (bulkWrite ?s1 again)) = 0"
    by simp_all
  show "\<exists>s1 r1 s2 r2.
         handleUpsert store batch = Some (s1, r1)
         \<and> handleUpsert s1 again = Some (s2, r2)
         \<and> upserted_count r2 = 0
         \<and> map doc_key s2 = map doc_key s1"
    unfolding handleUpsert_bulk using k u by simp
next
  assume d: "distinct (map doc_key store)"
  let ?s = "fst (bulkWrite store batch)"
  have 1: "distinct (map doc_key ?s)" by (rule bulkWrite_distinct[OF d])
  have 2: "set (map doc_key ?s) = set (map doc_key store) \<union> upsert_key ` fst ` set batch"
    by (rule bulkWrite_key_set)
  have 3: "\<forall>d \<in> fst ` set batch. length (records_for ?s (upsert_key d)) = 1"
  proof
    fix x assume "x \<in> fst ` set batch"
    then have "upsert_key x \<in> set (map doc_key ?s)" unfolding 2 by blast
    then show "length (records_for ?s (upsert_key x)) = 1"
      by (rule records_for_distinct[OF 1])
  qed
  have 4: "length ?s = length store + upsertedCount (snd (bulkWrite store batch))"
    by (rule bulkWrite_length)
  show "\<exists>s' r.
         handleUpsert store batch = Some (s', r)
         \<and> distinct (map doc_key s')
         \<and> (\<forall>d \<in> fst ` set batch. length (records_for s' (upsert_key d)) = 1)
         \<and> set (map doc_key s') = set (map doc_key store) \<union> upsert_key ` fst ` set batch
         \<and> length s' = length store + upserted_count r"
    unfolding handleUpsert_bulk using 1 2 3 4 by simp
qed

lemma update_first_modified: "update_first P f ds = Some (ds', m) \<Longrightarrow> m \<le> 1"
  by (induction ds arbitrary: ds' m) (auto split: if_splits option.splits)

lemma updateOne_modified: "modifiedCount (snd (updateOne store op)) \<le> 1"
  by (auto simp: updateOne_def split: option.splits dest: update_first_modified)

lemma handleUpsert_empty_store:
  "handleUpsert [] [op] =
     Some ([op_set (fst op) (snd op) (blank_doc (fresh_id []))],
           \<lparr>upserted_count = 1, modified_count = 0\<rparr>)"
  by (simp add: handleUpsert_bulk updateOne_def)

text \<open>
  The theorem on the empty store: one chunk upserted at two readings of the clock
  one millisecond apart is stored once and modified once; two chunks upserted
  again at a later reading are not inserted again; and the two chunks have one
  record each.
\<close>

theorem handleUpsert_idempotent_witness:
  "(\<exists>s1 r1 s2 r2.
     handleUpsert [] [(example_upsert 0, ''2026-01-01T00:00:00.000Z'')] = Some (s1, r1)
     \<and> handleUpsert s1 [(example_upsert 0, ''2026-01-01T00:00:00.001Z'')] = Some (s2, r2)
     \<and> upserted_count r2 = 0 \<and> modified_count r2 = 1
     \<and> length (records_for s2 (upsert_key (example_upsert 0))) = 1)
   \<and> (\<exists>s1 r1 s2 r2.
     handleUpsert [] [(example_upsert 0, ''2026-01-01T00:00:00.000Z''),
                      (example_upsert 1, ''2026-01-01T00:00:00.000Z'')] = Some (s1, r1)
     \<and> handleUpsert s1 [(example_upsert 0, ''2026-01-02T00:00:00.000Z''),
                         (example_upsert 1, ''2026-01-02T00:00:00.000Z'')] = Some (s2, r2)
     \<and> upserted_count r2 = 0 \<and> map doc_key s2 = map doc_key s1)
   \<and> (\<exists>s' r.
     handleUpsert [] [(example_upsert 0, ''2026-01-01T00:00:00.000Z''),
                      (example_upsert 1, ''2026-01-01T00:00:00.000Z'')] = Some (s', r)
     \<and> distinct (map doc_key s')
     \<and> length (records_for s' (upsert_key (example_upsert 0))) = 1
     \<and> length (records_for s' (upsert_key (example_upsert 1))) = 1
     \<and> length s' = upserted_count r)"
proof -
  let ?b = "[(example_upsert 0, ''2026-01-01T00:00:00.000Z''),
             (example_upsert 1, ''2026-01-01T00:00:00.000Z'')]"
  let ?a = "[(example_upsert 0, ''2026-01-02T00:00:00.000Z''),
             (example_upsert 1, ''2026-01-02T00:00:00.000Z'')]"
  note T = handleUpsert_idempotent[of "[]" "example_upsert 0" "''2026-01-01T00:00:00.000Z''"
             "''2026-01-01T00:00:00.001Z''" ?a ?b]
  have 1: "\<exists>s1 r1 s2 r2.
     handleUpsert [] [(example_upsert 0, ''2026-01-01T00:00:00.000Z'')] = Some (s1, r1)
     \<and> handleUpsert s1 [(example_upsert 0, ''2026-01-01T00:00:00.001Z'')] = Some (s2, r2)
     \<and> upserted_count r2 = 0 \<and> modified_count r2 = 1
     \<and> length (records_for s2 (upsert_key (example_upsert 0))) = 1"
    using conjunct1[OF T] by (simp add: records_for_def)
  have 2: "\<exists>s1 r1 s2 r2.
     handleUpsert [] ?b = Some (s1, r1) \<and> handleUpsert s1 ?a = Some (s2, r2)
     \<and> upserted_count r2 = 0 \<and> map doc_key s2 = map doc_key s1"
    by (rule mp[OF conjunct1[OF conjunct2[OF T]]]) simp
  have "distinct (map doc_key [])" by simp
  from mp[OF conjunct2[OF conjunct2[OF T]] this]
  have 3: "\<exists>s' r.
     handleUpsert [] ?b = Some (s', r)
     \<and> distinct (map doc_key s')
     \<and> length (records_for s' (upsert_key (example_upsert 0))) = 1
     \<and> length (records_for s' (upsert_key (example_upsert 1))) = 1
     \<and> length s' = upserted_count r"
    by auto
  show ?thesis using 1 2 3 by blast
qed

text \<open>
  The second call does not always report a modified record, and the key does not
  always have one record. When the two calls read the same time, the second
  update changes nothing: it leaves the store as it is and reports no modified
  record. And a store that holds two records under the key holds two after both
  calls.
\<close>

theorem handleUpsert_second_call_unmodified:
  "(\<exists>s1 r1 r2.
      handleUpsert [] [(example_upsert 0, ''2026-01-01T00:00:00.000Z'')] = Some (s1, r1)
      \<and> handleUpsert s1 [(example_upsert 0, ''2026-01-01T00:00:00.000Z'')] = Some (s1, r2)
      \<and> upserted_count r2 = 0 \<and> modified_count r2 = 0)
   \<and> (\<exists>s1 r1 s2 r2.
      handleUpsert duplicate_store [(example_upsert 0, ''2026-01-01T00:00:00.000Z'')] = Some (s1, r1)
      \<and> handleUpsert s1 [(example_upsert 0, ''2026-01-01T00:00:00.001Z'')] = Some (s2, r2)
      \<and> length (records_for s2 (upsert_key (example_upsert 0))) = 2)"
proof -
  let ?t = "''2026-01-01T00:00:00.000Z''"
  let ?d = "op_set (example_upsert 0) ?t (blank_doc (fresh_id []))"
  have f: "op_filter (example_upsert 0) ?d" by (simp add: op_filter_key op_set_key)
  have i: "op_set (example_upsert 0) ?t ?d = ?d" by (simp add: op_set_again)
  have "handleUpsert [?d] [(example_upsert 0, ?t)]
          = Some ([?d], \<lparr>upserted_count = 0, modified_count = 0\<rparr>)"
    unfolding handleUpsert_bulk by (simp add: updateOne_def f i)
  then have 1: "\<exists>s1 r1 r2.
      handleUpsert [] [(example_upsert 0, ?t)] = Some (s1, r1)
      \<and> handleUpsert s1 [(example_upsert 0, ?t)] = Some (s1, r2)
      \<and> upserted_count r2 = 0 \<and> modified_count r2 = 0"
    unfolding handleUpsert_empty_store by simp
  let ?s1 = "fst (updateOne duplicate_store (example_upsert 0, ?t))"
  let ?s2 = "fst (updateOne ?s1 (example_upsert 0, ''2026-01-01T00:00:00.001Z''))"
  have n: "length (records_for duplicate_store (upsert_key (example_upsert 0))) = 2"
    by (simp add: records_for_def duplicate_store_def doc_key_def upsert_key_def example_upsert_def
        blank_doc_def)
  have "length (records_for ?s2 (upsert_key (example_upsert 0))) = 2"
    by (simp add: records_for_updateOne n)
  then have 2: "\<exists>s1 r1 s2 r2.
      handleUpsert duplicate_store [(example_upsert 0, ?t)] = Some (s1, r1)
      \<and> handleUpsert s1 [(example_upsert 0, ''2026-01-01T00:00:00.001Z'')] = Some (s2, r2)
      \<and> length (records_for s2 (upsert_key (example_upsert 0))) = 2"
    unfolding handleUpsert_bulk by (simp add: split_beta)
  show ?thesis using 1 2 by blast
qed

subsection \<open>The orchestrator\<close>

lemma createResponse_ok:
  "createResponse (Some d) None = \<lparr>success = True, data = Some d, resp_error = None, http_status = 200\<rparr>"
  by (simp add: createResponse_def truthy_str_def)


lemma createResponse_data: "data (createResponse d e) = d"
  by (simp add: createResponse_def)

lemma try_block_no_documents:
  assumes "env_discover env (discover_request_of request) = OkJson d" and "d = None \<or> d = Some []"
  shows "try_block env request (job, calls) =
           (Inr ''Pipeline complete. No PDFs found to process.'',
            job\<lparr>status := Completed, discovered_pdfs := [],
                completed_at := Some (env_completed_at env)\<rparr>,
            calls @ [CallDiscover (discover_request_of request)])"
  using assms by (auto simp: try_block_def Let_def)

text \<open>
  Claim C7. When the discovery answers with no document (an empty list, or a body
  without the list), the run makes the discovery call and no other, and returns a
  successful response whose job is completed, with no discovered PDF, the three
  chunk counters at zero, a completion timestamp and no error.
\<close>

theorem runPipelineSync_no_documents:
  "env_discover env (discover_request_of request) = OkJson d \<and> (d = None \<or> d = Some []) \<longrightarrow>
     snd (runPipelineSync env request) = [CallDiscover (discover_request_of request)]
     \<and> success (fst (runPipelineSync env request))
     \<and> resp_error (fst (runPipelineSync env request)) = None
     \<and> http_status (fst (runPipelineSync env request)) = 200
     \<and> (\<exists>job. data (fst (runPipelineSync env request))
                  = Some \<lparr>rd_job = job, rd_message = Some ''Pipeline complete. No PDFs found to process.''\<rparr>
          \<and> status job = Completed
          \<and> discovered_pdfs job = []
          \<and> parsed_chunks job = 0 \<and> embedded_chunks job = 0 \<and> upserted_chunks job = 0
          \<and> completed_at job = Some (env_completed_at env)
          \<and> job_error job = None)"
proof
  assume a: "env_discover env (discover_request_of request) = OkJson d \<and> (d = None \<or> d = Some [])"
  have t: "try_block env request (new_job env request, []) =
           (Inr ''Pipeline complete. No PDFs found to process.'',
            (new_job env request)\<lparr>status := Completed, discovered_pdfs := [],
                completed_at := Some (env_completed_at env)\<rparr>,
            [] @ [CallDiscover (discover_request_of request)])"
    using a by (intro try_block_no_documents) auto
  show "snd (runPipelineSync env request) = [CallDiscover (discover_request_of request)]
     \<and> success (fst (runPipelineSync env request))
     \<and> resp_error (fst (runPipelineSync env request)) = None
     \<and> http_status (fst (runPipelineSync env request)) = 200
     \<and> (\<exists>job. data (fst (runPipelineSync env request))
                  = Some \<lparr>rd_job = job, rd_message = Some ''Pipeline complete. No PDFs found to process.''\<rparr>
          \<and> status job = Completed
          \<and> discovered_pdfs job = []
          \<and> parsed_chunks job = 0 \<and> embedded_chunks job = 0 \<and> upserted_chunks job = 0
          \<and> completed_at job = Some (env_completed_at env)
          \<and> job_error job = None)"
    unfolding runPipelineSync_def t
    by (simp add: createResponse_ok new_job_def)
qed

text \<open>
  The theorem in an environment whose discovery finds nothing (every other service
  would fail, and none is called).
\<close>

theorem runPipelineSync_no_documents_witness:
  "runPipelineSync
     (failing_env\<lparr>env_discover := (\<lambda>rq. OkJson (Some []))\<rparr> :: nat pipeline_env)
     \<lparr>rq_file_numbers = None, rq_search_terms = None, rq_max_credits = None, rq_pdf_limit = None\<rparr>
   = (\<lparr>success = True,
       data = Some \<lparr>rd_job = \<lparr>job_id = ''job_1'', status = Completed, job_file_numbers = [],
                              discovered_pdfs = [], parsed_chunks = 0, embedded_chunks = 0,
                              upserted_chunks = 0, started_at = ''2026-01-01T00:00:00.000Z'',
                              completed_at = Some ''2026-01-01T00:05:00.000Z'', job_error = None\<rparr>,
                    rd_message = Some ''Pipeline complete. No PDFs found to process.''\<rparr>,
       resp_error = None, http_status = 200\<rparr>,
      [CallDiscover \<lparr>dr_file_numbers = None, dr_search_terms = default_search_terms, dr_limit = 3\<rparr>])"
proof -
  let ?env = "failing_env\<lparr>env_discover := (\<lambda>rq. OkJson (Some []))\<rparr> :: nat pipeline_env"
  let ?rq = "\<lparr>rq_file_numbers = None, rq_search_terms = None, rq_max_credits = None, rq_pdf_limit = None\<rparr>"
  have h: "env_discover ?env (discover_request_of ?rq) = OkJson (Some [])
           \<and> (Some [] = None \<or> Some [] = Some ([] :: discovered_pdf list))"
    by simp
  from mp[OF runPipelineSync_no_documents h]
  obtain job where
    c: "snd (runPipelineSync ?env ?rq) = [CallDiscover (discover_request_of ?rq)]" and
    s: "success (fst (runPipelineSync ?env ?rq))"
       "resp_error (fst (runPipelineSync ?env ?rq)) = None"
       "http_status (fst (runPipelineSync ?env ?rq)) = 200" and
    d: "data (fst (runPipelineSync ?env ?rq))
          = Some \<lparr>rd_job = job, rd_message = Some ''Pipeline complete. No PDFs found to process.''\<rparr>" and
    j: "status job = Completed" "discovered_pdfs job = []" "parsed_chunks job = 0"
       "embedded_chunks job = 0" "upserted_chunks job = 0"
       "completed_at job = Some (env_completed_at ?env)" "job_error job = None"
    by blast
  have "rd_job (the (data (fst (runPipelineSync ?env ?rq)))) = job" using d by simp
  then have i: "job_id job = ''job_1''" "job_file_numbers job = []"
                "started_at job = ''2026-01-01T00:00:00.000Z''"
    by (auto simp: runPipelineSync_def try_block_def Let_def createResponse_def new_job_def
        failing_env_def split: prod.splits)
  have job: "job = \<lparr>job_id = ''job_1'', status = Completed, job_file_numbers = [],
                     discovered_pdfs = [], parsed_chunks = 0, embedded_chunks = 0,
                     upserted_chunks = 0, started_at = ''2026-01-01T00:00:00.000Z'',
                     completed_at = Some ''2026-01-01T00:05:00.000Z'', job_error = None\<rparr>"
    using i j by (cases job) (simp add: failing_env_def)
  have r: "fst (runPipelineSync ?env ?rq) =
           \<lparr>success = True, data = Some \<lparr>rd_job = job, rd_message = Some ''Pipeline complete. No PDFs found to process.''\<rparr>,
            resp_error = None, http_status = 200\<rparr>"
    using s d by (cases "fst (runPipelineSync ?env ?rq)") simp
  have q: "discover_request_of ?rq = \<lparr>dr_file_numbers = None, dr_search_terms = default_search_terms, dr_limit = 3\<rparr>"
    by (simp add: discover_request_of_def nat_or_def)
  show ?thesis
    using r c unfolding job q by (simp add: prod_eq_iff)
qed



subsection \<open>The embedding stage\<close>

lemma retry_all_fail:
  "(\<forall>k<a. \<exists>m. operation (n + k) = Inl m) \<Longrightarrow> (a = 0 \<longrightarrow> l \<noteq> None) \<Longrightarrow>
   \<exists>m. retryWithBackoff operation a n l = (Inl (Some m), n + a)"
proof (induction a arbitrary: n l)
  case 0
  then show ?case by auto
next
  case (Suc a)
  from Suc.prems(1) obtain m where m: "operation n = Inl m" by force
  have "\<forall>k<a. \<exists>m. operation (Suc n + k) = Inl m"
    using Suc.prems(1) by (metis Suc_less_eq add_Suc_right add_Suc)
  then have "\<exists>m'. retryWithBackoff operation a (Suc n) (Some m) = (Inl (Some m'), Suc n + a)"
    by (rule Suc.IH) simp
  then show ?case using m by simp
qed

lemma embed_batches_append:
  "embed_batches env body pre n acc = (Inr acc1, n1) \<Longrightarrow>
   embed_batches env body (pre @ rest) n acc = embed_batches env body rest n1 acc1"
proof (induction pre arbitrary: n acc)
  case Nil
  then show ?case by simp
next
  case (Cons b pre)
  obtain ec tt where acc: "acc = (ec, tt)" by (cases acc)
  show ?case
  proof (cases "retryWithBackoff (\<lambda>k. voyage_api env k (batch_texts b) (input_type_of body)) 3 n None")
    case (Pair r n')
    show ?thesis
    proof (cases r)
      case (Inl e)
      then show ?thesis using Cons.prems Pair acc by (simp add: Let_def)
    next
      case (Inr v)
      then show ?thesis using Cons.prems Pair acc Cons.IH by (simp add: Let_def)
    qed
  qed
qed

lemma embed_batches_exhausted:
  assumes "\<forall>k<3. \<exists>m. voyage_api env (n + k) (batch_texts b) (input_type_of body) = Inl m"
  shows "\<exists>m. embed_batches env body (b # post) n acc = (Inl m, n + 3)"
proof -
  obtain ec tt where acc: "acc = (ec, tt)" by (cases acc)
  from retry_all_fail[of 3 "\<lambda>k. voyage_api env k (batch_texts b) (input_type_of body)" n None] assms
  obtain m where "retryWithBackoff (\<lambda>k. voyage_api env k (batch_texts b) (input_type_of body)) 3 n None
                  = (Inl (Some m), n + 3)"
    by auto
  then show ?thesis by (simp add: acc Let_def)
qed

lemma embed_batches_single_ok:
  assumes "voyage_api env n (batch_texts b) (input_type_of body) = Inr resp"
  shows "embed_batches env body [b] n (ec, tt) =
           (Inr (ec @ map (\<lambda>item. \<lparr>ec_original = nth_opt b (item_index item),
                                   ec_embedding = item_embedding item,
                                   ec_file_number = er_file_number body,
                                   ec_source_url = er_source_url body\<rparr>) (vr_data resp),
                 tt + vr_total_tokens resp), Suc n)"
  using assms by (simp add: Let_def numeral_3_eq_3)

lemma voyage_embed_exhausted:
  assumes "truthy_str (VOYAGE_API_KEY env)" and "er_chunks body \<noteq> []"
    and "chunks_of (er_chunks body) VOYAGE_BATCH_SIZE = pre @ b # post"
    and "embed_batches env body pre 0 ([], 0) = (Inr finished, n1)"
    and "\<forall>k<3. \<exists>m. voyage_api env (n1 + k) (batch_texts b) (input_type_of body) = Inl m"
  shows "\<exists>r. voyage_embed env 0 body = Some (r, n1 + 3) \<and> data r = None"
proof -
  have c: "chunkArray (er_chunks body) VOYAGE_BATCH_SIZE = Some (pre @ b # post)"
    using assms(3) by (simp add: chunkArray_def VOYAGE_BATCH_SIZE_def)
  from embed_batches_exhausted[OF assms(5), of post finished]
  obtain m where "embed_batches env body (b # post) n1 finished = (Inl m, n1 + 3)" by blast
  then have "embed_batches env body (pre @ b # post) 0 ([], 0) = (Inl m, n1 + 3)"
    using embed_batches_append[OF assms(4)] by simp
  then show ?thesis
    using assms(1,2) c by (simp add: voyage_embed_def createResponse_data)
qed

lemma embed_via_voyage_no_data:
  assumes "voyage_embed (venv i) 0 rq = Some (r, n)" and "data r = None"
  shows "kept (embed_via_voyage venv i rq) = [] \<and> \<not> throws (embed_via_voyage venv i rq)"
  using assms by (simp add: embed_via_voyage_def kept_def throws_def)

lemma kept_simps:
  "kept (FetchThrew e) = []" "kept (NotOk body) = []" "kept (OkJson None) = []"
  "kept (OkJson (Some cs)) = cs" "kept (OkBadJson e) = []"
  by (simp_all add: kept_def)

lemma embed_loop_no_throw:
  assumes "\<forall>r \<in> set (embed_outcomes env gs i). \<not> throws r" and "embedded_chunks job = length acc"
  shows "embed_loop env gs i acc (job, calls) =
           (Inr (acc @ concat (map kept (embed_outcomes env gs i))),
            job\<lparr>embedded_chunks := length (acc @ concat (map kept (embed_outcomes env gs i)))\<rparr>,
            calls @ map (\<lambda>g. CallEmbed (embed_request_of g)) gs)"
  using assms
proof (induction gs arbitrary: i acc job calls)
  case Nil
  then show ?case by simp
next
  case (Cons g gs)
  have rest: "\<forall>r \<in> set (embed_outcomes env gs (Suc i)). \<not> throws r"
    using Cons.prems(1) by simp
  show ?case
  proof (cases "env_embed env i (embed_request_of g)")
    case (FetchThrew e)
    then show ?thesis using Cons.prems(1) by (simp add: throws_def)
  next
    case (NotOk body)
    have "embed_loop env gs (Suc i) acc (job, calls @ [CallEmbed (embed_request_of g)]) =
           (Inr (acc @ concat (map kept (embed_outcomes env gs (Suc i)))),
            job\<lparr>embedded_chunks := length (acc @ concat (map kept (embed_outcomes env gs (Suc i))))\<rparr>,
            (calls @ [CallEmbed (embed_request_of g)]) @ map (\<lambda>g. CallEmbed (embed_request_of g)) gs)"
      by (rule Cons.IH[OF rest Cons.prems(2)])
    then show ?thesis using NotOk by (simp add: Let_def kept_simps)
  next
    case (OkJson d)
    let ?acc = "acc @ (case d of None \<Rightarrow> [] | Some cs \<Rightarrow> cs)"
    have k: "kept (OkJson d) = (case d of None \<Rightarrow> [] | Some cs \<Rightarrow> cs)"
      by (simp add: kept_def split: option.splits)
    have "embed_loop env gs (Suc i) ?acc
            (job\<lparr>embedded_chunks := length ?acc\<rparr>, calls @ [CallEmbed (embed_request_of g)]) =
           (Inr (?acc @ concat (map kept (embed_outcomes env gs (Suc i)))),
            job\<lparr>embedded_chunks := length ?acc\<rparr>
               \<lparr>embedded_chunks := length (?acc @ concat (map kept (embed_outcomes env gs (Suc i))))\<rparr>,
            (calls @ [CallEmbed (embed_request_of g)]) @ map (\<lambda>g. CallEmbed (embed_request_of g)) gs)"
      by (rule Cons.IH[OF rest]) simp
    then show ?thesis using OkJson k by (simp add: Let_def)
  next
    case (OkBadJson e)
    then show ?thesis using Cons.prems(1) by (simp add: throws_def)
  qed
qed

lemma embed_stage_no_throw:
  assumes "\<forall>r \<in> set (embed_outcomes env (chunksBySource allChunks) 0). \<not> throws r"
    and "embedded_chunks job = 0"
    and "env_upsert env (concat (map kept (embed_outcomes env (chunksBySource allChunks) 0))) = OkJson u"
  shows "\<exists>message. embed_stage env allChunks (job, calls) =
           (Inr message,
            job\<lparr>status := Completed,
                embedded_chunks := length (concat (map kept (embed_outcomes env (chunksBySource allChunks) 0))),
                upserted_chunks := nat_or u 0,
                completed_at := Some (env_completed_at env)\<rparr>,
            calls @ map (\<lambda>g. CallEmbed (embed_request_of g)) (chunksBySource allChunks)
              @ [CallUpsert (concat (map kept (embed_outcomes env (chunksBySource allChunks) 0)))])"
proof -
  let ?gs = "chunksBySource allChunks"
  let ?emb = "concat (map kept (embed_outcomes env ?gs 0))"
  have l: "embed_loop env ?gs 0 [] (job\<lparr>status := Embedding\<rparr>, calls) =
           (Inr ([] @ ?emb), job\<lparr>status := Embedding\<rparr>\<lparr>embedded_chunks := length ([] @ ?emb)\<rparr>,
            calls @ map (\<lambda>g. CallEmbed (embed_request_of g)) ?gs)"
    by (rule embed_loop_no_throw[OF assms(1)]) (simp add: assms(2))
  show ?thesis
    unfolding embed_stage_def using l assms(3)
    by (simp add: upsert_stage_def Let_def)
qed

text \<open>
  Claim C6, with the failure at the level where the code handles it. When a batch
  of an embedding request exhausts its three attempts (the batches before it
  having succeeded), voyage-embed answers the whole request with an error and no
  chunk: the orchestrator receives nothing for that document group, and nothing
  is thrown. And when no embed request throws, the embedding stage does not fail:
  the embedded set is made of the chunks of the requests that were answered with
  chunks, in order, the job counts them, and the run goes on to upsert exactly
  this set and completes.
\<close>

theorem embedding_failure_drops_group:
  "(truthy_str (VOYAGE_API_KEY (venv i)) \<and> er_chunks rq \<noteq> []
      \<and> chunks_of (er_chunks rq) VOYAGE_BATCH_SIZE = pre @ b # post
      \<and> embed_batches (venv i) rq pre 0 ([], 0) = (Inr finished, n1)
      \<and> (\<forall>k<3. \<exists>m. voyage_api (venv i) (n1 + k) (batch_texts b) (input_type_of rq) = Inl m)
    \<longrightarrow> (\<exists>r. voyage_embed (venv i) 0 rq = Some (r, n1 + 3) \<and> data r = None)
        \<and> kept (embed_via_voyage venv i rq) = []
        \<and> \<not> throws (embed_via_voyage venv i rq))
   \<and> ((\<forall>r \<in> set (embed_outcomes env (chunksBySource allChunks) 0). \<not> throws r)
      \<and> embedded_chunks job = 0
      \<and> env_upsert env (concat (map kept (embed_outcomes env (chunksBySource allChunks) 0))) = OkJson u
    \<longrightarrow> (\<exists>message. embed_stage env allChunks (job, calls) =
           (Inr message,
            job\<lparr>status := Completed,
                embedded_chunks := length (concat (map kept (embed_outcomes env (chunksBySource allChunks) 0))),
                upserted_chunks := nat_or u 0,
                completed_at := Some (env_completed_at env)\<rparr>,
            calls @ map (\<lambda>g. CallEmbed (embed_request_of g)) (chunksBySource allChunks)
              @ [CallUpsert (concat (map kept (embed_outcomes env (chunksBySource allChunks) 0)))])))"
proof (intro conjI impI)
  assume a: "truthy_str (VOYAGE_API_KEY (venv i)) \<and> er_chunks rq \<noteq> []
      \<and> chunks_of (er_chunks rq) VOYAGE_BATCH_SIZE = pre @ b # post
      \<and> embed_batches (venv i) rq pre 0 ([], 0) = (Inr finished, n1)
      \<and> (\<forall>k<3. \<exists>m. voyage_api (venv i) (n1 + k) (batch_texts b) (input_type_of rq) = Inl m)"
  then obtain r where r: "voyage_embed (venv i) 0 rq = Some (r, n1 + 3)" "data r = None"
    using voyage_embed_exhausted[of "venv i" rq pre b post finished n1] by blast
  show "\<exists>r. voyage_embed (venv i) 0 rq = Some (r, n1 + 3) \<and> data r = None"
    using r by blast
  have e: "kept (embed_via_voyage venv i rq) = [] \<and> \<not> throws (embed_via_voyage venv i rq)"
    using r by (rule embed_via_voyage_no_data[where venv = venv and i = i])
  show "kept (embed_via_voyage venv i rq) = []"
    using e by simp
  show "\<not> throws (embed_via_voyage venv i rq)"
    using e by simp
next
  assume "(\<forall>r \<in> set (embed_outcomes env (chunksBySource allChunks) 0). \<not> throws r)
      \<and> embedded_chunks job = 0
      \<and> env_upsert env (concat (map kept (embed_outcomes env (chunksBySource allChunks) 0))) = OkJson u"
  then show "\<exists>message. embed_stage env allChunks (job, calls) =
           (Inr message,
            job\<lparr>status := Completed,
                embedded_chunks := length (concat (map kept (embed_outcomes env (chunksBySource allChunks) 0))),
                upserted_chunks := nat_or u 0,
                completed_at := Some (env_completed_at env)\<rparr>,
            calls @ map (\<lambda>g. CallEmbed (embed_request_of g)) (chunksBySource allChunks)
              @ [CallUpsert (concat (map kept (embed_outcomes env (chunksBySource allChunks) 0)))])"
    using embed_stage_no_throw by blast
qed

lemma chunks_129: "chunks_of (replicate 129 x) 128 = [replicate 128 x] @ [x] # []"
proof -
  have 0: "chunks_of ([] :: 'a list) 128 = []"
    by (subst chunks_of.simps) simp
  have 1: "chunks_of [x] 128 = [[x]]"
    by (subst chunks_of.simps) (simp add: 0)
  show ?thesis
    by (subst chunks_of.simps) (simp add: 1)
qed

lemma rate_limited_first:
  "voyage_api rate_limited_voyage 0 texts input_type =
     Inr \<lparr>vr_data = map (\<lambda>i. \<lparr>item_embedding = [1], item_index = i\<rparr>) [0..<length texts],
          vr_total_tokens = length texts\<rparr>"
  by (simp add: rate_limited_voyage_def)

lemma rate_limited_later:
  "\<forall>k<3. \<exists>m. voyage_api rate_limited_voyage (1 + k) texts input_type = Inl m"
  by (simp add: rate_limited_voyage_def)

lemma rate_limited_first_batch:
  "\<exists>cs. embed_batches rate_limited_voyage rq [replicate 128 x] 0 ([], 0) = (Inr (cs, 128), 1)
        \<and> length cs = 128"
  unfolding embed_batches_single_ok[OF rate_limited_first]
  by (simp add: batch_texts_def)

lemma rate_limited_request:
  assumes "er_chunks rq = replicate 129 x"
  shows "kept (embed_via_voyage (\<lambda>i. rate_limited_voyage) i rq) = []
         \<and> \<not> throws (embed_via_voyage (\<lambda>i. rate_limited_voyage) i rq)"
proof -
  obtain cs where cs: "embed_batches rate_limited_voyage rq [replicate 128 x] 0 ([], 0) = (Inr (cs, 128), 1)"
    using rate_limited_first_batch by blast
  have "\<exists>r. voyage_embed rate_limited_voyage 0 rq = Some (r, 1 + 3) \<and> data r = None"
  proof (rule voyage_embed_exhausted[OF _ _ _ cs rate_limited_later])
    show "truthy_str (VOYAGE_API_KEY rate_limited_voyage)"
      by (simp add: rate_limited_voyage_def truthy_str_def)
    show "er_chunks rq \<noteq> []"
      by (simp add: assms)
    show "chunks_of (er_chunks rq) VOYAGE_BATCH_SIZE = [replicate 128 x] @ [x] # []"
      unfolding assms VOYAGE_BATCH_SIZE_def by (rule chunks_129)
  qed
  then obtain r where "voyage_embed ((\<lambda>i. rate_limited_voyage) i) 0 rq = Some (r, 1 + 3)" "data r = None"
    by auto
  then show ?thesis
    by (rule embed_via_voyage_no_data[where venv = "\<lambda>i. rate_limited_voyage" and i = i])
qed

lemma group_fold_same:
  "foldl (\<lambda>m c. group_push (group_key c) c m) [(group_key c, xs)] (replicate n c)
     = [(group_key c, xs @ replicate n c)]"
proof (induction n arbitrary: xs)
  case 0
  then show ?case by simp
next
  case (Suc n)
  show ?case using Suc.IH[of "xs @ [c]"] by simp
qed

lemma chunksBySource_replicate:
  "0 < n \<Longrightarrow> chunksBySource (replicate n c) = [(group_key c, replicate n c)]"
  using group_fold_same[of c "[c]" "n - 1"]
  by (cases n) (simp_all add: chunksBySource_def)

text \<open>
  The theorem in two environments. With an API that answers the first request and
  rejects the later ones, a request of 129 chunks (a batch of 128 and a batch of
  one) is answered after four requests with no chunk. And when the first of two
  document groups is refused and the second is answered with two chunks, the job
  completes with two embedded chunks, which are the ones upserted.
\<close>

theorem embedding_failure_drops_group_witness:
  "(\<exists>r. voyage_embed rate_limited_voyage 0 example_embed_request = Some (r, 4) \<and> data r = None)
   \<and> kept (embed_via_voyage (\<lambda>i. rate_limited_voyage) 0 example_embed_request) = []
   \<and> \<not> throws (embed_via_voyage (\<lambda>i. rate_limited_voyage) 0 example_embed_request)
   \<and> (\<exists>message.
        embed_stage two_group_env [example_pipeline_chunk ''a'', example_pipeline_chunk ''b'']
          (new_job two_group_env default_request, []) =
        (Inr message,
         (new_job two_group_env default_request)
           \<lparr>status := Completed, embedded_chunks := 2, upserted_chunks := 2,
            completed_at := Some ''2026-01-01T00:05:00.000Z''\<rparr>,
         [CallEmbed (embed_request_of (''250700:a'', [example_pipeline_chunk ''a''])),
          CallEmbed (embed_request_of (''250700:b'', [example_pipeline_chunk ''b''])),
          CallUpsert [7, 8]]))"
proof -
  let ?all = "[example_pipeline_chunk ''a'', example_pipeline_chunk ''b'']"
  obtain cs where cs: "embed_batches rate_limited_voyage example_embed_request
                         [replicate 128 example_request_chunk] 0 ([], 0) = (Inr (cs, 128), 1)"
    using rate_limited_first_batch by blast
  have c: "chunks_of (er_chunks example_embed_request) VOYAGE_BATCH_SIZE =
             [replicate 128 example_request_chunk] @ [example_request_chunk] # []"
    unfolding VOYAGE_BATCH_SIZE_def example_embed_request_def by (simp only: embed_request.simps chunks_129)
  have h: "truthy_str (VOYAGE_API_KEY rate_limited_voyage) \<and> er_chunks example_embed_request \<noteq> []
      \<and> chunks_of (er_chunks example_embed_request) VOYAGE_BATCH_SIZE =
            [replicate 128 example_request_chunk] @ [example_request_chunk] # []
      \<and> embed_batches rate_limited_voyage example_embed_request [replicate 128 example_request_chunk] 0 ([], 0)
            = (Inr (cs, 128), 1)
      \<and> (\<forall>k<3. \<exists>m. voyage_api rate_limited_voyage (1 + k) (batch_texts [example_request_chunk])
                       (input_type_of example_embed_request) = Inl m)"
    using c cs rate_limited_later
    by (simp add: rate_limited_voyage_def truthy_str_def example_embed_request_def)
  have gs: "chunksBySource ?all =
              [(''250700:a'', [example_pipeline_chunk ''a'']), (''250700:b'', [example_pipeline_chunk ''b''])]"
    by (simp add: chunksBySource_def group_key_def example_pipeline_chunk_def)
  have out: "embed_outcomes two_group_env (chunksBySource ?all) 0 = [NotOk ''rate limited'', OkJson (Some [7, 8])]"
    unfolding gs by (simp add: two_group_env_def)
  have g: "(\<forall>r \<in> set (embed_outcomes two_group_env (chunksBySource ?all) 0). \<not> throws r)
      \<and> embedded_chunks (new_job two_group_env default_request) = 0
      \<and> env_upsert two_group_env (concat (map kept (embed_outcomes two_group_env (chunksBySource ?all) 0)))
           = OkJson (Some 2)"
    unfolding out by (simp add: throws_def kept_simps new_job_def two_group_env_def)
  note T = embedding_failure_drops_group
             [where venv = "\<lambda>i. rate_limited_voyage" and i = 0 and rq = example_embed_request
                and pre = "[replicate 128 example_request_chunk]" and b = "[example_request_chunk]"
                and post = "[]" and finished = "(cs, 128)" and ?n1.0 = 1
                and env = two_group_env and allChunks = ?all
                and job = "new_job two_group_env default_request" and calls = "[]" and u = "Some 2"]
  have A: "(\<exists>r. voyage_embed rate_limited_voyage 0 example_embed_request = Some (r, 1 + 3) \<and> data r = None)
        \<and> kept (embed_via_voyage (\<lambda>i. rate_limited_voyage) 0 example_embed_request) = []
        \<and> \<not> throws (embed_via_voyage (\<lambda>i. rate_limited_voyage) 0 example_embed_request)"
    using mp[OF conjunct1[OF T] h] .
  have B: "\<exists>message. embed_stage two_group_env ?all (new_job two_group_env default_request, []) =
           (Inr message,
            (new_job two_group_env default_request)
              \<lparr>status := Completed,
               embedded_chunks := length (concat (map kept (embed_outcomes two_group_env (chunksBySource ?all) 0))),
               upserted_chunks := nat_or (Some 2) 0,
               completed_at := Some (env_completed_at two_group_env)\<rparr>,
            [] @ map (\<lambda>g. CallEmbed (embed_request_of g)) (chunksBySource ?all)
              @ [CallUpsert (concat (map kept (embed_outcomes two_group_env (chunksBySource ?all) 0)))])"
    using mp[OF conjunct2[OF T] g] .
  have B': "\<exists>message.
        embed_stage two_group_env ?all (new_job two_group_env default_request, []) =
        (Inr message,
         (new_job two_group_env default_request)
           \<lparr>status := Completed, embedded_chunks := 2, upserted_chunks := 2,
            completed_at := Some ''2026-01-01T00:05:00.000Z''\<rparr>,
         [CallEmbed (embed_request_of (''250700:a'', [example_pipeline_chunk ''a''])),
          CallEmbed (embed_request_of (''250700:b'', [example_pipeline_chunk ''b''])),
          CallUpsert [7, 8]])"
    using B unfolding out unfolding gs
    by (simp add: kept_simps nat_or_def two_group_env_def failing_env_def numeral_2_eq_2)
  show ?thesis using A B' by simp
qed

text \<open>
  A batch that fails takes the batches before it along. One PDF is parsed into 129
  chunks, sent to the embedding function in one request. The first batch of 128
  chunks is embedded by the API, the second batch exhausts its attempts: the run
  completes with 129 parsed chunks, no embedded chunk, and upserts the empty list.
\<close>

theorem embedding_failure_drops_earlier_batches:
  "\<exists>j m rq cs.
     data (fst (runPipelineSync long_document_env default_request))
       = Some \<lparr>rd_job = j, rd_message = Some m\<rparr>
     \<and> status j = Completed \<and> job_error j = None
     \<and> parsed_chunks j = 129 \<and> embedded_chunks j = 0
     \<and> snd (runPipelineSync long_document_env default_request) ! 2 = CallEmbed rq
     \<and> last (snd (runPipelineSync long_document_env default_request)) = CallUpsert []
     \<and> length (er_chunks rq) = 129
     \<and> embed_batches rate_limited_voyage rq (take 1 (chunks_of (er_chunks rq) VOYAGE_BATCH_SIZE)) 0 ([], 0)
         = (Inr (cs, 128), 1)
     \<and> length cs = 128"
proof -
  let ?env = "long_document_env"
  let ?rq = "default_request"
  let ?c = "\<lparr>pc_chunk = example_chunk 0, pc_file_number = pdf_file_number (example_pdf 0),
            pc_source_url = pdf_url (example_pdf 0), pc_discovered_at = pdf_discovered_at (example_pdf 0),
            pc_parsed_at = None\<rparr>"
  let ?x = "\<lparr>rq_chunk = example_chunk 0, rq_discovered_at = pdf_discovered_at (example_pdf 0),
            rq_parsed_at = None\<rparr>"
  let ?g = "(group_key ?c, replicate 129 ?c)"
  let ?J = "(new_job ?env ?rq)\<lparr>status := Parsing, discovered_pdfs := [example_pdf 0], parsed_chunks := 129\<rparr>"
  let ?C = "[CallDiscover (discover_request_of ?rq),
             CallParse \<lparr>pq_pdf_url = pdf_url (example_pdf 0), pq_file_number = pdf_file_number (example_pdf 0)\<rparr>]"
  have tb: "try_block ?env ?rq (new_job ?env ?rq, []) = embed_stage ?env (replicate 129 ?c) (?J, ?C)"
    by (simp add: try_block_def parse_stage_def Let_def long_document_env_def failing_env_def
                  parsed_chunks_of_def new_job_def)
  have gs: "chunksBySource (replicate 129 ?c) = [?g]"
    by (rule chunksBySource_replicate) simp
  have er: "er_chunks (embed_request_of ?g) = replicate 129 ?x"
    by (simp add: embed_request_of_def)
  have out: "embed_outcomes ?env [?g] 0 = [embed_via_voyage (\<lambda>i. rate_limited_voyage) 0 (embed_request_of ?g)]"
    by (simp add: long_document_env_def)
  have k: "concat (map kept (embed_outcomes ?env (chunksBySource (replicate 129 ?c)) 0)) = []"
    unfolding gs out using rate_limited_request[OF er, of 0] by simp
  have "\<exists>message. embed_stage ?env (replicate 129 ?c) (?J, ?C) =
           (Inr message,
            ?J\<lparr>status := Completed,
               embedded_chunks := length (concat (map kept (embed_outcomes ?env (chunksBySource (replicate 129 ?c)) 0))),
               upserted_chunks := nat_or (Some 0) 0,
               completed_at := Some (env_completed_at ?env)\<rparr>,
            ?C @ map (\<lambda>g. CallEmbed (embed_request_of g)) (chunksBySource (replicate 129 ?c))
              @ [CallUpsert (concat (map kept (embed_outcomes ?env (chunksBySource (replicate 129 ?c)) 0)))])"
  proof (rule embed_stage_no_throw)
    show "\<forall>r \<in> set (embed_outcomes ?env (chunksBySource (replicate 129 ?c)) 0). \<not> throws r"
      unfolding gs out using rate_limited_request[OF er, of 0] by simp
    show "embedded_chunks ?J = 0"
      by (simp add: new_job_def)
    show "env_upsert ?env (concat (map kept (embed_outcomes ?env (chunksBySource (replicate 129 ?c)) 0))) = OkJson (Some 0)"
      unfolding k by (simp add: long_document_env_def)
  qed
  then have "\<exists>message. embed_stage ?env (replicate 129 ?c) (?J, ?C) =
           (Inr message,
            ?J\<lparr>status := Completed, embedded_chunks := 0, upserted_chunks := nat_or (Some 0) 0,
               completed_at := Some (env_completed_at ?env)\<rparr>,
            ?C @ [CallEmbed (embed_request_of ?g), CallUpsert []])"
    unfolding k unfolding gs by simp
  then obtain m where
    m: "try_block ?env ?rq (new_job ?env ?rq, []) =
           (Inr m,
            ?J\<lparr>status := Completed, embedded_chunks := 0, upserted_chunks := nat_or (Some 0) 0,
               completed_at := Some (env_completed_at ?env)\<rparr>,
            ?C @ [CallEmbed (embed_request_of ?g), CallUpsert []])"
    unfolding tb by blast
  obtain cs where cs: "embed_batches rate_limited_voyage (embed_request_of ?g) [replicate 128 ?x] 0 ([], 0)
                          = (Inr (cs, 128), 1)" "length cs = 128"
    using rate_limited_first_batch by blast
  have t: "take 1 (chunks_of (er_chunks (embed_request_of ?g)) VOYAGE_BATCH_SIZE) = [replicate 128 ?x]"
    unfolding er VOYAGE_BATCH_SIZE_def chunks_129 by simp
  let ?J' = "?J\<lparr>status := Completed, embedded_chunks := 0, upserted_chunks := nat_or (Some 0) 0,
               completed_at := Some (env_completed_at ?env)\<rparr>"
  have run: "runPipelineSync ?env ?rq =
               (createResponse (Some \<lparr>rd_job = ?J', rd_message = Some m\<rparr>) None,
                ?C @ [CallEmbed (embed_request_of ?g), CallUpsert []])"
    by (simp add: runPipelineSync_def m)
  have d: "data (fst (runPipelineSync ?env ?rq)) = Some \<lparr>rd_job = ?J', rd_message = Some m\<rparr>"
    unfolding run by (simp add: createResponse_data)
  have j1: "status ?J' = Completed" and j2: "job_error ?J' = None"
    and j3: "parsed_chunks ?J' = 129" and j4: "embedded_chunks ?J' = 0"
    by (simp_all add: new_job_def)
  have t1: "snd (runPipelineSync ?env ?rq) ! 2 = CallEmbed (embed_request_of ?g)"
    and t2: "last (snd (runPipelineSync ?env ?rq)) = CallUpsert []"
    unfolding run by simp_all
  have l: "length (er_chunks (embed_request_of ?g)) = 129"
    unfolding er by simp
  have b: "embed_batches rate_limited_voyage (embed_request_of ?g)
             (take 1 (chunks_of (er_chunks (embed_request_of ?g)) VOYAGE_BATCH_SIZE)) 0 ([], 0)
             = (Inr (cs, 128), 1)"
    unfolding t by (rule cs(1))
  show ?thesis
    by (intro exI[of _ ?J'] exI[of _ m] exI[of _ "embed_request_of ?g"] exI[of _ cs] conjI)
       (rule d j1 j2 j3 j4 t1 t2 l b cs(2))+
qed

end
